(* ===== verification/Prelude.thy ===== *)
theory Prelude
  imports Main "HOL-Library.Word" "HOL-Library.Sublist"
begin

text \<open>
  Shared ground of the development: Go errors with their wrapping chain, results of
  fallible functions, the functions of Go's \<open>strings\<close> package that the program uses, and
  decimal printing. A Go string is a sequence of bytes, here a \<open>char list\<close> (a
  \<open>char\<close> is one byte).

  Two collections carry the component proofs: \<open>go_err\<close> (equations on errors and results)
  and \<open>go_str\<close> (equations on the string functions).
\<close>

named_theorems go_err "equations on Go errors and results"
named_theorems go_str "equations on Go string functions"

section \<open>Errors and results\<close>

text \<open>
  \<open>errors.New m\<close> is \<open>GErr m\<close>; \<open>fmt.Errorf(p + ": %w", e)\<close>, the form nearly
  every wrap of the program has, is \<open>GWrap p e\<close>, and \<open>fmt.Errorf(p + ": %w" + s, e)\<close>
  is \<open>GAround p e s\<close>. A function returning \<open>(T, error)\<close> is a value of \<open>'a go\<close>:
  \<open>Inl\<close> an error, \<open>Inr\<close> the value. Where a call may panic its value is an
  \<open>outcome\<close>.
\<close>

datatype goerr = GErr string | GWrap string goerr | GAround string goerr string

datatype 'a outcome = Panicked string | Done 'a

type_synonym 'a go = "goerr + 'a"

primrec err_msg :: "goerr \<Rightarrow> string" where
  "err_msg (GErr m) = m"
| "err_msg (GWrap p e) = p @ '': '' @ err_msg e"
| "err_msg (GAround p e s) = p @ '': '' @ err_msg e @ s"

text \<open>\<open>errors.Is\<close>: the target is the error itself or something it wraps.\<close>

primrec err_is :: "goerr \<Rightarrow> goerr \<Rightarrow> bool" where
  "err_is (GErr m) t = (GErr m = t)"
| "err_is (GWrap p e) t = (GWrap p e = t \<or> err_is e t)"
| "err_is (GAround p e s) t = (GAround p e s = t \<or> err_is e t)"

definition is_ok :: "'a go \<Rightarrow> bool" where
  "is_ok r = (case r of Inl _ \<Rightarrow> False | Inr _ \<Rightarrow> True)"

lemma is_ok_simps [simp, go_err]: "is_ok (Inr v)" "\<not> is_ok (Inl e)"
  by (simp_all add: is_ok_def)

lemma err_is_refl [simp, go_err]: "err_is e e"
  by (cases e) auto

lemma err_is_wrap [intro, go_err]: "err_is e t \<Longrightarrow> err_is (GWrap p e) t"
  by simp

text \<open>A loop that stops at the first error, and a result passed through a total function.\<close>

fun seq_go :: "'a go list \<Rightarrow> 'a list go" where
  "seq_go [] = Inr []"
| "seq_go (Inl e # rs) = Inl e"
| "seq_go (Inr v # rs) = (case seq_go rs of Inl e \<Rightarrow> Inl e | Inr vs \<Rightarrow> Inr (v # vs))"

definition map_go :: "('a \<Rightarrow> 'b) \<Rightarrow> 'a go \<Rightarrow> 'b go" where
  "map_go f r = (case r of Inl e \<Rightarrow> Inl e | Inr v \<Rightarrow> Inr (f v))"

lemma map_go_simps [simp, go_err]: "map_go f (Inl e) = Inl e" "map_go f (Inr v) = Inr (f v)"
  by (simp_all add: map_go_def)

lemma map_go_Inr: "map_go f r = Inr u \<longleftrightarrow> (\<exists>v. r = Inr v \<and> u = f v)"
  by (cases r) auto

lemma seq_go_Inr: "seq_go rs = Inr vs \<longleftrightarrow> rs = map Inr vs"
proof (induction rs arbitrary: vs rule: seq_go.induct)
  case (3 v rs)
  show ?case
  proof (cases "seq_go rs")
    case (Inl e)
    with "3.IH" have "rs \<noteq> map Inr us" for us by simp
    then have "Inr v # rs \<noteq> map Inr vs" by (cases vs) auto
    with Inl show ?thesis by simp
  next
    case (Inr us)
    with "3.IH" [of us] have "rs = map Inr us" by blast
    then have "Inr v # rs = map Inr vs \<longleftrightarrow> vs = v # us" by (cases vs) auto
    with Inr show ?thesis by auto
  qed
qed auto

section \<open>Go's string functions\<close>

definition has_prefix :: "string \<Rightarrow> string \<Rightarrow> bool" where
  "has_prefix s p \<longleftrightarrow> prefix p s"

definition has_suffix :: "string \<Rightarrow> string \<Rightarrow> bool" where
  "has_suffix s p \<longleftrightarrow> suffix p s"

definition trim_prefix :: "string \<Rightarrow> string \<Rightarrow> string" where
  "trim_prefix s p = (if prefix p s then drop (length p) s else s)"

definition trim_suffix :: "string \<Rightarrow> string \<Rightarrow> string" where
  "trim_suffix s p = (if suffix p s then take (length s - length p) s else s)"

text \<open>\<open>strings.Cut\<close>: the text before and after the first occurrence of the separator.\<close>

fun cut :: "string \<Rightarrow> string \<Rightarrow> (string \<times> string) option" where
  "cut s sep =
     (if prefix sep s then Some ([], drop (length sep) s)
      else (case s of [] \<Rightarrow> None | c # cs \<Rightarrow> map_option (apfst (Cons c)) (cut cs sep)))"

declare cut.simps [simp del]

definition contains :: "string \<Rightarrow> string \<Rightarrow> bool" where
  "contains s sub = (cut s sub \<noteq> None)"

lemma cut_Some: "cut s sep = Some (a, b) \<Longrightarrow> s = a @ sep @ b"
proof (induction s sep arbitrary: a rule: cut.induct)
  case (1 s sep)
  show ?case
  proof (cases "prefix sep s")
    case True
    with "1.prems" show ?thesis
      by (auto simp: cut.simps [of s] prefix_def)
  next
    case False
    with "1.prems" obtain c cs a' where "s = c # cs" "a = c # a'" "cut cs sep = Some (a', b)"
      by (auto simp: cut.simps [of s] split: list.splits)
    with "1.IH" [OF False] show ?thesis by auto
  qed
qed

lemma cut_None: "cut s sep = None \<longleftrightarrow> (\<forall>a b. s \<noteq> a @ sep @ b)"
proof (induction s sep rule: cut.induct)
  case (1 s sep)
  show ?case
  proof (cases "prefix sep s")
    case True
    then have "\<exists>b. s = [] @ sep @ b" by (auto simp: prefix_def)
    with True show ?thesis by (auto simp: cut.simps [of s])
  next
    case False
    show ?thesis
    proof (cases s)
      case Nil
      with False show ?thesis by (auto simp: cut.simps [of "[]"] prefix_def)
    next
      case (Cons c cs)
      with 1 False have "cut cs sep = None \<longleftrightarrow> (\<forall>a b. cs \<noteq> a @ sep @ b)" by simp
      moreover have "(\<exists>a b. c # cs = a @ sep @ b) \<longleftrightarrow> (\<exists>a b. cs = a @ sep @ b)"
      proof
        assume "\<exists>a b. c # cs = a @ sep @ b"
        then obtain a b where ab: "c # cs = a @ sep @ b" by blast
        with False Cons have "a \<noteq> []" by (auto simp: prefix_def)
        with ab show "\<exists>a b. cs = a @ sep @ b" by (cases a) auto
      next
        assume "\<exists>a b. cs = a @ sep @ b"
        then obtain a b where "cs = a @ sep @ b" by blast
        then have "c # cs = (c # a) @ sep @ b" by simp
        then show "\<exists>a b. c # cs = a @ sep @ b" by blast
      qed
      ultimately show ?thesis using False Cons by (auto simp: cut.simps [of "c # cs"])
    qed
  qed
qed

lemma cut_at_char: "c \<notin> set a \<Longrightarrow> cut (a @ c # b) [c] = Some (a, b)"
  by (induction a) (auto simp: cut.simps)

lemma contains_iff: "contains s sub \<longleftrightarrow> (\<exists>a b. s = a @ sub @ b)"
  by (simp only: contains_def cut_None not_all not_not)

text \<open>
  \<open>strings.TrimSpace\<close> removes Unicode white space at both ends; \<open>go_spaces\<close> lists
  the UTF-8 encodings of the code points for which \<open>unicode.IsSpace\<close> holds.
\<close>

definition bytes :: "nat list \<Rightarrow> string" where
  "bytes ns = map char_of ns"

definition go_spaces :: "string list" where
  "go_spaces = map bytes
     ([[9], [10], [11], [12], [13], [32], [0xC2, 0x85], [0xC2, 0xA0], [0xE1, 0x9A, 0x80]]
      @ map (\<lambda>k. [0xE2, 0x80, 0x80 + k]) [0, 1, 2, 3, 4, 5, 6, 7, 8, 9, 10]
      @ [[0xE2, 0x80, 0xA8], [0xE2, 0x80, 0xA9], [0xE2, 0x80, 0xAF], [0xE2, 0x81, 0x9F],
         [0xE3, 0x80, 0x80]])"

function strip_front :: "string list \<Rightarrow> string \<Rightarrow> string" where
  "strip_front sps s =
     (case find (\<lambda>p. p \<noteq> [] \<and> prefix p s) sps of
        None \<Rightarrow> s
      | Some p \<Rightarrow> strip_front sps (drop (length p) s))"
  by pat_completeness auto
termination
proof (relation "measure (\<lambda>(sps, s). length s)", goal_cases)
  case (2 sps s p)
  then have "p \<noteq> []" "prefix p s" by (auto simp: find_Some_iff)
  then show ?case by (auto simp: prefix_def)
qed simp

declare strip_front.simps [simp del]

definition trim_space :: "string \<Rightarrow> string" where
  "trim_space s =
     rev (strip_front (map rev go_spaces) (rev (strip_front go_spaces s)))"

text \<open>Printable ASCII at both ends stops the trimming.\<close>

definition visible :: "char \<Rightarrow> bool" where
  "visible c \<longleftrightarrow> 0x20 < (of_char c :: nat) \<and> (of_char c :: nat) < 0x7F"

lemma strip_front_id: "(\<And>p. p \<in> set sps \<Longrightarrow> p \<noteq> [] \<Longrightarrow> \<not> prefix p s) \<Longrightarrow> strip_front sps s = s"
  by (subst strip_front.simps) (auto split: option.split simp: find_Some_iff dest: nth_mem)

lemma strip_front_step: "find (\<lambda>p. p \<noteq> [] \<and> prefix p s) sps = Some p \<Longrightarrow> strip_front sps s = strip_front sps (drop (length p) s)"
  by (subst strip_front.simps) simp

lemma bytes_ends: "ns \<noteq> [] \<Longrightarrow> hd (bytes ns) = char_of (hd ns) \<and> last (bytes ns) = char_of (last ns)"
  by (simp add: bytes_def hd_map last_map)

lemma go_spaces_ends: "p \<in> set go_spaces \<Longrightarrow> p \<noteq> [] \<and> \<not> visible (hd p) \<and> \<not> visible (last p)"
  by (auto simp: go_spaces_def bytes_ends visible_def) (simp_all add: bytes_def)

lemma trim_space_visible:
  assumes "s \<noteq> []" "visible (hd s)" "visible (last s)"
  shows "trim_space s = s"
proof -
  have "strip_front go_spaces s = s"
    using assms go_spaces_ends by (intro strip_front_id) (auto simp: prefix_def)
  moreover have "strip_front (map rev go_spaces) (rev s) = rev s"
    using assms go_spaces_ends
    by (intro strip_front_id) (fastforce simp: prefix_def hd_rev hd_append dest!: arg_cong [where f = hd])
  ultimately show ?thesis by (simp add: trim_space_def)
qed

lemma find_blank: "find (\<lambda>p. p \<noteq> [] \<and> prefix p ('' '' @ s)) go_spaces = Some '' ''"
  by (simp add: go_spaces_def bytes_def char_of_eq_iff take_bit_eq_mod)

lemma trim_space_blank: "trim_space ('' '' @ s) = trim_space s"
  using strip_front_step [OF find_blank] by (simp add: trim_space_def)

text \<open>\<open>strings.ToLower\<close> on the ASCII letters; other bytes are kept.\<close>

definition lower_char :: "char \<Rightarrow> char" where
  "lower_char c =
     (if 65 \<le> (of_char c :: nat) \<and> (of_char c :: nat) \<le> 90 then char_of ((of_char c :: nat) + 32) else c)"

definition to_lower :: "string \<Rightarrow> string" where
  "to_lower s = map lower_char s"

definition newline :: char where
  "newline = CHR 0x0A"

text \<open>\<open>strings.Join\<close>.\<close>

fun join :: "string list \<Rightarrow> string \<Rightarrow> string" where
  "join [] sep = []"
| "join [x] sep = x"
| "join (x # y # zs) sep = x @ sep @ join (y # zs) sep"

lemma set_join: "set (join xs sep) \<subseteq> \<Union> (set ` set xs) \<union> set sep"
  by (induction xs sep rule: join.induct) auto

section \<open>Decimal printing\<close>

definition digit :: "nat \<Rightarrow> char" where
  "digit d = char_of (48 + d)"

lemma digit_simps [simp, go_str]:
  "digit 0 = CHR ''0''" "digit 1 = CHR ''1''" "digit (Suc 0) = CHR ''1''" "digit 2 = CHR ''2''"
  "digit 3 = CHR ''3''" "digit 4 = CHR ''4''" "digit 5 = CHR ''5''" "digit 6 = CHR ''6''"
  "digit 7 = CHR ''7''" "digit 8 = CHR ''8''" "digit 9 = CHR ''9''"
  by code_simp+

fun show_nat :: "nat \<Rightarrow> string" where
  "show_nat n = (if n < 10 then [digit n] else show_nat (n div 10) @ [digit (n mod 10)])"

declare show_nat.simps [simp del]

definition show_int :: "int \<Rightarrow> string" where
  "show_int i = (if i < 0 then CHR ''-'' # show_nat (nat (- i)) else show_nat (nat i))"

lemma show_nat_nonempty: "show_nat n \<noteq> []"
  by (subst show_nat.simps) simp

lemma digit_range: "d < 10 \<Longrightarrow> (of_char (digit d) :: nat) = 48 + d"
  by (simp add: digit_def)

lemma show_nat_digits: "c \<in> set (show_nat n) \<Longrightarrow> 48 \<le> (of_char c :: nat) \<and> (of_char c :: nat) < 58"
proof (induction n rule: show_nat.induct)
  case (1 n)
  show ?case
  proof (cases "n < 10")
    case True
    with "1.prems" show ?thesis by (subst (asm) show_nat.simps) (simp add: digit_range)
  next
    case False
    then have "show_nat n = show_nat (n div 10) @ [digit (n mod 10)]" by (subst show_nat.simps) simp
    with "1.prems" have "c \<in> set (show_nat (n div 10)) \<or> c = digit (n mod 10)" by auto
    with "1.IH" [OF False] show ?thesis by (auto simp: digit_range)
  qed
qed

end
