(* ===== verification/Worker.thy ===== *)
theory Worker
  imports Prelude "HOL-Library.AList"
begin

text \<open>
  One Node worker (\<open>worker.go\<close>) and the messages it exchanges (\<open>protocol/wire.go\<close>).
  The state of a worker shared by its goroutines is the record \<open>worker\<close>; a goroutine
  inside \<open>worker.render\<close> is a caller with a program counter \<open>caller\<close>, the reader
  goroutine has a program counter \<open>reader_pc\<close>. One atomic action of the code (an atomic
  add, a critical section under \<open>pendingMu\<close> or \<open>writeMu\<close>, a channel operation, one
  \<open>ReadBytes\<close>) is one event, \<open>wstep\<close> says what it does, and any interleaving of
  enabled events is a run. The JSON codec is a pair of arguments \<open>enc\<close>, \<open>dec\<close>.
\<close>

section \<open>The wire protocol\<close>

type_synonym request_id = "64 word"

text \<open>\<open>'p\<close> is the type of the properties (\<open>map[string]any\<close>), which the worker only forwards.\<close>

record 'p render_request =
  req_id :: request_id
  req_component :: string
  req_props :: 'p

record render_response =
  resp_id :: request_id
  resp_html :: string
  resp_head :: string
  resp_error :: string

section \<open>State\<close>

text \<open>
  Where a caller of \<open>worker.render\<close> stands: before the call, with its request ID drawn,
  registered in \<open>pending\<close>, blocked in the final \<open>select\<close>, returning but before the
  deferred \<open>delete\<close>, returned.
\<close>

datatype 'p caller =
    CIdle
  | CAssigned "'p render_request"
  | CRegistered "'p render_request"
  | CWaiting request_id
  | CLeaving request_id "render_response go"
  | CReturned request_id "render_response go"

text \<open>
  Where the reader goroutine stands: at \<open>ReadBytes\<close>, with a decoded response before
  \<open>dispatch\<close> looks it up, before the non-blocking send on the channel of the caller found,
  before \<open>drainPending\<close>, before the deferred \<open>close(w.done)\<close>, finished.
\<close>

datatype reader_pc =
    RReading
  | RGot render_response
  | RSending nat render_response
  | RDraining
  | RClosing
  | RExited

text \<open>
  Callers are numbered; \<open>pending\<close> maps an ID to the caller whose reply channel is stored,
  \<open>chan\<close> is the one-place buffer of that channel. \<open>sent\<close> are the lines written to
  the stdin of Node, \<open>inbuf\<close> the bytes of its stdout not read yet, \<open>out_closed\<close> says
  whether the pipe has ended (\<open>Some None\<close> for EOF, \<open>Some (Some e)\<close> for a read error).
\<close>

record 'p worker =
  next_id :: request_id
  pending :: "(request_id \<times> nat) list"
  callers :: "nat \<Rightarrow> 'p caller"
  chan :: "nat \<Rightarrow> render_response option"
  sent :: "string list"
  inbuf :: string
  out_closed :: "goerr option option"
  reader :: reader_pc
  read_err :: "goerr option"
  done_closed :: bool

definition worker0 :: "'p worker" where
  "worker0 = \<lparr>next_id = 0, pending = [], callers = (\<lambda>_. CIdle), chan = (\<lambda>_. None), sent = [],
     inbuf = [], out_closed = None, reader = RReading, read_err = None, done_closed = False\<rparr>"

definition alive :: "'p worker \<Rightarrow> bool" where
  "alive w = (\<not> done_closed w)"

section \<open>Steps\<close>

text \<open>\<open>bufio.Reader.ReadBytes('\n')\<close>: the bytes up to and with the delimiter, and the rest.\<close>

fun read_line :: "string \<Rightarrow> (string \<times> string) option" where
  "read_line [] = None"
| "read_line (c # cs) =
     (if c = newline then Some ([c], cs) else map_option (apfst (Cons c)) (read_line cs))"

text \<open>
  \<open>fmt.Errorf(p + ": %w", e)\<close> where \<open>e\<close> may be nil: Go then prints the bad verb
  \<open>%!w(<nil>)\<close> and wraps nothing.
\<close>

definition wrap_maybe :: "string \<Rightarrow> goerr option \<Rightarrow> goerr" where
  "wrap_maybe p e = (case e of None \<Rightarrow> GErr (p @ '': %!w(<nil>)'') | Some e' \<Rightarrow> GWrap p e')"

text \<open>\<open>writeRequest\<close>: marshal, append the newline, write; \<open>io\<close> is what \<open>stdin.Write\<close> returns.\<close>

definition write_request ::
  "('p render_request \<Rightarrow> string go) \<Rightarrow> 'p render_request \<Rightarrow> goerr option \<Rightarrow> string go" where
  "write_request enc req io =
     (case enc req of
        Inl e \<Rightarrow> Inl (GWrap ''revelt worker: marshalling request'' e)
      | Inr line \<Rightarrow>
          (case io of
             Some e \<Rightarrow> Inl (GWrap ''revelt worker: writing to node stdin'' e)
           | None \<Rightarrow> Inr (line @ [newline])))"

text \<open>The response \<open>drainPending\<close> injects.\<close>

definition drain_response :: "goerr option \<Rightarrow> render_response" where
  "drain_response cause =
     \<lparr>resp_id = 0, resp_html = [], resp_head = [],
      resp_error = (case cause of None \<Rightarrow> ''worker exited'' | Some e \<Rightarrow> err_msg e)\<rparr>"

definition drain_pending :: "'p worker \<Rightarrow> 'p worker" where
  "drain_pending w = w\<lparr>
     chan := (\<lambda>t. if t \<in> set (map snd (pending w)) \<and> chan w t = None
                  then Some (drain_response (read_err w)) else chan w t),
     pending := []\<rparr>"

definition set_caller :: "nat \<Rightarrow> 'p caller \<Rightarrow> 'p worker \<Rightarrow> 'p worker" where
  "set_caller t c w = w\<lparr>callers := (callers w)(t := c)\<rparr>"

datatype 'p wevent =
    EStart nat string 'p            \<comment> \<open>\<open>nextID.Add(1)\<close>\<close>
  | ERegister nat                   \<comment> \<open>\<open>pending[req.ID] = call\<close>\<close>
  | EWrite nat "goerr option"       \<comment> \<open>\<open>writeRequest\<close>\<close>
  | ERecv nat                       \<comment> \<open>the \<open>select\<close> takes the reply\<close>
  | ESeeDone nat                    \<comment> \<open>the \<open>select\<close> sees \<open>done\<close> closed\<close>
  | ECancel nat goerr               \<comment> \<open>the \<open>select\<close> sees the context done\<close>
  | ELeave nat                      \<comment> \<open>the deferred \<open>delete\<close>\<close>
  | ENode string                    \<comment> \<open>Node writes bytes to its stdout\<close>
  | ENodeEnd "goerr option"         \<comment> \<open>the stdout pipe ends\<close>
  | ERead                           \<comment> \<open>\<open>ReadBytes\<close> and \<open>json.Unmarshal\<close>\<close>
  | ELookup                         \<comment> \<open>\<open>dispatch\<close>, the lookup\<close>
  | ESend                           \<comment> \<open>\<open>dispatch\<close>, the non-blocking send\<close>
  | EDrain                          \<comment> \<open>\<open>drainPending\<close>\<close>
  | EClose                          \<comment> \<open>\<open>close(w.done)\<close>\<close>

fun wstep ::
  "('p render_request \<Rightarrow> string go) \<Rightarrow> (string \<Rightarrow> render_response go) \<Rightarrow>
   'p worker \<Rightarrow> 'p wevent \<Rightarrow> 'p worker option" where
  "wstep enc dec w (EStart t cname props) =
     (if callers w t = CIdle
      then let i = next_id w + 1 in
           Some (set_caller t (CAssigned \<lparr>req_id = i, req_component = cname, req_props = props\<rparr>)
                   (w\<lparr>next_id := i, chan := (chan w)(t := None)\<rparr>))
      else None)"
| "wstep enc dec w (ERegister t) =
     (case callers w t of
        CAssigned req \<Rightarrow>
          Some (set_caller t (CRegistered req)
                  (w\<lparr>pending := AList.update (req_id req) t (pending w)\<rparr>))
      | _ \<Rightarrow> None)"
| "wstep enc dec w (EWrite t io) =
     (case callers w t of
        CRegistered req \<Rightarrow>
          Some (case write_request enc req io of
                  Inl e \<Rightarrow> set_caller t (CLeaving (req_id req) (Inl e)) w
                | Inr line \<Rightarrow> set_caller t (CWaiting (req_id req)) (w\<lparr>sent := sent w @ [line]\<rparr>))
      | _ \<Rightarrow> None)"
| "wstep enc dec w (ERecv t) =
     (case (callers w t, chan w t) of
        (CWaiting i, Some r) \<Rightarrow>
          Some (set_caller t (CLeaving i (Inr r)) (w\<lparr>chan := (chan w)(t := None)\<rparr>))
      | _ \<Rightarrow> None)"
| "wstep enc dec w (ESeeDone t) =
     (case callers w t of
        CWaiting i \<Rightarrow>
          (if done_closed w
           then Some (set_caller t
                  (CLeaving i (Inl (wrap_maybe ''revelt worker: process exited'' (read_err w)))) w)
           else None)
      | _ \<Rightarrow> None)"
| "wstep enc dec w (ECancel t e) =
     (case callers w t of
        CWaiting i \<Rightarrow>
          Some (set_caller t (CLeaving i (Inl (GWrap ''revelt worker: request cancelled'' e))) w)
      | _ \<Rightarrow> None)"
| "wstep enc dec w (ELeave t) =
     (case callers w t of
        CLeaving i res \<Rightarrow>
          Some (set_caller t (CReturned i res) (w\<lparr>pending := AList.delete i (pending w)\<rparr>))
      | _ \<Rightarrow> None)"
| "wstep enc dec w (ENode bs) =
     (if out_closed w = None then Some (w\<lparr>inbuf := inbuf w @ bs\<rparr>) else None)"
| "wstep enc dec w (ENodeEnd e) =
     (if out_closed w = None then Some (w\<lparr>out_closed := Some e\<rparr>) else None)"
| "wstep enc dec w ERead =
     (if reader w = RReading then
        (case read_line (inbuf w) of
           Some (line, rest) \<Rightarrow>
             (case dec line of
                Inl _ \<Rightarrow> Some (w\<lparr>inbuf := rest\<rparr>)
              | Inr r \<Rightarrow> Some (w\<lparr>inbuf := rest, reader := RGot r\<rparr>))
         | None \<Rightarrow>
             (case out_closed w of
                None \<Rightarrow> None
              | Some e \<Rightarrow>
                  Some (w\<lparr>inbuf := [],
                         read_err := (case e of
                             None \<Rightarrow> read_err w
                           | Some e' \<Rightarrow> Some (GWrap ''reading node stdout'' e')),
                         reader := RDraining\<rparr>)))
      else None)"
| "wstep enc dec w ELookup =
     (case reader w of
        RGot r \<Rightarrow>
          Some (case map_of (pending w) (resp_id r) of
                  None \<Rightarrow> w\<lparr>reader := RReading\<rparr>
                | Some t \<Rightarrow> w\<lparr>reader := RSending t r\<rparr>)
      | _ \<Rightarrow> None)"
| "wstep enc dec w ESend =
     (case reader w of
        RSending t r \<Rightarrow>
          Some (w\<lparr>reader := RReading,
                 chan := (if chan w t = None then (chan w)(t := Some r) else chan w)\<rparr>)
      | _ \<Rightarrow> None)"
| "wstep enc dec w EDrain =
     (if reader w = RDraining then Some ((drain_pending w)\<lparr>reader := RClosing\<rparr>) else None)"
| "wstep enc dec w EClose =
     (if reader w = RClosing then Some (w\<lparr>reader := RExited, done_closed := True\<rparr>) else None)"

fun wrun ::
  "('p render_request \<Rightarrow> string go) \<Rightarrow> (string \<Rightarrow> render_response go) \<Rightarrow>
   'p worker \<Rightarrow> 'p wevent list \<Rightarrow> 'p worker option" where
  "wrun enc dec w [] = Some w"
| "wrun enc dec w (e # es) =
     (case wstep enc dec w e of None \<Rightarrow> None | Some w' \<Rightarrow> wrun enc dec w' es)"

lemma wrun_append:
  "wrun enc dec w (es @ fs) =
     (case wrun enc dec w es of None \<Rightarrow> None | Some w' \<Rightarrow> wrun enc dec w' fs)"
  by (induction es arbitrary: w) (auto split: option.splits)

section \<open>Starting and stopping a worker\<close>

record worker_config =
  node_bin :: string
  read_buf_size :: int
  write_timeout :: int
  worker_env :: "string list"

text \<open>The command \<open>newWorker\<close> builds; \<open>None\<close> is the inherited environment.\<close>

record command =
  cmd_path :: string
  cmd_args :: "string list"
  cmd_env :: "string list option"

definition worker_command :: "worker_config \<Rightarrow> string \<Rightarrow> command" where
  "worker_command cfg script =
     \<lparr>cmd_path = node_bin cfg, cmd_args = [script],
      cmd_env = (if 0 < length (worker_env cfg) then Some (worker_env cfg) else None)\<rparr>"

text \<open>What the operating system answers to the three calls of \<open>newWorker\<close>.\<close>

record os_spawn =
  os_stdin_pipe :: "goerr option"
  os_stdout_pipe :: "goerr option"
  os_start :: "goerr option"

definition new_worker :: "os_spawn \<Rightarrow> 'p worker go" where
  "new_worker os =
     (case os_stdin_pipe os of
        Some e \<Rightarrow> Inl (GWrap ''revelt worker: stdin pipe'' e)
      | None \<Rightarrow>
          (case os_stdout_pipe os of
             Some e \<Rightarrow> Inl (GWrap ''revelt worker: stdout pipe'' e)
           | None \<Rightarrow>
               (case os_start os of
                  Some e \<Rightarrow> Inl (GWrap ''revelt worker: starting node'' e)
                | None \<Rightarrow> Inr worker0)))"

text \<open>
  \<open>worker.close\<close>, given what \<open>stdin.Close\<close> and \<open>cmd.Wait\<close> return: the error, and
  whether the process was waited for.
\<close>

definition worker_close :: "goerr option \<Rightarrow> goerr option \<Rightarrow> goerr option \<times> bool" where
  "worker_close close_res wait_res =
     (case close_res of
        Some e \<Rightarrow> (Some (GWrap ''revelt worker: closing stdin'' e), False)
      | None \<Rightarrow>
          (case wait_res of
             Some e \<Rightarrow> (Some (GWrap ''revelt worker: node exited'' e), True)
           | None \<Rightarrow> (None, True)))"

end
