(* ===== verification/Worker_Safety.thy ===== *)
theory Worker_Safety
  imports Worker
begin

text \<open>
  The invariant of a worker and what follows from it for every interleaving: request IDs
  are unique, a caller gets the response that carries its own ID (or the error injected
  when the process ends), nothing is left in \<open>pending\<close>, and no caller waits for ever
  once the output of Node has ended.
\<close>

section \<open>The invariant\<close>

fun call_id :: "'p caller \<Rightarrow> request_id option" where
  "call_id CIdle = None"
| "call_id (CAssigned r) = Some (req_id r)"
| "call_id (CRegistered r) = Some (req_id r)"
| "call_id (CWaiting i) = Some i"
| "call_id (CLeaving i _) = Some i"
| "call_id (CReturned i _) = Some i"

text \<open>The ID under which a caller may be registered.\<close>

fun live_id :: "'p caller \<Rightarrow> request_id option" where
  "live_id (CRegistered r) = Some (req_id r)"
| "live_id (CWaiting i) = Some i"
| "live_id (CLeaving i _) = Some i"
| "live_id _ = None"

fun result_of :: "'p caller \<Rightarrow> render_response go option" where
  "result_of (CLeaving _ res) = Some res"
| "result_of (CReturned _ res) = Some res"
| "result_of _ = None"

lemma live_call_id: "live_id c = Some i \<Longrightarrow> call_id c = Some i"
  by (cases c) auto

text \<open>
  A reply a caller with ID \<open>i\<close> may hold: its own, or, once \<open>drainPending\<close> has run, the one
  it injects.
\<close>

definition drained :: "'p worker \<Rightarrow> bool" where
  "drained w \<longleftrightarrow> reader w = RClosing \<or> reader w = RExited"

definition answers :: "'p worker \<Rightarrow> request_id \<Rightarrow> render_response \<Rightarrow> bool" where
  "answers w i r \<longleftrightarrow> resp_id r = i \<or> (drained w \<and> (\<exists>cause. r = drain_response cause))"

definition inv_ids :: "'p worker \<Rightarrow> bool" where
  "inv_ids w \<longleftrightarrow> (\<forall>t i. call_id (callers w t) = Some i \<longrightarrow> 0 < unat i \<and> unat i \<le> unat (next_id w))"

definition inv_unique :: "'p worker \<Rightarrow> bool" where
  "inv_unique w \<longleftrightarrow> (\<forall>t u i. call_id (callers w t) = Some i \<longrightarrow> call_id (callers w u) = Some i \<longrightarrow> t = u)"

definition inv_pending :: "'p worker \<Rightarrow> bool" where
  "inv_pending w \<longleftrightarrow> distinct (map fst (pending w)) \<and>
     (\<forall>i t. map_of (pending w) i = Some t \<longrightarrow> live_id (callers w t) = Some i)"

definition inv_registered :: "'p worker \<Rightarrow> bool" where
  "inv_registered w \<longleftrightarrow> drained w \<or>
     (\<forall>t i. live_id (callers w t) = Some i \<longrightarrow> map_of (pending w) i = Some t)"

definition inv_chan :: "'p worker \<Rightarrow> bool" where
  "inv_chan w \<longleftrightarrow> (\<forall>t r. chan w t = Some r \<longrightarrow>
     (\<exists>i. call_id (callers w t) = Some i \<and> answers w i r))"

definition inv_sending :: "'p worker \<Rightarrow> bool" where
  "inv_sending w \<longleftrightarrow> (\<forall>t r. reader w = RSending t r \<longrightarrow> call_id (callers w t) = Some (resp_id r))"

definition inv_results :: "'p worker \<Rightarrow> bool" where
  "inv_results w \<longleftrightarrow> (\<forall>t r. result_of (callers w t) = Some (Inr r) \<longrightarrow>
     (\<exists>i. call_id (callers w t) = Some i \<and> answers w i r))"

definition inv_done :: "'p worker \<Rightarrow> bool" where
  "inv_done w \<longleftrightarrow> (done_closed w \<longleftrightarrow> reader w = RExited)"

lemmas worker_inv_defs = inv_ids_def inv_unique_def inv_pending_def inv_registered_def
  inv_chan_def inv_sending_def inv_results_def inv_done_def

definition worker_inv :: "'p worker \<Rightarrow> bool" where
  "worker_inv w \<longleftrightarrow> inv_ids w \<and> inv_unique w \<and> inv_pending w \<and> inv_registered w \<and>
     inv_chan w \<and> inv_sending w \<and> inv_results w \<and> inv_done w"

lemma worker_inv_init: "worker_inv worker0"
  by (simp add: worker_inv_def worker_inv_defs worker0_def)

text \<open>Drawing an ID must not wrap: the event that draws one has room left.\<close>

fun is_start :: "'p wevent \<Rightarrow> bool" where
  "is_start (EStart _ _ _) = True"
| "is_start _ = False"

definition room :: "'p worker \<Rightarrow> 'p wevent \<Rightarrow> bool" where
  "room w e \<longleftrightarrow> (is_start e \<longrightarrow> unat (next_id w) + 1 < 2 ^ 64)"

lemma unat_next: "unat (i :: request_id) + 1 < 2 ^ 64 \<Longrightarrow> unat (i + 1) = unat i + 1"
  by (simp add: unat_word_ariths)

section \<open>Elimination rules for the steps\<close>

fun_cases wstep_EStart: "wstep enc dec w (EStart t cname props) = Some w'"
fun_cases wstep_ERegister: "wstep enc dec w (ERegister t) = Some w'"
fun_cases wstep_EWrite: "wstep enc dec w (EWrite t io) = Some w'"
fun_cases wstep_ERecv: "wstep enc dec w (ERecv t) = Some w'"
fun_cases wstep_ESeeDone: "wstep enc dec w (ESeeDone t) = Some w'"
fun_cases wstep_ECancel: "wstep enc dec w (ECancel t e) = Some w'"
fun_cases wstep_ELeave: "wstep enc dec w (ELeave t) = Some w'"
fun_cases wstep_ERead: "wstep enc dec w ERead = Some w'"
fun_cases wstep_ELookup: "wstep enc dec w ELookup = Some w'"
fun_cases wstep_ESend: "wstep enc dec w ESend = Some w'"

lemmas wstep_elims = wstep_EStart wstep_ERegister wstep_EWrite wstep_ERecv wstep_ESeeDone
  wstep_ECancel wstep_ELeave wstep_ERead wstep_ELookup wstep_ESend

lemmas wstep_splits = if_splits option.splits caller.splits reader_pc.splits sum.splits prod.splits

lemma set_caller_simps [simp]:
  "next_id (set_caller t c w) = next_id w" "pending (set_caller t c w) = pending w"
  "callers (set_caller t c w) = (callers w)(t := c)" "chan (set_caller t c w) = chan w"
  "sent (set_caller t c w) = sent w" "inbuf (set_caller t c w) = inbuf w"
  "out_closed (set_caller t c w) = out_closed w" "reader (set_caller t c w) = reader w"
  "read_err (set_caller t c w) = read_err w" "done_closed (set_caller t c w) = done_closed w"
  by (simp_all add: set_caller_def)

lemma drain_pending_simps [simp]:
  "next_id (drain_pending w) = next_id w" "pending (drain_pending w) = []"
  "callers (drain_pending w) = callers w" "sent (drain_pending w) = sent w"
  "inbuf (drain_pending w) = inbuf w" "out_closed (drain_pending w) = out_closed w"
  "reader (drain_pending w) = reader w" "read_err (drain_pending w) = read_err w"
  "done_closed (drain_pending w) = done_closed w"
  by (simp_all add: drain_pending_def)

section \<open>Every step keeps the invariant\<close>

text \<open>Only drawing an ID changes the ID of a caller, and it gives an idle caller a new one.\<close>

lemma step_frame:
  assumes "wstep enc dec w e = Some w'" "\<not> is_start e"
  shows "call_id (callers w' t) = call_id (callers w t)" and "next_id w' = next_id w"
  using assms by (cases e; auto split: wstep_splits)+

lemma step_start:
  assumes "wstep enc dec w (EStart t cname props) = Some w'"
  shows "callers w t = CIdle"
    and "callers w' = (callers w)(t := CAssigned \<lparr>req_id = next_id w', req_component = cname, req_props = props\<rparr>)"
    and "next_id w' = next_id w + 1" and "chan w' = (chan w)(t := None)"
    and "pending w' = pending w" and "reader w' = reader w" and "done_closed w' = done_closed w"
  using assms by (auto simp: Let_def split: if_splits)

lemma is_startE:
  assumes "is_start e" obtains t cname props where "e = EStart t cname props"
  using assms by (cases e) auto

lemma step_ids:
  assumes "wstep enc dec w e = Some w'" "room w e" "inv_ids w"
  shows "inv_ids w'"
proof (cases "is_start e")
  case True
  then obtain t cname props where e: "e = EStart t cname props" by (rule is_startE)
  with assms(1,2) have n: "unat (next_id w') = unat (next_id w) + 1"
    by (simp add: room_def unat_next step_start(3) [OF assms(1) [unfolded e]])
  with assms(3) step_start(2) [OF assms(1) [unfolded e]] show ?thesis
    unfolding inv_ids_def by (auto intro: le_SucI)
next
  case False
  with step_frame [OF assms(1)] assms(3) show ?thesis by (simp add: inv_ids_def)
qed

lemma step_unique:
  assumes "wstep enc dec w e = Some w'" "room w e" "inv_ids w" "inv_unique w"
  shows "inv_unique w'"
proof (cases "is_start e")
  case True
  then obtain t cname props where e: "e = EStart t cname props" by (rule is_startE)
  with assms(1,2) have n: "unat (next_id w') = unat (next_id w) + 1"
    by (simp add: room_def unat_next step_start(3) [OF assms(1) [unfolded e]])
  have "call_id (callers w u) \<noteq> Some (next_id w')" for u
    using assms(3) n unfolding inv_ids_def by (metis Suc_eq_plus1 not_less_eq_eq le_refl)
  with assms(4) step_start(2) [OF assms(1) [unfolded e]] show ?thesis
    unfolding inv_unique_def by auto
next
  case False
  with step_frame [OF assms(1)] assms(4) show ?thesis by (simp add: inv_unique_def)
qed

lemma step_sending:
  assumes "wstep enc dec w e = Some w'" "inv_sending w" "inv_pending w"
  shows "inv_sending w'"
proof (cases "is_start e")
  case True
  then obtain t cname props where e: "e = EStart t cname props" by (rule is_startE)
  show ?thesis unfolding inv_sending_def
  proof (intro allI impI)
    fix u r assume "reader w' = RSending u r"
    then have "call_id (callers w u) = Some (resp_id r)"
      using assms(2) step_start(6) [OF assms(1) [unfolded e]] by (simp add: inv_sending_def)
    then show "call_id (callers w' u) = Some (resp_id r)"
      using step_start(1,2) [OF assms(1) [unfolded e]] by auto
  qed
next
  case False
  have "reader w' = RSending t r \<Longrightarrow> call_id (callers w t) = Some (resp_id r)" for t r
    using assms False
    by (cases e) (auto simp: inv_sending_def inv_pending_def live_call_id split: wstep_splits)
  with step_frame(1) [OF assms(1) False] show ?thesis by (simp add: inv_sending_def)
qed

lemma step_chan_source:
  assumes "wstep enc dec w e = Some w'" "chan w' t = Some r"
  shows "chan w t = Some r \<or> reader w = RSending t r \<or>
    (reader w = RDraining \<and> drained w' \<and> t \<in> snd ` set (pending w) \<and> (\<exists>cause. r = drain_response cause))"
  using assms by (cases e) (auto simp: Let_def drain_pending_def drained_def split: wstep_splits)

lemma step_drained: "wstep enc dec w e = Some w' \<Longrightarrow> drained w \<Longrightarrow> drained w'"
  by (cases e) (auto simp: Let_def drained_def split: wstep_splits)

lemma step_answers: "wstep enc dec w e = Some w' \<Longrightarrow> answers w i r \<Longrightarrow> answers w' i r"
  using step_drained by (auto simp: answers_def)

lemma pending_call_id:
  assumes "inv_pending w" "t \<in> snd ` set (pending w)"
  obtains i where "call_id (callers w t) = Some i"
proof -
  from assms(2) obtain i where "(i, t) \<in> set (pending w)" by force
  with assms(1) have "map_of (pending w) i = Some t"
    unfolding inv_pending_def by (metis map_of_is_SomeI)
  with assms(1) have "live_id (callers w t) = Some i"
    unfolding inv_pending_def by metis
  then show ?thesis using that live_call_id by blast
qed

lemma step_chan:
  assumes "wstep enc dec w e = Some w'" "inv_chan w" "inv_sending w" "inv_pending w"
  shows "inv_chan w'"
proof -
  have old: "\<exists>i. call_id (callers w t) = Some i \<and> answers w' i r" if "chan w' t = Some r" for t r
    using step_chan_source [OF assms(1) that]
  proof (elim disjE conjE exE)
    assume "chan w t = Some r"
    then show ?thesis using assms(2) step_answers [OF assms(1)] unfolding inv_chan_def by blast
  next
    assume "reader w = RSending t r"
    then show ?thesis using assms(3) by (simp add: inv_sending_def answers_def)
  next
    fix cause assume "drained w'" "t \<in> snd ` set (pending w)" "r = drain_response cause"
    with pending_call_id [OF assms(4)] show ?thesis by (metis answers_def)
  qed
  show ?thesis
  proof (cases "is_start e")
    case True
    then obtain t cname props where e: "e = EStart t cname props" by (rule is_startE)
    from old step_start [OF assms(1) [unfolded e]] show ?thesis
      unfolding inv_chan_def by (auto split: if_splits)
  next
    case False
    with old step_frame(1) [OF assms(1)] show ?thesis by (simp add: inv_chan_def)
  qed
qed

lemma step_result_source:
  assumes "wstep enc dec w e = Some w'" "result_of (callers w' t) = Some (Inr r)"
  shows "result_of (callers w t) = Some (Inr r) \<or> chan w t = Some r"
  using assms by (cases e) (auto simp: Let_def split: wstep_splits)

lemma step_results:
  assumes "wstep enc dec w e = Some w'" "inv_results w" "inv_chan w"
  shows "inv_results w'"
proof -
  have old: "\<exists>i. call_id (callers w t) = Some i \<and> answers w' i r"
    if "result_of (callers w' t) = Some (Inr r)" for t r
    using step_result_source [OF assms(1) that] assms(2,3) step_answers [OF assms(1)]
    unfolding inv_results_def inv_chan_def by blast
  show ?thesis
  proof (cases "is_start e")
    case True
    then obtain t cname props where e: "e = EStart t cname props" by (rule is_startE)
    from old step_start [OF assms(1) [unfolded e]] show ?thesis
      unfolding inv_results_def by (auto split: if_splits)
  next
    case False
    with old step_frame(1) [OF assms(1)] show ?thesis by (simp add: inv_results_def)
  qed
qed

lemma step_done:
  "wstep enc dec w e = Some w' \<Longrightarrow> inv_done w \<Longrightarrow> inv_done w'"
  by (cases e) (auto simp: inv_done_def Let_def split: wstep_splits)

text \<open>
  Registration: only \<open>ERegister\<close>, \<open>ELeave\<close> and \<open>EDrain\<close> touch \<open>pending\<close>, and only the
  first two change the ID under which a caller may be registered.
\<close>

fun touches_pending :: "'p wevent \<Rightarrow> bool" where
  "touches_pending (ERegister _) = True"
| "touches_pending (ELeave _) = True"
| "touches_pending EDrain = True"
| "touches_pending _ = False"

lemma step_pending_frame:
  assumes "wstep enc dec w e = Some w'" "\<not> touches_pending e"
  shows "pending w' = pending w" and "live_id (callers w' t) = live_id (callers w t)"
  using assms by (cases e; auto simp: Let_def split: wstep_splits)+

lemma step_register:
  assumes "wstep enc dec w (ERegister t) = Some w'"
  obtains req where "callers w t = CAssigned req"
    and "callers w' = (callers w)(t := CRegistered req)"
    and "pending w' = AList.update (req_id req) t (pending w)" and "reader w' = reader w"
  using assms by (auto split: caller.splits)

lemma step_leave:
  assumes "wstep enc dec w (ELeave t) = Some w'"
  obtains i res where "callers w t = CLeaving i res"
    and "callers w' = (callers w)(t := CReturned i res)"
    and "pending w' = AList.delete i (pending w)" and "reader w' = reader w"
  using assms by (auto split: caller.splits)

lemma touches_pendingE:
  assumes "touches_pending e"
  obtains t where "e = ERegister t" | t where "e = ELeave t" | "e = EDrain"
  using assms by (cases e) auto

lemma step_pending:
  assumes "wstep enc dec w e = Some w'" "inv_pending w"
  shows "inv_pending w'"
proof (cases "touches_pending e")
  case True
  then show ?thesis
  proof (cases rule: touches_pendingE)
    case (1 t)
    from assms(1) [unfolded 1] show ?thesis
    proof (rule step_register)
      fix req assume *: "callers w t = CAssigned req" "callers w' = (callers w)(t := CRegistered req)"
        "pending w' = AList.update (req_id req) t (pending w)"
      have "live_id (callers w' u) = Some j" if "map_of (pending w') j = Some u" for j u
      proof (cases "j = req_id req")
        case True
        with that * show ?thesis by (simp add: update_conv')
      next
        case False
        with that * have "map_of (pending w) j = Some u" by (simp add: update_conv')
        with assms(2) have "live_id (callers w u) = Some j" by (simp add: inv_pending_def)
        with * show ?thesis by auto
      qed
      with * assms(2) show ?thesis by (simp add: inv_pending_def distinct_update)
    qed
  next
    case (2 t)
    from assms(1) [unfolded 2] show ?thesis
    proof (rule step_leave)
      fix i res
      assume *: "callers w t = CLeaving i res" "callers w' = (callers w)(t := CReturned i res)"
        "pending w' = AList.delete i (pending w)"
      have "live_id (callers w' u) = Some j" if "map_of (pending w') j = Some u" for j u
      proof -
        from that * have "j \<noteq> i" "map_of (pending w) j = Some u"
          by (auto simp: delete_conv' split: if_splits)
        with assms(2) have "live_id (callers w u) = Some j" by (simp add: inv_pending_def)
        with \<open>j \<noteq> i\<close> * show ?thesis by auto
      qed
      with * assms(2) show ?thesis by (simp add: inv_pending_def distinct_delete)
    qed
  next
    case 3
    with assms show ?thesis by (auto simp: inv_pending_def split: if_splits)
  qed
next
  case False
  with step_pending_frame [OF assms(1)] assms(2) show ?thesis by (simp add: inv_pending_def)
qed

lemma step_registered:
  assumes step: "wstep enc dec w e = Some w'" and "inv_registered w" "inv_unique w"
  shows "inv_registered w'"
proof (cases "drained w")
  case True
  with step_drained [OF step] show ?thesis by (auto simp: inv_registered_def)
next
  case False
  with assms(2) have reg: "\<And>t i. live_id (callers w t) = Some i \<Longrightarrow> map_of (pending w) i = Some t"
    by (simp add: inv_registered_def)
  have uniq: "t = u" if "call_id (callers w t) = Some i" "live_id (callers w u) = Some i" for t u i
    using assms(3) that live_call_id unfolding inv_unique_def by metis
  show ?thesis
  proof (cases "touches_pending e")
    case True
    then show ?thesis
    proof (cases rule: touches_pendingE)
      case (1 t)
      from step [unfolded 1] show ?thesis
      proof (rule step_register)
        fix req assume *: "callers w t = CAssigned req" "callers w' = (callers w)(t := CRegistered req)"
          "pending w' = AList.update (req_id req) t (pending w)" "reader w' = reader w"
        have "map_of (pending w') i = Some u" if "live_id (callers w' u) = Some i" for u i
        proof (cases "u = t")
          case True
          with that * show ?thesis by (simp add: update_conv')
        next
          case False
          with that * have u: "live_id (callers w u) = Some i" by simp
          with uniq [of t "req_id req" u] False *(1) have "i \<noteq> req_id req" by auto
          with reg [OF u] * show ?thesis by (simp add: update_conv')
        qed
        then show ?thesis by (simp add: inv_registered_def)
      qed
    next
      case (2 t)
      from step [unfolded 2] show ?thesis
      proof (rule step_leave)
        fix i res assume *: "callers w t = CLeaving i res" "callers w' = (callers w)(t := CReturned i res)"
          "pending w' = AList.delete i (pending w)" "reader w' = reader w"
        have "map_of (pending w') j = Some u" if "live_id (callers w' u) = Some j" for u j
        proof -
          have "u \<noteq> t" using that *(2) by auto
          with that *(2) have u: "live_id (callers w u) = Some j" by simp
          with uniq [of t i u] \<open>u \<noteq> t\<close> *(1) have "j \<noteq> i" by auto
          with reg [OF u] *(3) show ?thesis by (simp add: delete_conv')
        qed
        then show ?thesis by (simp add: inv_registered_def)
      qed
    next
      case 3
      with step show ?thesis by (auto simp: inv_registered_def drained_def split: if_splits)
    qed
  next
    case False
    with step_pending_frame [OF step] reg show ?thesis by (simp add: inv_registered_def)
  qed
qed

theorem step_worker_inv:
  assumes "wstep enc dec w e = Some w'" "room w e" "worker_inv w"
  shows "worker_inv w'"
  using assms(3) step_ids [OF assms(1,2)] step_unique [OF assms(1,2)] step_pending [OF assms(1)]
    step_registered [OF assms(1)] step_chan [OF assms(1)] step_sending [OF assms(1)]
    step_results [OF assms(1)] step_done [OF assms(1)]
  unfolding worker_inv_def by simp

section \<open>Runs\<close>

definition starts :: "'p wevent list \<Rightarrow> nat" where
  "starts es = length (filter is_start es)"

lemma step_next_id:
  assumes "wstep enc dec w e = Some w'" "room w e"
  shows "unat (next_id w') = unat (next_id w) + (if is_start e then 1 else 0)"
proof (cases "is_start e")
  case True
  then obtain t cname props where e: "e = EStart t cname props" by (rule is_startE)
  with assms show ?thesis by (simp add: room_def unat_next step_start(3) [OF assms(1) [unfolded e]])
next
  case False
  with step_frame [OF assms(1)] show ?thesis by simp
qed

text \<open>A run that draws fewer than \<open>2^64\<close> IDs keeps the invariant.\<close>

lemma run_inv_from:
  assumes "wrun enc dec w es = Some w'" "worker_inv w" "unat (next_id w) + starts es < 2 ^ 64"
  shows "worker_inv w'"
  using assms
proof (induction es arbitrary: w)
  case (Cons e es)
  from Cons.prems(1) obtain v where v: "wstep enc dec w e = Some v" "wrun enc dec v es = Some w'"
    by (auto split: option.splits)
  have room: "room w e" using Cons.prems(3) by (auto simp: room_def starts_def)
  have "worker_inv v" using v(1) room Cons.prems(2) by (rule step_worker_inv)
  moreover have "unat (next_id v) + starts es < 2 ^ 64"
    using Cons.prems(3) step_next_id [OF v(1) room] by (auto simp: starts_def)
  ultimately show ?case using Cons.IH [OF v(2)] by blast
qed simp

lemma run_next_id_from:
  assumes "wrun enc dec w es = Some w'" "unat (next_id w) + starts es < 2 ^ 64"
  shows "unat (next_id w') = unat (next_id w) + starts es"
  using assms
proof (induction es arbitrary: w)
  case (Cons e es)
  from Cons.prems(1) obtain v where v: "wstep enc dec w e = Some v" "wrun enc dec v es = Some w'"
    by (auto split: option.splits)
  have room: "room w e" using Cons.prems(2) by (auto simp: room_def starts_def)
  from Cons.IH [OF v(2)] step_next_id [OF v(1) room] Cons.prems(2) show ?case
    by (auto simp: starts_def split: if_splits)
qed (simp add: starts_def)

lemma run_next_id:
  "wrun enc dec worker0 es = Some w \<Longrightarrow> starts es < 2 ^ 64 \<Longrightarrow> unat (next_id w) = starts es"
  using run_next_id_from [of enc dec worker0 es w] by (simp add: worker0_def)

lemma run_inv:
  assumes "wrun enc dec worker0 es = Some w" "starts es < 2 ^ 64"
  shows "worker_inv w"
  by (rule run_inv_from [OF assms(1) worker_inv_init]) (use assms(2) in \<open>simp add: worker0_def\<close>)

end
