(* ===== verification/Worker_Claims.thy ===== *)
theory Worker_Claims
  imports Worker_Safety
begin

text \<open>
  What a worker promises to the pool: correlation and authenticity of replies, no entry
  left behind in \<open>pending\<close>, termination of the reader once the output of Node has ended,
  the life of one undisturbed call, and the refinement of an abstract remote call.
\<close>

section \<open>Lines of a byte stream\<close>

definition is_line :: "string \<Rightarrow> bool" where
  "is_line l \<longleftrightarrow> (\<exists>b. newline \<notin> set b \<and> l = b @ [newline])"

lemma read_line_Some:
  "read_line s = Some (l, rest) \<Longrightarrow> s = l @ rest \<and> is_line l"
proof (induction s arbitrary: l)
  case (Cons c s)
  show ?case
  proof (cases "c = newline")
    case True
    with Cons.prems show ?thesis by (auto simp: is_line_def)
  next
    case False
    with Cons.prems obtain l' where l': "l = c # l'" "read_line s = Some (l', rest)" by auto
    from Cons.IH [OF l'(2)] obtain b where "newline \<notin> set b" "l' = b @ [newline]" "s = l' @ rest"
      by (auto simp: is_line_def)
    with False l'(1) have "newline \<notin> set (c # b)" "l = (c # b) @ [newline]" "c # s = l @ rest" by auto
    then show ?thesis unfolding is_line_def by blast
  qed
qed simp

lemma read_line_body: "newline \<notin> set b \<Longrightarrow> read_line (b @ newline # s) = Some (b @ [newline], s)"
  by (induction b) auto

lemma read_line_append: "is_line l \<Longrightarrow> read_line (l @ s) = Some (l, s)"
  by (auto simp: is_line_def read_line_body)

lemma read_line_None: "read_line s = None \<longleftrightarrow> newline \<notin> set s"
  by (induction s) auto

function lines_of :: "string \<Rightarrow> string list" where
  "lines_of s = (case read_line s of None \<Rightarrow> [] | Some (l, rest) \<Rightarrow> l # lines_of rest)"
  by pat_completeness auto
termination
  by (relation "measure length") (auto dest!: read_line_Some simp: is_line_def)

declare lines_of.simps [simp del]

lemma lines_of_Cons: "is_line l \<Longrightarrow> lines_of (l @ s) = l # lines_of s"
  by (subst lines_of.simps) (simp add: read_line_append)

lemma lines_of_concat: "\<forall>l \<in> set ls. is_line l \<Longrightarrow> lines_of (concat ls @ s) = ls @ lines_of s"
  by (induction ls) (simp_all add: lines_of_Cons)

section \<open>Where replies come from\<close>

fun node_output :: "'p wevent list \<Rightarrow> string" where
  "node_output [] = []"
| "node_output (ENode bs # es) = bs @ node_output es"
| "node_output (_ # es) = node_output es"

lemma node_output_append [simp]: "node_output (es @ fs) = node_output es @ node_output fs"
  by (induction es rule: node_output.induct) auto

text \<open>The responses the worker holds: at the reader, in a channel, or in a caller's result.\<close>

definition holds :: "'p worker \<Rightarrow> render_response \<Rightarrow> bool" where
  "holds w r \<longleftrightarrow> reader w = RGot r \<or> (\<exists>t. reader w = RSending t r) \<or> (\<exists>t. chan w t = Some r)
     \<or> (\<exists>t. result_of (callers w t) = Some (Inr r))"

lemma step_reader_source:
  assumes "wstep enc dec w e = Some w'"
  shows "reader w' = RGot r \<Longrightarrow> reader w = RGot r
      \<or> (e = ERead \<and> (\<exists>l rest. read_line (inbuf w) = Some (l, rest) \<and> dec l = Inr r))"
    and "reader w' = RSending t r \<Longrightarrow> reader w = RSending t r \<or> reader w = RGot r"
  using assms by (cases e; auto simp: Let_def split: wstep_splits)+

lemma step_holds:
  assumes "wstep enc dec w e = Some w'" "holds w' r"
  shows "holds w r \<or> (reader w = RDraining \<and> (\<exists>cause. r = drain_response cause))
    \<or> (e = ERead \<and> (\<exists>l rest. read_line (inbuf w) = Some (l, rest) \<and> dec l = Inr r))"
  using assms(2) step_reader_source [OF assms(1)] step_chan_source [OF assms(1)]
    step_result_source [OF assms(1)]
  unfolding holds_def by meson

definition reader_ended :: "'p worker \<Rightarrow> bool" where
  "reader_ended w \<longleftrightarrow> reader w \<in> {RDraining, RClosing, RExited}"

definition sourced :: "(string \<Rightarrow> render_response go) \<Rightarrow> string \<Rightarrow> 'p worker \<Rightarrow> bool" where
  "sourced dec out w \<longleftrightarrow> (reader_ended w \<longrightarrow> out_closed w \<noteq> None) \<and>
     (\<exists>ls rest. out = concat ls @ rest \<and> (\<forall>l \<in> set ls. is_line l) \<and>
        (reader_ended w \<or> rest = inbuf w) \<and>
        (\<forall>r. holds w r \<longrightarrow> (out_closed w \<noteq> None \<and> (\<exists>cause. r = drain_response cause))
                         \<or> (\<exists>l \<in> set ls. dec l = Inr r)))"

lemma step_out_closed:
  "wstep enc dec w e = Some w' \<Longrightarrow> out_closed w \<noteq> None \<Longrightarrow> out_closed w' = out_closed w"
  by (cases e) (auto simp: Let_def split: wstep_splits)

lemma step_reader_ended:
  assumes "wstep enc dec w e = Some w'"
  shows "reader_ended w \<Longrightarrow> reader_ended w'"
    and "reader_ended w' \<Longrightarrow> \<not> reader_ended w \<Longrightarrow> e = ERead \<and> out_closed w \<noteq> None"
  using assms by (cases e; auto simp: Let_def reader_ended_def split: wstep_splits)+

lemma step_inbuf:
  assumes "wstep enc dec w e = Some w'" "\<not> reader_ended w'"
  shows "inbuf w' = (case e of ENode bs \<Rightarrow> inbuf w @ bs
    | ERead \<Rightarrow> snd (the (read_line (inbuf w))) | _ \<Rightarrow> inbuf w)"
    and "e = ERead \<Longrightarrow> read_line (inbuf w) \<noteq> None"
  using assms by (cases e; auto simp: Let_def reader_ended_def split: wstep_splits)+

lemma sourced_init: "sourced dec [] worker0"
  by (auto simp: sourced_def reader_ended_def worker0_def holds_def intro!: exI [of _ "[]"])

lemma step_inbuf_other:
  assumes "wstep enc dec w e = Some w'" "\<And>bs. e \<noteq> ENode bs" "e \<noteq> ERead"
  shows "inbuf w' = inbuf w" and "node_output [e] = []"
  using assms by (cases e; auto simp: Let_def split: wstep_splits)+

lemma step_read:
  assumes "wstep enc dec w ERead = Some w'"
  obtains (line) l rest where "read_line (inbuf w) = Some (l, rest)" "inbuf w' = rest" "\<not> reader_ended w'"
    | (eof) "out_closed w \<noteq> None" "read_line (inbuf w) = None" "reader w' = RDraining"
  using assms by (auto simp: reader_ended_def split: if_splits option.splits prod.splits sum.splits)

text \<open>How the bytes read so far split into lines, before and after a step.\<close>

definition consumed :: "string \<Rightarrow> 'p worker \<Rightarrow> string list \<Rightarrow> bool" where
  "consumed out w ls \<longleftrightarrow> (\<forall>l \<in> set ls. is_line l) \<and>
     (\<exists>rest. out = concat ls @ rest \<and> (reader_ended w \<or> rest = inbuf w))"

lemma sourced_alt:
  "sourced dec out w \<longleftrightarrow> (reader_ended w \<longrightarrow> out_closed w \<noteq> None) \<and>
     (\<exists>ls. consumed out w ls \<and>
        (\<forall>r. holds w r \<longrightarrow> (out_closed w \<noteq> None \<and> (\<exists>cause. r = drain_response cause))
                         \<or> (\<exists>l \<in> set ls. dec l = Inr r)))"
  unfolding sourced_def consumed_def by blast

lemma step_consumed:
  assumes step: "wstep enc dec w e = Some w'" and "consumed out w ls"
    and closed: "reader_ended w \<Longrightarrow> out_closed w \<noteq> None"
  shows "\<exists>ms. consumed (out @ node_output [e]) w' (ls @ ms) \<and>
    (\<forall>l rest. e = ERead \<longrightarrow> read_line (inbuf w) = Some (l, rest) \<longrightarrow> l \<in> set ms)"
proof -
  from assms(2) obtain rest where c: "\<forall>l \<in> set ls. is_line l" "out = concat ls @ rest"
      "reader_ended w \<or> rest = inbuf w"
    unfolding consumed_def by blast
  consider (node) bs where "e = ENode bs" | (read) "e = ERead" | (other) "\<And>bs. e \<noteq> ENode bs" "e \<noteq> ERead"
    by blast
  then show ?thesis
  proof cases
    case node
    with step closed have "out_closed w = None" "inbuf w' = inbuf w @ bs" "\<not> reader_ended w"
      by (auto split: if_splits)
    with node c have "consumed (out @ node_output [e]) w' (ls @ [])"
      unfolding consumed_def by (auto intro!: exI [of _ "inbuf w @ bs"])
    with node show ?thesis by blast
  next
    case read
    from step have notended: "\<not> reader_ended w"
      unfolding read by (auto simp: reader_ended_def split: if_splits)
    from step [unfolded read] show ?thesis
    proof (cases rule: step_read)
      case (line l rest')
      from read_line_Some [OF line(1)] c notended line
      have "consumed (out @ node_output [e]) w' (ls @ [l])"
        unfolding consumed_def read by auto
      with line show ?thesis by (intro exI [of _ "[l]"]) auto
    next
      case eof
      with c have "consumed (out @ node_output [e]) w' (ls @ [])"
        unfolding consumed_def read reader_ended_def by auto
      with eof(2) show ?thesis by (intro exI [of _ "[]"]) auto
    qed
  next
    case other
    with step_inbuf_other [OF step] c step_reader_ended(1) [OF step]
    have "consumed (out @ node_output [e]) w' (ls @ [])"
      unfolding consumed_def by auto
    with other show ?thesis by blast
  qed
qed

lemma step_sourced:
  assumes step: "wstep enc dec w e = Some w'" and src: "sourced dec out w"
  shows "sourced dec (out @ node_output [e]) w'"
proof -
  from src have closed: "reader_ended w \<Longrightarrow> out_closed w \<noteq> None" by (simp add: sourced_alt)
  from src obtain ls where ls: "consumed out w ls"
      "\<And>r. holds w r \<Longrightarrow> (out_closed w \<noteq> None \<and> (\<exists>cause. r = drain_response cause))
        \<or> (\<exists>l \<in> set ls. dec l = Inr r)"
    unfolding sourced_alt by blast
  from step_consumed [OF step ls(1) closed] obtain ms where
    ms: "consumed (out @ node_output [e]) w' (ls @ ms)"
      "\<And>l rest. e = ERead \<Longrightarrow> read_line (inbuf w) = Some (l, rest) \<Longrightarrow> l \<in> set ms"
    by blast
  have kept: "out_closed w \<noteq> None \<Longrightarrow> out_closed w' \<noteq> None"
    using step_out_closed [OF step] by simp
  have "(out_closed w' \<noteq> None \<and> (\<exists>cause. r = drain_response cause))
      \<or> (\<exists>l \<in> set (ls @ ms). dec l = Inr r)" if "holds w' r" for r
    using step_holds [OF step that]
  proof (elim disjE conjE exE)
    assume "holds w r"
    with ls(2) [of r] kept show ?thesis by auto
  next
    fix cause assume "reader w = RDraining" "r = drain_response cause"
    with closed kept show ?thesis by (auto simp: reader_ended_def)
  next
    fix l rest assume "e = ERead" "read_line (inbuf w) = Some (l, rest)" "dec l = Inr r"
    with ms(2) show ?thesis by auto
  qed
  moreover have "reader_ended w' \<Longrightarrow> out_closed w' \<noteq> None"
    using step_reader_ended(2) [OF step] closed kept by blast
  ultimately show ?thesis using ms(1) unfolding sourced_alt by blast
qed

lemma run_sourced_from:
  "wrun enc dec w es = Some w' \<Longrightarrow> sourced dec out w \<Longrightarrow> sourced dec (out @ node_output es) w'"
proof (induction es arbitrary: w out)
  case (Cons e es)
  from Cons.prems(1) obtain v where v: "wstep enc dec w e = Some v" "wrun enc dec v es = Some w'"
    by (auto split: option.splits)
  from Cons.IH [OF v(2) step_sourced [OF v(1) Cons.prems(2)]]
    node_output_append [of "[e]" es] show ?case
    by simp
qed simp

lemma run_sourced: "wrun enc dec worker0 es = Some w \<Longrightarrow> sourced dec (node_output es) w"
  using run_sourced_from [OF _ sourced_init] by fastforce

lemma sourced_result:
  assumes "sourced dec out w" "result_of (callers w t) = Some (Inr r)"
  shows "(out_closed w \<noteq> None \<and> (\<exists>cause. r = drain_response cause))
    \<or> (\<exists>l \<in> set (lines_of out). dec l = Inr r)"
proof -
  from assms(2) have "holds w r" by (auto simp: holds_def)
  with assms(1) obtain ls where ls: "consumed out w ls"
      "(out_closed w \<noteq> None \<and> (\<exists>cause. r = drain_response cause)) \<or> (\<exists>l \<in> set ls. dec l = Inr r)"
    unfolding sourced_alt by blast
  from ls(1) have "set ls \<subseteq> set (lines_of out)"
    by (auto simp: consumed_def lines_of_concat)
  with ls(2) show ?thesis by blast
qed

section \<open>Correlation and authenticity\<close>

text \<open>
  A small codec on which runs can be evaluated: a request is sent as its ID digit, a
  response line starts with the digit of the ID it answers.
\<close>

definition demo_enc :: "'p render_request \<Rightarrow> string go" where
  "demo_enc r = Inr (show_nat (unat (req_id r)))"

definition demo_dec :: "string \<Rightarrow> render_response go" where
  "demo_dec l = (case l of
      c # d # rest \<Rightarrow> Inr \<lparr>resp_id = of_nat (of_char c - 48), resp_html = [d], resp_head = [], resp_error = []\<rparr>
    | _ \<Rightarrow> Inl (GErr ''bad line''))"

text \<open>Two callers; Node answers the second one first, and both replies reach their caller.\<close>

definition demo_swapped :: "unit wevent list" where
  "demo_swapped =
     [EStart 0 ''A'' (), EStart 1 ''B'' (), ERegister 1, ERegister 0, EWrite 0 None, EWrite 1 None,
      ENode (''2b'' @ [newline] @ ''1a'' @ [newline]), ERead, ELookup, ESend, ERead, ELookup, ESend,
      ERecv 0, ERecv 1, ELeave 0, ELeave 1]"

definition returned :: "'p worker option \<Rightarrow> nat \<Rightarrow> render_response go option" where
  "returned w t = (case w of None \<Rightarrow> None | Some w' \<Rightarrow> result_of (callers w' t))"

lemma demo_swapped_replies:
  "returned (wrun demo_enc demo_dec worker0 demo_swapped) 0 =
     Some (Inr \<lparr>resp_id = 1, resp_html = ''a'', resp_head = [], resp_error = []\<rparr>)"
  "returned (wrun demo_enc demo_dec worker0 demo_swapped) 1 =
     Some (Inr \<lparr>resp_id = 2, resp_html = ''b'', resp_head = [], resp_error = []\<rparr>)"
  by (simp_all add: demo_swapped_def worker0_def newline_def demo_dec_def demo_enc_def returned_def
      write_request_def set_caller_def Let_def show_nat.simps digit_def)

lemma demo_starts: "starts demo_swapped = 2"
  by (simp add: demo_swapped_def starts_def)

lemma run_result_source:
  assumes "wrun enc dec worker0 es = Some w" "starts es < 2 ^ 64"
    and "result_of (callers w t) = Some (Inr r)"
  shows "\<exists>i. call_id (callers w t) = Some i \<and>
    ((resp_id r = i \<and> (\<exists>l \<in> set (lines_of (node_output es)). dec l = Inr r))
     \<or> (out_closed w \<noteq> None \<and> (\<exists>cause. r = drain_response cause)))"
proof -
  from run_inv [OF assms(1,2)] have "inv_results w" by (simp add: worker_inv_def)
  with assms(3) obtain i where i: "call_id (callers w t) = Some i" "answers w i r"
    by (auto simp: inv_results_def)
  from run_sourced [OF assms(1)] have src: "sourced dec (node_output es) w" .
  then have "drained w \<Longrightarrow> out_closed w \<noteq> None"
    by (auto simp: sourced_alt drained_def reader_ended_def)
  with i sourced_result [OF src assms(3)] show ?thesis unfolding answers_def by blast
qed

text \<open>
  In every interleaving of callers, reader and Node, a caller of \<open>worker.render\<close> whose
  result is a response either got a response that carries its own request ID and was
  decoded from a complete line that Node wrote, or the error response that \<open>drainPending\<close>
  injects, and the latter only after the output of Node has ended.
\<close>

theorem reply_correlated:
  assumes "wrun enc dec worker0 es = Some w" and "starts es < 2 ^ 64"
    and "result_of (callers w t) = Some (Inr r)"
  shows "\<exists>i. call_id (callers w t) = Some i \<and>
    ((resp_id r = i \<and> (\<exists>l \<in> set (lines_of (node_output es)). dec l = Inr r))
     \<or> (out_closed w \<noteq> None \<and> (\<exists>cause. r = drain_response cause)))"
  using assms by (rule run_result_source)

theorem reply_correlated_witness:
  "\<exists>w r i. wrun demo_enc demo_dec worker0 demo_swapped = Some w \<and>
     result_of (callers w 0) = Some (Inr r) \<and> call_id (callers w 0) = Some i \<and> resp_html r = ''a'' \<and>
     ((resp_id r = i \<and> (\<exists>l \<in> set (lines_of (node_output demo_swapped)). demo_dec l = Inr r))
      \<or> (out_closed w \<noteq> None \<and> (\<exists>cause. r = drain_response cause)))"
proof -
  let ?r = "\<lparr>resp_id = 1, resp_html = ''a'', resp_head = [], resp_error = []\<rparr>"
  from demo_swapped_replies(1) obtain w where
    w: "wrun demo_enc demo_dec worker0 demo_swapped = Some w" "result_of (callers w 0) = Some (Inr ?r)"
    by (auto simp: returned_def split: option.splits)
  have "starts demo_swapped < 2 ^ 64" by (simp add: demo_starts)
  from reply_correlated [OF w(1) this w(2)] w show ?thesis by auto
qed

section \<open>No entry is left behind\<close>

lemma pending_live:
  assumes "worker_inv w" "(i, t) \<in> set (pending w)"
  shows "live_id (callers w t) = Some i"
  using assms unfolding worker_inv_def inv_pending_def by (metis map_of_is_SomeI)

text \<open>
  C19: request IDs in use are pairwise distinct, an entry of \<open>pending\<close> always belongs to a
  caller that is inside \<open>render\<close> with exactly that ID, and when every caller has returned
  the map is empty: no exit path leaks an entry.
\<close>

theorem pending_no_leak:
  assumes "wrun enc dec worker0 es = Some w" and "starts es < 2 ^ 64"
  shows "(\<forall>t u i. call_id (callers w t) = Some i \<longrightarrow> call_id (callers w u) = Some i \<longrightarrow> t = u) \<and>
    (\<forall>i t. (i, t) \<in> set (pending w) \<longrightarrow> live_id (callers w t) = Some i) \<and>
    ((\<forall>t. live_id (callers w t) = None) \<longrightarrow> pending w = [])"
proof (intro conjI)
  note inv = run_inv [OF assms]
  then show "\<forall>t u i. call_id (callers w t) = Some i \<longrightarrow> call_id (callers w u) = Some i \<longrightarrow> t = u"
    by (simp add: worker_inv_def inv_unique_def)
  show live: "\<forall>i t. (i, t) \<in> set (pending w) \<longrightarrow> live_id (callers w t) = Some i"
    using pending_live [OF inv] by blast
  show "(\<forall>t. live_id (callers w t) = None) \<longrightarrow> pending w = []"
  proof
    assume none: "\<forall>t. live_id (callers w t) = None"
    show "pending w = []"
    proof (cases "pending w")
      case (Cons p ps)
      then have "(fst p, snd p) \<in> set (pending w)" by simp
      with live none show ?thesis by fastforce
    qed simp
  qed
qed

theorem pending_no_leak_witness:
  "\<exists>w. wrun demo_enc demo_dec worker0 demo_swapped = Some w \<and> (\<forall>t. live_id (callers w t) = None) \<and>
     pending w = []"
proof -
  from demo_swapped_replies(1) obtain w where w: "wrun demo_enc demo_dec worker0 demo_swapped = Some w"
    by (auto simp: returned_def split: option.splits)
  then have "\<forall>t. live_id (callers w t) = None"
    by (auto simp: demo_swapped_def worker0_def newline_def demo_dec_def demo_enc_def
        write_request_def set_caller_def Let_def show_nat.simps digit_def)
  moreover have "starts demo_swapped < 2 ^ 64" by (simp add: demo_starts)
  ultimately show ?thesis using pending_no_leak [OF w] w by blast
qed

section \<open>The reader ends, and no caller waits for ever\<close>

fun is_reader :: "'p wevent \<Rightarrow> bool" where
  "is_reader ERead = True"
| "is_reader ELookup = True"
| "is_reader ESend = True"
| "is_reader EDrain = True"
| "is_reader EClose = True"
| "is_reader _ = False"

text \<open>The next event of the reader goroutine, and a bound on how many it has left.\<close>

fun reader_next :: "reader_pc \<Rightarrow> 'p wevent option" where
  "reader_next RReading = Some ERead"
| "reader_next (RGot _) = Some ELookup"
| "reader_next (RSending _ _) = Some ESend"
| "reader_next RDraining = Some EDrain"
| "reader_next RClosing = Some EClose"
| "reader_next RExited = None"

fun reader_phase :: "reader_pc \<Rightarrow> nat" where
  "reader_phase RReading = 3"
| "reader_phase (RGot _) = 5"
| "reader_phase (RSending _ _) = 4"
| "reader_phase RDraining = 2"
| "reader_phase RClosing = 1"
| "reader_phase RExited = 0"

definition reader_work :: "'p worker \<Rightarrow> nat" where
  "reader_work w = 3 * length (inbuf w) + reader_phase (reader w)"

lemma read_line_shorter: "read_line s = Some (l, rest) \<Longrightarrow> length rest < length s"
  using read_line_Some [of s l rest] by (auto simp: is_line_def)

lemma reader_step_work:
  assumes "wstep enc dec w e = Some w'" "is_reader e"
  shows "reader_work w' < reader_work w"
  using assms
  by (cases e) (auto simp: reader_work_def dest!: read_line_shorter split: wstep_splits)

lemma other_step_work:
  assumes "wstep enc dec w e = Some w'" "\<not> is_reader e" "out_closed w \<noteq> None"
  shows "reader_work w' = reader_work w"
  using assms by (cases e) (auto simp: reader_work_def Let_def split: wstep_splits)

lemma run_reader_bound:
  assumes "wrun enc dec w es = Some w'" "out_closed w \<noteq> None"
  shows "length (filter is_reader es) + reader_work w' \<le> reader_work w"
  using assms
proof (induction es arbitrary: w)
  case (Cons e es)
  from Cons.prems(1) obtain v where v: "wstep enc dec w e = Some v" "wrun enc dec v es = Some w'"
    by (auto split: option.splits)
  with step_out_closed [OF v(1)] Cons.prems(2)
  have "length (filter is_reader es) + reader_work w' \<le> reader_work v"
    by (intro Cons.IH) auto
  with reader_step_work [OF v(1)] other_step_work [OF v(1) _ Cons.prems(2)] show ?case by fastforce
qed simp

text \<open>The reader is never stuck: until it has exited, its next event is enabled.\<close>

lemma reader_enabled:
  assumes "out_closed w \<noteq> None" "reader_next (reader w) = Some e"
  shows "is_reader e \<and> (\<exists>w'. wstep enc dec w e = Some w' \<and> callers w' = callers w
    \<and> out_closed w' = out_closed w)"
  using assms by (cases "reader w") (auto split: option.splits prod.splits sum.splits)

lemma reader_finishes:
  assumes "out_closed w \<noteq> None"
  shows "\<exists>es w'. (\<forall>e \<in> set es. is_reader e) \<and> wrun enc dec w es = Some w' \<and> reader w' = RExited
    \<and> callers w' = callers w"
  using assms
proof (induction "reader_work w" arbitrary: w rule: less_induct)
  case less
  show ?case
  proof (cases "reader_next (reader w) :: 'a wevent option")
    case None
    then have "reader w = RExited" by (cases "reader w") auto
    then show ?thesis by (intro exI [of _ "[]"] exI [of _ w]) simp
  next
    case (Some e)
    from reader_enabled [OF less.prems Some] obtain v where
      v: "is_reader e" "wstep enc dec w e = Some v" "callers v = callers w" "out_closed v = out_closed w"
      by blast
    from reader_step_work [OF v(2,1)] less.hyps [of v] less.prems v(4) obtain es w' where
      "\<forall>e \<in> set es. is_reader e" "wrun enc dec v es = Some w'" "reader w' = RExited"
      "callers w' = callers v" by auto
    with v show ?thesis by (intro exI [of _ "e # es"] exI [of _ w']) simp
  qed
qed

lemma run_done: "wrun enc dec v es = Some w \<Longrightarrow> inv_done v \<Longrightarrow> inv_done w"
proof (induction es arbitrary: v)
  case (Cons e es)
  then obtain u where "wstep enc dec v e = Some u" "wrun enc dec u es = Some w"
    by (auto split: option.splits)
  with Cons show ?case using step_done by blast
qed simp

text \<open>
  C4: once the stdout of Node has ended, every run contains at most \<open>reader_work w\<close> more
  reader events whatever the other goroutines do, the reader can always go on until it has
  closed \<open>done\<close>, and from then on every caller still blocked in the \<open>select\<close> of
  \<open>worker.render\<close> can return: no caller is left waiting by a dead process.
\<close>

theorem dead_worker_unblocks:
  assumes "wrun enc dec worker0 es = Some w" and "out_closed w \<noteq> None"
  shows "(\<forall>fs w'. wrun enc dec w fs = Some w' \<longrightarrow> length (filter is_reader fs) \<le> reader_work w) \<and>
    (\<exists>fs w'. (\<forall>e \<in> set fs. is_reader e) \<and> wrun enc dec w fs = Some w' \<and> done_closed w' \<and>
       callers w' = callers w \<and>
       (\<forall>t i. callers w t = CWaiting i \<longrightarrow> (\<exists>v. wstep enc dec w' (ESeeDone t) = Some v \<and>
          result_of (callers v t) = Some (Inl (wrap_maybe ''revelt worker: process exited'' (read_err w'))))))"
proof (intro conjI allI impI)
  fix fs w' assume "wrun enc dec w fs = Some w'"
  from run_reader_bound [OF this assms(2)] show "length (filter is_reader fs) \<le> reader_work w" by simp
next
  obtain fs w' where fs: "\<forall>e \<in> set fs. is_reader e" "wrun enc dec w fs = Some w'" "reader w' = RExited"
    "callers w' = callers w"
    using reader_finishes [OF assms(2)] by blast
  have "wrun enc dec worker0 (es @ fs) = Some w'"
    using assms(1) fs(2) by (simp add: wrun_append)
  then have "inv_done w'" by (rule run_done) (simp add: inv_done_def worker0_def)
  with fs(3) have "done_closed w'" by (simp add: inv_done_def)
  with fs show "\<exists>fs w'. (\<forall>e \<in> set fs. is_reader e) \<and> wrun enc dec w fs = Some w' \<and> done_closed w' \<and>
       callers w' = callers w \<and>
       (\<forall>t i. callers w t = CWaiting i \<longrightarrow> (\<exists>v. wstep enc dec w' (ESeeDone t) = Some v \<and>
          result_of (callers v t) = Some (Inl (wrap_maybe ''revelt worker: process exited'' (read_err w')))))"
    by (intro exI [of _ fs] exI [of _ w']) auto
qed

definition demo_death :: "unit wevent list" where
  "demo_death = [EStart 0 ''A'' (), ERegister 0, EWrite 0 None, ENode ''half a li'', ENodeEnd None]"

theorem dead_worker_unblocks_witness:
  "\<exists>w fs w'. wrun demo_enc demo_dec worker0 demo_death = Some w \<and> callers w 0 = CWaiting 1 \<and>
     wrun demo_enc demo_dec w fs = Some w' \<and> done_closed w' \<and>
     (\<exists>v. wstep demo_enc demo_dec w' (ESeeDone 0) = Some v)"
proof -
  obtain w where w: "wrun demo_enc demo_dec worker0 demo_death = Some w" "out_closed w \<noteq> None"
    "callers w 0 = CWaiting 1"
    by (simp add: demo_death_def worker0_def demo_enc_def write_request_def set_caller_def Let_def)
  from dead_worker_unblocks [OF w(1,2)] w show ?thesis by blast
qed

section \<open>The life of one undisturbed call\<close>

lemma delete_update_fresh [simp]:
  "k \<notin> fst ` set al \<Longrightarrow> AList.delete k (AList.update k v al) = al"
  by (induction al) (auto simp: AList.delete_eq filter_id_conv)

text \<open>
  When the reader is waiting for input and Node answers the request of a new caller
  with one line that decodes to a response with the ID the caller drew, \<open>worker.render\<close>
  returns exactly that response, one line (the marshalled request and a newline) has been
  written to Node, and \<open>pending\<close> is as before.
\<close>

theorem call_returns_answer:
  assumes "callers w t = CIdle" "reader w = RReading" "inbuf w = []" "out_closed w = None"
    and "next_id w + 1 \<notin> fst ` set (pending w)"
    and "enc \<lparr>req_id = next_id w + 1, req_component = cname, req_props = props\<rparr> = Inr line"
    and "newline \<notin> set ans" and "dec (ans @ [newline]) = Inr r" and "resp_id r = next_id w + 1"
  shows "\<exists>w'. wrun enc dec w
      [EStart t cname props, ERegister t, EWrite t None, ENode (ans @ [newline]), ERead, ELookup, ESend,
       ERecv t, ELeave t] = Some w' \<and>
    callers w' t = CReturned (next_id w + 1) (Inr r) \<and> sent w' = sent w @ [line @ [newline]] \<and>
    pending w' = pending w \<and> reader w' = RReading \<and> inbuf w' = []"
  using assms by (simp add: Let_def write_request_def read_line_body update_conv')

lemma worker0_fields: "next_id worker0 = 0" "sent worker0 = []"
  by (simp_all add: worker0_def)

theorem call_returns_answer_witness:
  "\<exists>w'. wrun demo_enc demo_dec worker0
      [EStart 0 ''A'' (), ERegister 0, EWrite 0 None, ENode (''1a'' @ [newline]), ERead, ELookup, ESend,
       ERecv 0, ELeave 0] = Some w' \<and>
    callers w' 0 = CReturned 1 (Inr \<lparr>resp_id = 1, resp_html = ''a'', resp_head = [], resp_error = []\<rparr>) \<and>
    sent w' = [''1'' @ [newline]]"
proof -
  let ?r = "\<lparr>resp_id = 1, resp_html = ''a'', resp_head = [], resp_error = []\<rparr>"
  let ?w = "worker0 :: unit worker"
  have "\<exists>w'. wrun demo_enc demo_dec ?w
      [EStart 0 ''A'' (), ERegister 0, EWrite 0 None, ENode (''1a'' @ [newline]), ERead, ELookup, ESend,
       ERecv 0, ELeave 0] = Some w' \<and>
    callers w' 0 = CReturned (next_id ?w + 1) (Inr ?r) \<and>
    sent w' = sent ?w @ [''1'' @ [newline]] \<and>
    pending w' = pending ?w \<and> reader w' = RReading \<and> inbuf w' = []"
    by (rule call_returns_answer)
      (simp_all add: worker0_def newline_def demo_enc_def demo_dec_def show_nat.simps)
  then show ?thesis unfolding worker0_fields append_Nil add_0 by blast
qed

section \<open>Refinement of an abstract remote call\<close>

text \<open>
  What the rest of the program may think of a worker: each caller is unused, has an
  outstanding call under an ID nobody else has, or is finished with an error or with a
  response that answers its ID. Nothing is said about maps, channels or the reader.
\<close>

datatype rpc =
    Unused
  | Outstanding request_id
  | Finished request_id "render_response go"

fun rpc_id :: "rpc \<Rightarrow> request_id option" where
  "rpc_id Unused = None"
| "rpc_id (Outstanding i) = Some i"
| "rpc_id (Finished i _) = Some i"

inductive rpc_step :: "(nat \<Rightarrow> rpc) \<Rightarrow> (nat \<Rightarrow> rpc) \<Rightarrow> bool" where
  call: "s t = Unused \<Longrightarrow> \<forall>u. rpc_id (s u) \<noteq> Some i \<Longrightarrow> rpc_step s (s(t := Outstanding i))"
| fail: "s t = Outstanding i \<Longrightarrow> rpc_step s (s(t := Finished i (Inl e)))"
| reply: "s t = Outstanding i \<Longrightarrow> resp_id r = i \<or> (\<exists>cause. r = drain_response cause) \<Longrightarrow>
    rpc_step s (s(t := Finished i (Inr r)))"

inductive_cases rpc_stepE: "rpc_step s s'"

fun abs_caller :: "'p caller \<Rightarrow> rpc" where
  "abs_caller CIdle = Unused"
| "abs_caller (CAssigned req) = Outstanding (req_id req)"
| "abs_caller (CRegistered req) = Outstanding (req_id req)"
| "abs_caller (CWaiting i) = Outstanding i"
| "abs_caller (CLeaving i res) = Finished i res"
| "abs_caller (CReturned i res) = Finished i res"

definition abs_worker :: "'p worker \<Rightarrow> nat \<Rightarrow> rpc" where
  "abs_worker w = (\<lambda>t. abs_caller (callers w t))"

lemma rpc_id_abs [simp]: "rpc_id (abs_caller c) = call_id c"
  by (cases c) auto

lemma abs_worker_upd:
  "callers w' = (callers w)(t := c) \<Longrightarrow> abs_worker w' = (abs_worker w)(t := abs_caller c)"
  by (auto simp: abs_worker_def)

lemma abs_worker_same: "callers w' = callers w \<Longrightarrow> abs_worker w' = abs_worker w"
  by (simp add: abs_worker_def)

lemma abs_worker_stutter:
  "callers w' = (callers w)(t := c) \<Longrightarrow> abs_caller c = abs_caller (callers w t) \<Longrightarrow>
   abs_worker w' = abs_worker w"
  by (auto simp: abs_worker_def)

text \<open>The next ID is fresh as long as the counter has not wrapped.\<close>

lemma next_id_fresh:
  assumes "inv_ids w" "unat (next_id w) + 1 < 2 ^ 64"
  shows "call_id (callers w u) \<noteq> Some (next_id w + 1)"
  using assms unat_next [OF assms(2)] unfolding inv_ids_def
  by (metis Suc_eq_plus1 not_less_eq_eq le_refl)

lemma step_refines:
  assumes step: "wstep enc dec w e = Some w'" and room: "room w e" and inv: "worker_inv w"
  shows "abs_worker w' = abs_worker w \<or> rpc_step (abs_worker w) (abs_worker w')"
proof (cases e)
  case (EStart t cname props)
  note st = step_start [OF step [unfolded EStart]]
  from room EStart have "unat (next_id w) + 1 < 2 ^ 64" by (simp add: room_def)
  with inv have "\<forall>u. rpc_id (abs_worker w u) \<noteq> Some (next_id w')"
    using next_id_fresh [of w] st(3) by (simp add: worker_inv_def abs_worker_def)
  with st(1) have "rpc_step (abs_worker w) ((abs_worker w)(t := Outstanding (next_id w')))"
    by (intro rpc_step.call) (simp_all add: abs_worker_def)
  with abs_worker_upd [OF st(2)] show ?thesis by simp
next
  case (ERegister t)
  from step [unfolded ERegister] show ?thesis
    by (rule step_register) (simp add: abs_worker_stutter)
next
  case (EWrite t io)
  then obtain req where req: "callers w t = CRegistered req"
    using step by (auto split: caller.splits)
  show ?thesis
  proof (cases "write_request enc req io")
    case (Inl err)
    with step EWrite req have w': "callers w' = (callers w)(t := CLeaving (req_id req) (Inl err))" by auto
    have "rpc_step (abs_worker w) ((abs_worker w)(t := Finished (req_id req) (Inl err)))"
      using req by (intro rpc_step.fail) (simp add: abs_worker_def)
    with abs_worker_upd [OF w'] show ?thesis by simp
  next
    case (Inr line)
    with step EWrite req have "callers w' = (callers w)(t := CWaiting (req_id req))" by auto
    with req show ?thesis by (simp add: abs_worker_stutter)
  qed
next
  case (ERecv t)
  then obtain i r where ir: "callers w t = CWaiting i" "chan w t = Some r"
      "callers w' = (callers w)(t := CLeaving i (Inr r))"
    using step by (auto split: caller.splits option.splits)
  with inv have "resp_id r = i \<or> (\<exists>cause. r = drain_response cause)"
    by (fastforce simp: worker_inv_def inv_chan_def answers_def)
  with ir(1) have "rpc_step (abs_worker w) ((abs_worker w)(t := Finished i (Inr r)))"
    by (intro rpc_step.reply) (simp_all add: abs_worker_def)
  with abs_worker_upd [OF ir(3)] show ?thesis by simp
next
  case (ESeeDone t)
  then obtain i err where ir: "callers w t = CWaiting i" "callers w' = (callers w)(t := CLeaving i (Inl err))"
    using step by (auto split: caller.splits if_splits)
  then have "rpc_step (abs_worker w) ((abs_worker w)(t := Finished i (Inl err)))"
    by (intro rpc_step.fail) (simp add: abs_worker_def)
  with abs_worker_upd [OF ir(2)] show ?thesis by simp
next
  case (ECancel t c)
  then obtain i err where ir: "callers w t = CWaiting i" "callers w' = (callers w)(t := CLeaving i (Inl err))"
    using step by (auto split: caller.splits if_splits)
  then have "rpc_step (abs_worker w) ((abs_worker w)(t := Finished i (Inl err)))"
    by (intro rpc_step.fail) (simp add: abs_worker_def)
  with abs_worker_upd [OF ir(2)] show ?thesis by simp
next
  case (ELeave t)
  from step [unfolded ELeave] show ?thesis
    by (rule step_leave) (simp add: abs_worker_stutter)
qed (use step in \<open>auto intro!: abs_worker_same split: wstep_splits\<close>)

text \<open>
  C5: the worker refines the abstract remote call: in every state a run of fewer than
  \<open>2^64\<close> calls can reach, each step of the goroutines is invisible to the callers or is one
  step of the abstract machine (a call under a fresh ID, a failure, or a reply that answers
  the ID of the call).
\<close>

theorem worker_refines_rpc:
  assumes "wrun enc dec worker0 es = Some w" "starts (es @ [e]) < 2 ^ 64"
    and "wstep enc dec w e = Some w'"
  shows "abs_worker w' = abs_worker w \<or> rpc_step (abs_worker w) (abs_worker w')"
proof (rule step_refines [OF assms(3)])
  have n: "starts es < 2 ^ 64" using assms(2) by (simp add: starts_def)
  show "worker_inv w" using assms(1) n by (rule run_inv)
  have "unat (next_id w) = starts es"
    using run_next_id [OF assms(1) n] by simp
  with assms(2) show "room w e" by (auto simp: room_def starts_def)
qed

theorem worker_refines_rpc_witness:
  "\<exists>w'. wrun demo_enc demo_dec worker0 (demo_swapped @ [EStart 7 ''C'' ()]) = Some w' \<and>
     abs_worker w' 7 = Outstanding 3 \<and>
     (\<exists>w. wrun demo_enc demo_dec worker0 demo_swapped = Some w \<and>
        (abs_worker w' = abs_worker w \<or> rpc_step (abs_worker w) (abs_worker w')))"
proof -
  from demo_swapped_replies(1) obtain w where w: "wrun demo_enc demo_dec worker0 demo_swapped = Some w"
    by (auto simp: returned_def split: option.splits)
  have n: "starts (demo_swapped @ [EStart 7 ''C'' ()]) < 2 ^ 64"
    by (simp add: starts_def demo_swapped_def)
  have idle: "callers w 7 = CIdle" and id: "next_id w = 2"
    using w by (auto simp: demo_swapped_def worker0_def newline_def demo_dec_def demo_enc_def
        write_request_def set_caller_def Let_def show_nat.simps digit_def)
  then obtain w' where w': "wstep demo_enc demo_dec w (EStart 7 ''C'' ()) = Some w'"
      "abs_worker w' 7 = Outstanding 3"
    by (auto simp: Let_def abs_worker_def)
  from worker_refines_rpc [OF w n w'(1)] w w' show ?thesis by (simp add: wrun_append)
qed

end
