(* ===== verification/Utf8.thy ===== *)
theory Utf8
  imports Prelude
begin

text \<open>
  Go's view of a string as UTF-8: \<open>range_runes s\<close> is the sequence of code points that
  \<open>for _, r := range s\<close> visits (an ill-formed byte gives U+FFFD and is skipped alone),
  \<open>write_rune r\<close> the bytes that \<open>bytes.Buffer.WriteRune\<close> appends. The main lemma is
  the round trip \<open>range_runes_write\<close>: reading what was written gives the code points back.
\<close>

type_synonym rune = nat

definition rune_error :: rune where
  "rune_error = 0xFFFD"

definition valid_rune :: "rune \<Rightarrow> bool" where
  "valid_rune r \<longleftrightarrow> r < 0xD800 \<or> (0xE000 \<le> r \<and> r \<le> 0x10FFFF)"

definition write_rune_raw :: "rune \<Rightarrow> nat list" where
  "write_rune_raw r =
     (if r < 0x80 then [r]
      else if r < 0x800 then [0xC0 + r div 64, 0x80 + r mod 64]
      else if r < 0x10000 then [0xE0 + r div 4096, 0x80 + r div 64 mod 64, 0x80 + r mod 64]
      else [0xF0 + r div 262144, 0x80 + r div 4096 mod 64, 0x80 + r div 64 mod 64, 0x80 + r mod 64])"

definition write_rune :: "rune \<Rightarrow> string" where
  "write_rune r = bytes (write_rune_raw (if valid_rune r then r else rune_error))"

definition cont :: "nat \<Rightarrow> bool" where
  "cont b \<longleftrightarrow> 0x80 \<le> b \<and> b < 0xC0"

text \<open>
  \<open>utf8.DecodeRune\<close> on a non-empty byte list: the code point and how many bytes it takes.
  The ranges of the second byte after E0, ED, F0 and F4 exclude overlong forms, surrogates
  and values past U+10FFFF.
\<close>

fun decode_rune :: "nat list \<Rightarrow> rune \<times> nat" where
  "decode_rune [] = (rune_error, 0)"
| "decode_rune (b0 # bs) =
     (if b0 < 0x80 then (b0, 1)
      else if 0xC2 \<le> b0 \<and> b0 < 0xE0 then
        (case bs of
           b1 # _ \<Rightarrow> (if cont b1 then ((b0 - 0xC0) * 64 + (b1 - 0x80), 2) else (rune_error, 1))
         | [] \<Rightarrow> (rune_error, 1))
      else if 0xE0 \<le> b0 \<and> b0 < 0xF0 then
        (case bs of
           b1 # b2 # _ \<Rightarrow>
             (if cont b1 \<and> (b0 = 0xE0 \<longrightarrow> 0xA0 \<le> b1) \<and> (b0 = 0xED \<longrightarrow> b1 < 0xA0) \<and> cont b2
              then ((b0 - 0xE0) * 4096 + (b1 - 0x80) * 64 + (b2 - 0x80), 3)
              else (rune_error, 1))
         | _ \<Rightarrow> (rune_error, 1))
      else if 0xF0 \<le> b0 \<and> b0 < 0xF5 then
        (case bs of
           b1 # b2 # b3 # _ \<Rightarrow>
             (if cont b1 \<and> (b0 = 0xF0 \<longrightarrow> 0x90 \<le> b1) \<and> (b0 = 0xF4 \<longrightarrow> b1 < 0x90)
                 \<and> cont b2 \<and> cont b3
              then ((b0 - 0xF0) * 262144 + (b1 - 0x80) * 4096 + (b2 - 0x80) * 64 + (b3 - 0x80), 4)
              else (rune_error, 1))
         | _ \<Rightarrow> (rune_error, 1))
      else (rune_error, 1))"

lemma decode_rune_width: "bs \<noteq> [] \<Longrightarrow> 0 < snd (decode_rune bs)"
  by (cases bs) (auto split: list.splits)

function runes_of :: "nat list \<Rightarrow> rune list" where
  "runes_of bs =
     (if bs = [] then [] else fst (decode_rune bs) # runes_of (drop (snd (decode_rune bs)) bs))"
  by pat_completeness auto
termination
  by (relation "measure length") (auto simp: decode_rune_width)

declare runes_of.simps [simp del]

definition range_runes :: "string \<Rightarrow> rune list" where
  "range_runes s = runes_of (map of_char s)"

definition write_runes :: "rune list \<Rightarrow> string" where
  "write_runes rs = concat (map write_rune rs)"

lemma runes_of_Nil [simp]: "runes_of [] = []"
  by (simp add: runes_of.simps)

lemma range_runes_Nil [simp]: "range_runes [] = []"
  by (simp add: range_runes_def)

section \<open>Writing a code point and reading it back\<close>

lemma write_rune_raw_bytes: "r \<le> 0x10FFFF \<Longrightarrow> b \<in> set (write_rune_raw r) \<Longrightarrow> b < 256"
  by (auto simp: write_rune_raw_def split: if_splits)

lemma of_char_write_rune:
  assumes "valid_rune r"
  shows "map of_char (write_rune r) = write_rune_raw r"
proof -
  have "\<forall>b \<in> set (write_rune_raw r). b mod 256 = b"
    using assms write_rune_raw_bytes [of r] by (auto simp: valid_rune_def)
  with assms show ?thesis
    by (simp add: write_rune_def bytes_def map_idI)
qed

lemma div_mod_3: "r = r div 4096 * 4096 + r div 64 mod 64 * 64 + r mod 64" for r :: nat
proof -
  have "r div 64 = r div 64 div 64 * 64 + r div 64 mod 64" by simp
  moreover have "r = r div 64 * 64 + r mod 64" by simp
  moreover have "r div 64 div 64 = r div 4096" by (simp add: div_mult2_eq [symmetric])
  ultimately show ?thesis by linarith
qed

lemma div_mod_4:
  "r = r div 262144 * 262144 + r div 4096 mod 64 * 4096 + r div 64 mod 64 * 64 + r mod 64"
  for r :: nat
proof -
  have "r div 4096 = r div 4096 div 64 * 64 + r div 4096 mod 64" by simp
  moreover have "r div 4096 div 64 = r div 262144" by (simp add: div_mult2_eq [symmetric])
  ultimately show ?thesis using div_mod_3 [of r] by linarith
qed

lemma decode_two:
  assumes "0x80 \<le> r" "r < 0x800"
  shows "decode_rune (write_rune_raw r @ bs) = (r, 2)"
proof -
  have "2 \<le> r div 64" "r div 64 < 32" using assms by auto
  with assms show ?thesis by (simp add: write_rune_raw_def cont_def)
qed

lemma decode_three:
  assumes "0x800 \<le> r" "r < 0x10000" "valid_rune r"
  shows "decode_rune (write_rune_raw r @ bs) = (r, 3)"
proof -
  define a b c where abc: "a = r div 4096" "b = r div 64 mod 64" "c = r mod 64"
  have r: "r = a * 4096 + b * 64 + c" unfolding abc by (rule div_mod_3)
  have bc: "b < 64" "c < 64" by (simp_all add: abc)
  have a: "a < 16" using assms(2) unfolding abc by auto
  have "write_rune_raw r = [0xE0 + a, 0x80 + b, 0x80 + c]"
    using assms by (simp add: write_rune_raw_def abc)
  moreover have "a = 0 \<Longrightarrow> 32 \<le> b" using assms(1) r bc by linarith
  moreover have "a = 13 \<Longrightarrow> b < 32" using assms(3) r bc by (auto simp: valid_rune_def)
  ultimately show ?thesis using a bc r by (auto simp: cont_def)
qed

lemma decode_four:
  assumes "0x10000 \<le> r" "r \<le> 0x10FFFF"
  shows "decode_rune (write_rune_raw r @ bs) = (r, 4)"
proof -
  define a b c d where abcd:
    "a = r div 262144" "b = r div 4096 mod 64" "c = r div 64 mod 64" "d = r mod 64"
  have r: "r = a * 262144 + b * 4096 + c * 64 + d" unfolding abcd by (rule div_mod_4)
  have bcd: "b < 64" "c < 64" "d < 64" by (simp_all add: abcd)
  have a: "a < 5" using assms(2) unfolding abcd by auto
  have "write_rune_raw r = [0xF0 + a, 0x80 + b, 0x80 + c, 0x80 + d]"
    using assms by (simp add: write_rune_raw_def abcd)
  moreover have "a = 0 \<Longrightarrow> 16 \<le> b" using assms(1) r bcd by linarith
  moreover have "a = 4 \<Longrightarrow> b < 16" using assms(2) r bcd by linarith
  ultimately show ?thesis using a bcd r by (auto simp: cont_def)
qed

lemma length_write_rune_raw:
  "length (write_rune_raw r) =
     (if r < 0x80 then 1 else if r < 0x800 then 2 else if r < 0x10000 then 3 else 4)"
  by (simp add: write_rune_raw_def)

lemma decode_write_raw:
  assumes "valid_rune r"
  shows "decode_rune (write_rune_raw r @ bs) = (r, length (write_rune_raw r))"
proof -
  consider "r < 0x80" | "0x80 \<le> r" "r < 0x800" | "0x800 \<le> r" "r < 0x10000" | "0x10000 \<le> r"
    by linarith
  then show ?thesis
  proof cases
    case 1
    then show ?thesis by (simp add: write_rune_raw_def)
  next
    case 2
    then show ?thesis by (simp add: decode_two length_write_rune_raw)
  next
    case 3
    with assms show ?thesis by (simp add: decode_three length_write_rune_raw)
  next
    case 4
    with assms show ?thesis by (simp add: decode_four length_write_rune_raw valid_rune_def)
  qed
qed

lemma runes_of_write:
  assumes "valid_rune r"
  shows "runes_of (write_rune_raw r @ bs) = r # runes_of bs"
proof -
  have "write_rune_raw r \<noteq> []" by (simp add: write_rune_raw_def)
  with decode_write_raw [OF assms, of bs] show ?thesis
    by (subst runes_of.simps) simp
qed

lemma range_runes_write_rune [go_str]:
  "valid_rune r \<Longrightarrow> range_runes (write_rune r @ s) = r # range_runes s"
  by (simp add: range_runes_def of_char_write_rune runes_of_write)

lemma range_runes_write:
  "\<forall>r \<in> set rs. valid_rune r \<Longrightarrow> range_runes (write_runes rs) = rs"
  by (induction rs) (simp_all add: write_runes_def range_runes_write_rune)

text \<open>Every code point visited is one that \<open>WriteRune\<close> writes unchanged.\<close>

lemma valid_three:
  assumes "a < 16" "b < 64" "c < 64" "a = 13 \<Longrightarrow> b < 32"
  shows "valid_rune (a * 4096 + b * 64 + c)"
proof -
  consider "a \<le> 12" | "a = 13" | "14 \<le> a" by linarith
  then show ?thesis
  proof cases
    case 1
    with assms(2,3) have "a * 4096 + b * 64 + c < 0xD800" by linarith
    then show ?thesis by (simp add: valid_rune_def)
  next
    case 2
    with assms have "a * 4096 + b * 64 + c < 0xD800" by linarith
    then show ?thesis by (simp add: valid_rune_def)
  next
    case 3
    with assms(1-3) have "0xE000 \<le> a * 4096 + b * 64 + c" "a * 4096 + b * 64 + c \<le> 0x10FFFF"
      by linarith+
    then show ?thesis by (simp add: valid_rune_def)
  qed
qed

lemma valid_four:
  assumes "a < 5" "b < 64" "c < 64" "d < 64" "a = 0 \<Longrightarrow> 16 \<le> b" "a = 4 \<Longrightarrow> b < 16"
  shows "valid_rune (a * 262144 + b * 4096 + c * 64 + d)"
proof -
  have "0xE000 \<le> a * 262144 + b * 4096 + c * 64 + d"
    using assms(5) by (cases "a = 0") auto
  moreover have "a * 262144 + b * 4096 + c * 64 + d \<le> 0x10FFFF"
    using assms by (cases "a = 4") auto
  ultimately show ?thesis by (simp add: valid_rune_def)
qed

lemma valid_rune_error: "valid_rune rune_error"
  by (simp add: valid_rune_def rune_error_def)

lemma valid_two: "a < 32 \<Longrightarrow> b < 64 \<Longrightarrow> valid_rune (a * 64 + b)"
  by (simp add: valid_rune_def)

lemma cont_off: "cont b \<Longrightarrow> b - 0x80 < 64"
  unfolding cont_def by arith

lemma decode_valid_two:
  "0xC2 \<le> b0 \<Longrightarrow> b0 < 0xE0 \<Longrightarrow> valid_rune (fst (decode_rune (b0 # bs)))"
  by (auto simp: valid_rune_error cont_off split: list.splits intro!: valid_two)

lemma decode_valid_three:
  "0xE0 \<le> b0 \<Longrightarrow> b0 < 0xF0 \<Longrightarrow> valid_rune (fst (decode_rune (b0 # bs)))"
  by (auto simp: valid_rune_error cont_off split: list.splits intro!: valid_three)

lemma decode_valid_four:
  "0xF0 \<le> b0 \<Longrightarrow> b0 < 0xF5 \<Longrightarrow> valid_rune (fst (decode_rune (b0 # bs)))"
  by (auto simp: valid_rune_error cont_off split: list.splits intro!: valid_four)

lemma decode_valid: "bs \<noteq> [] \<Longrightarrow> valid_rune (fst (decode_rune bs))"
proof (cases bs)
  case (Cons b0 t)
  consider "b0 < 0x80" | "0x80 \<le> b0" "b0 < 0xC2" | "0xC2 \<le> b0" "b0 < 0xE0"
    | "0xE0 \<le> b0" "b0 < 0xF0" | "0xF0 \<le> b0" "b0 < 0xF5" | "0xF5 \<le> b0"
    by linarith
  then show ?thesis unfolding Cons
    by cases (simp_all only: decode_valid_two decode_valid_three decode_valid_four,
              simp_all add: valid_rune_error, simp add: valid_rune_def)
qed simp

lemma runes_of_valid: "r \<in> set (runes_of bs) \<Longrightarrow> valid_rune r"
proof (induction bs rule: runes_of.induct)
  case (1 bs)
  show ?case
  proof (cases "bs = []")
    case True
    with "1.prems" show ?thesis by simp
  next
    case False
    then have eq: "runes_of bs = fst (decode_rune bs) # runes_of (drop (snd (decode_rune bs)) bs)"
      by (subst runes_of.simps) simp
    have "r = fst (decode_rune bs) \<or> r \<in> set (runes_of (drop (snd (decode_rune bs)) bs))"
      using "1.prems" unfolding eq by simp
    with "1.IH" [OF False] decode_valid [OF False] show ?thesis by metis
  qed
qed

lemma range_runes_valid: "r \<in> set (range_runes s) \<Longrightarrow> valid_rune r"
  by (simp add: range_runes_def runes_of_valid)

text \<open>A string is well-formed UTF-8 when it is what writing some valid code points gives.\<close>

definition valid_utf8 :: "string \<Rightarrow> bool" where
  "valid_utf8 s \<longleftrightarrow> write_runes (range_runes s) = s"

lemma valid_utf8_write: "\<forall>r \<in> set rs. valid_rune r \<Longrightarrow> valid_utf8 (write_runes rs)"
  by (simp add: valid_utf8_def range_runes_write)

text \<open>ASCII characters are one-byte code points; a larger code point has no ASCII byte.\<close>

definition is_ascii :: "char \<Rightarrow> bool" where
  "is_ascii c \<longleftrightarrow> (of_char c :: nat) < 128"

lemma write_rune_ascii: "r < 128 \<Longrightarrow> write_rune r = [char_of r]"
  by (simp add: write_rune_def write_rune_raw_def valid_rune_def bytes_def)

lemma write_rune_raw_high: "128 \<le> r \<Longrightarrow> b \<in> set (write_rune_raw r) \<Longrightarrow> 128 \<le> b"
  by (auto simp: write_rune_raw_def split: if_splits)

lemma write_rune_high:
  assumes "128 \<le> r" and "c \<in> set (write_rune r)"
  shows "\<not> is_ascii c"
proof -
  let ?r = "if valid_rune r then r else rune_error"
  have r: "128 \<le> ?r" "?r \<le> 0x10FFFF"
    using assms(1) by (auto simp: rune_error_def valid_rune_def)
  from assms(2) obtain b where b: "b \<in> set (write_rune_raw ?r)" "c = char_of b"
    by (auto simp: write_rune_def bytes_def)
  from write_rune_raw_high [OF r(1) b(1)] write_rune_raw_bytes [OF r(2) b(1)] b(2)
  show ?thesis by (simp add: is_ascii_def)
qed

lemma range_runes_ascii_Cons:
  "is_ascii c \<Longrightarrow> range_runes (c # s) = of_char c # range_runes s"
  unfolding range_runes_def is_ascii_def list.map
  by (subst runes_of.simps) simp


section \<open>The verb q of fmt\<close>

text \<open>
  \<open>strconv.Quote\<close>. Which code points from 128 on are printable (\<open>unicode.IsPrint\<close>) is
  the argument \<open>ip\<close>.
\<close>

definition lower_hex :: "nat \<Rightarrow> char" where
  "lower_hex d = (if d < 10 then char_of (48 + d) else char_of (87 + d))"

fun hex_pad :: "nat \<Rightarrow> nat \<Rightarrow> string" where
  "hex_pad 0 v = []"
| "hex_pad (Suc n) v = hex_pad n (v div 16) @ [lower_hex (v mod 16)]"

definition quote_rune :: "(rune \<Rightarrow> bool) \<Rightarrow> rune \<Rightarrow> string" where
  "quote_rune ip r =
     (if r = 0x22 \<or> r = 0x5C then [CHR 0x5C, char_of r]
      else if (0x20 \<le> r \<and> r < 0x7F) \<or> (0x80 \<le> r \<and> ip r) then write_rune r
      else if r = 7 then CHR 0x5C # ''a'' else if r = 8 then CHR 0x5C # ''b''
      else if r = 12 then CHR 0x5C # ''f'' else if r = 10 then CHR 0x5C # ''n''
      else if r = 13 then CHR 0x5C # ''r'' else if r = 9 then CHR 0x5C # ''t''
      else if r = 11 then CHR 0x5C # ''v''
      else if r < 0x20 \<or> r = 0x7F then CHR 0x5C # CHR ''x'' # hex_pad 2 r
      else if r < 0x10000 then CHR 0x5C # CHR ''u'' # hex_pad 4 r
      else CHR 0x5C # CHR ''U'' # hex_pad 8 r)"

function quote_bytes :: "(rune \<Rightarrow> bool) \<Rightarrow> nat list \<Rightarrow> string" where
  "quote_bytes ip bs =
     (if bs = [] then []
      else (if decode_rune bs = (rune_error, 1)
            then CHR 0x5C # CHR ''x'' # hex_pad 2 (hd bs)
            else quote_rune ip (fst (decode_rune bs)))
           @ quote_bytes ip (drop (snd (decode_rune bs)) bs))"
  by pat_completeness auto
termination
  by (relation "measure (length \<circ> snd)") (auto simp: decode_rune_width)

declare quote_bytes.simps [simp del]

definition go_quote :: "(rune \<Rightarrow> bool) \<Rightarrow> string \<Rightarrow> string" where
  "go_quote ip s = [CHR 0x22] @ quote_bytes ip (map of_char s) @ [CHR 0x22]"

end
