(* ===== verification/Json.thy ===== *)
theory Json
  imports Utf8 "HOL-Library.Char_ord" "HOL-Library.List_Lexorder"
begin

text \<open>
  \<open>encoding/json.Marshal\<close> on the values the program marshals: the request envelope of
  \<open>protocol/wire.go\<close>, component properties, and the maps of strings of the error and health
  bodies. The encoder escapes HTML characters and control characters, writes an ill-formed
  byte as U+FFFD and sorts the keys of a map; a value of a kind it does not know is an error.
  The lemma the clients use is \<open>marshal_safe\<close>: a marshalled value has no control character,
  so no newline, and none of the characters \<open><\<close>, \<open>>\<close>, \<open>&\<close>.
\<close>

text \<open>
  \<open>JFloat neg whole frac expo\<close> is a float by the parts of its shortest decimal form;
  \<open>JBad t\<close> is a value of a type \<open>t\<close> that \<open>json.Marshal\<close> refuses (a channel, a function).
\<close>

datatype json =
    JNull
  | JBool bool
  | JInt int
  | JFloat bool nat "nat list" "int option"
  | JStr string
  | JArr "json list"
  | JObj "(string \<times> json) list"
  | JBad string

definition backslash :: char where
  "backslash = CHR 0x5C"

definition hex_digit :: "nat \<Rightarrow> char" where
  "hex_digit d = (if d < 10 then char_of (48 + d) else char_of (87 + d))"

definition json_ascii :: "nat \<Rightarrow> string" where
  "json_ascii b =
     (if b = 0x22 \<or> b = 0x5C then [backslash, char_of b]
      else if b = 0x08 then backslash # ''b''
      else if b = 0x0C then backslash # ''f''
      else if b = 0x0A then backslash # ''n''
      else if b = 0x0D then backslash # ''r''
      else if b = 0x09 then backslash # ''t''
      else if b < 0x20 \<or> b = 0x3C \<or> b = 0x3E \<or> b = 0x26
        then backslash # ''u00'' @ [hex_digit (b div 16), hex_digit (b mod 16)]
      else [char_of b])"

text \<open>One decoded code point \<open>r\<close> of width \<open>n\<close> at the head of \<open>bs\<close>.\<close>

definition json_rune :: "rune \<Rightarrow> nat \<Rightarrow> nat list \<Rightarrow> string" where
  "json_rune r n bs =
     (if r < 128 then json_ascii r
      else if r = rune_error \<and> n = 1 then backslash # ''ufffd''
      else if r = 0x2028 then backslash # ''u2028''
      else if r = 0x2029 then backslash # ''u2029''
      else bytes (take n bs))"

function json_chars :: "nat list \<Rightarrow> string" where
  "json_chars bs =
     (if bs = [] then []
      else json_rune (fst (decode_rune bs)) (snd (decode_rune bs)) bs
             @ json_chars (drop (snd (decode_rune bs)) bs))"
  by pat_completeness auto
termination
  by (relation "measure length") (auto simp: decode_rune_width)

declare json_chars.simps [simp del]

definition json_string :: "string \<Rightarrow> string" where
  "json_string s = [CHR 0x22] @ json_chars (map of_char s) @ [CHR 0x22]"

definition json_float :: "bool \<Rightarrow> nat \<Rightarrow> nat list \<Rightarrow> int option \<Rightarrow> string" where
  "json_float neg whole frac expo =
     (if neg then ''-'' else []) @ show_nat whole
     @ (if frac = [] then [] else ''.'' @ map (\<lambda>d. digit (d mod 10)) frac)
     @ (case expo of None \<Rightarrow> []
        | Some e \<Rightarrow> ''e'' @ (if e < 0 then ''-'' else ''+'') @ show_nat (nat \<bar>e\<bar>))"

definition json_field :: "string \<times> string go \<Rightarrow> string go" where
  "json_field kr = map_go (\<lambda>v. json_string (fst kr) @ '':'' @ v) (snd kr)"

fun marshal :: "json \<Rightarrow> string go" where
  "marshal JNull = Inr ''null''"
| "marshal (JBool b) = Inr (if b then ''true'' else ''false'')"
| "marshal (JInt i) = Inr (show_int i)"
| "marshal (JFloat neg whole frac expo) = Inr (json_float neg whole frac expo)"
| "marshal (JStr s) = Inr (json_string s)"
| "marshal (JArr xs) = map_go (\<lambda>vs. ''['' @ join vs '','' @ '']'') (seq_go (map marshal xs))"
| "marshal (JObj kvs) =
     map_go (\<lambda>fs. ''{'' @ join fs '','' @ ''}'')
       (seq_go (map json_field (sort_key fst (map (\<lambda>(k, v). (k, marshal v)) kvs))))"
| "marshal (JBad t) = Inl (GErr (''json: unsupported type: '' @ t))"

section \<open>What a marshalled value does not contain\<close>

definition wire_safe :: "char \<Rightarrow> bool" where
  "wire_safe c \<longleftrightarrow> 32 \<le> (of_char c :: nat) \<and> c \<notin> {CHR ''<'', CHR ''>'', CHR ''&''}"

definition safe_text :: "string \<Rightarrow> bool" where
  "safe_text s \<longleftrightarrow> (\<forall>c \<in> set s. wire_safe c)"

lemma safe_text_simps [simp]:
  "safe_text []" "safe_text (c # s) \<longleftrightarrow> wire_safe c \<and> safe_text s"
  "safe_text (s @ t) \<longleftrightarrow> safe_text s \<and> safe_text t"
  by (auto simp: safe_text_def)

lemma wire_safe_byte: "32 \<le> b \<Longrightarrow> b < 256 \<Longrightarrow> b \<notin> {0x3C, 0x3E, 0x26} \<Longrightarrow> wire_safe (char_of b)" for b :: nat
proof -
  assume b: "32 \<le> b" "b < 256" "b \<notin> {0x3C, 0x3E, 0x26}"
  have "(of_char (CHR ''<'') :: nat) = 0x3C" "(of_char (CHR ''>'') :: nat) = 0x3E"
    "(of_char (CHR ''&'') :: nat) = 0x26" by simp_all
  moreover have "(of_char (char_of b :: char) :: nat) = b" using b by simp
  ultimately show ?thesis unfolding wire_safe_def using b by (metis empty_iff insert_iff)
qed

lemma wire_safe_literals [simp]:
  "wire_safe backslash" "wire_safe (CHR 0x22)"
  by (simp_all add: wire_safe_def backslash_def)

lemma wire_safe_digit: "d < 10 \<Longrightarrow> wire_safe (digit d)"
  by (simp add: digit_def wire_safe_byte)

lemma wire_safe_hex: "d < 16 \<Longrightarrow> wire_safe (hex_digit d)"
  by (auto simp: hex_digit_def intro!: wire_safe_byte)

lemma safe_show_nat [simp]: "safe_text (show_nat n)"
proof -
  have "wire_safe c" if "c \<in> set (show_nat n)" for c
  proof -
    from show_nat_digits [OF that] have r: "48 \<le> (of_char c :: nat)" "(of_char c :: nat) < 58" by auto
    have "wire_safe (char_of (of_char c :: nat))" using r by (intro wire_safe_byte) auto
    then show ?thesis by simp
  qed
  then show ?thesis by (simp add: safe_text_def)
qed

lemma safe_json_ascii: "b < 128 \<Longrightarrow> safe_text (json_ascii b)"
proof -
  assume b: "b < 128"
  then have "b div 16 < 16" "b mod 16 < 16" by auto
  then have hex: "wire_safe (hex_digit (b div 16))" "wire_safe (hex_digit (b mod 16))"
    by (auto intro: wire_safe_hex)
  have "wire_safe (CHR ''b'')" "wire_safe (CHR ''f'')" "wire_safe (CHR ''n'')" "wire_safe (CHR ''r'')"
    "wire_safe (CHR ''t'')" "wire_safe (CHR ''u'')" "wire_safe (CHR ''0'')"
    by (simp_all add: wire_safe_def)
  with b hex show ?thesis by (auto simp: json_ascii_def intro!: wire_safe_byte)
qed

lemma decode_rune_high:
  assumes "128 \<le> fst (decode_rune bs)" "fst (decode_rune bs) \<noteq> rune_error \<or> snd (decode_rune bs) \<noteq> 1"
    "bs \<noteq> []"
  shows "\<forall>b \<in> set (take (snd (decode_rune bs)) bs). 128 \<le> b"
proof -
  obtain b0 t where bs: "bs = b0 # t" using assms(3) by (cases bs) auto
  obtain r n where d: "decode_rune bs = (r, n)" by fastforce
  have b0: "128 \<le> b0"
  proof (rule ccontr)
    assume "\<not> 128 \<le> b0"
    then show False using assms(1) by (simp add: bs)
  qed
  have "\<forall>b \<in> set (take n bs). 128 \<le> b" if "(r, n) \<noteq> (rune_error, 1)"
    using d b0 that unfolding bs
    by (simp only: decode_rune.simps cont_def split: if_splits list.splits) auto
  with assms(2) d show ?thesis by auto
qed

lemma safe_high_bytes: "\<forall>b \<in> set bs. 128 \<le> b \<and> b < 256 \<Longrightarrow> safe_text (bytes bs)"
  by (induction bs) (auto simp: bytes_def intro!: wire_safe_byte)

lemma safe_json_rune:
  assumes "bs \<noteq> []" "\<forall>b \<in> set bs. b < 256"
  shows "safe_text (json_rune (fst (decode_rune bs)) (snd (decode_rune bs)) bs)"
proof (cases "fst (decode_rune bs) < 128 \<or> (fst (decode_rune bs) = rune_error \<and> snd (decode_rune bs) = 1)
    \<or> fst (decode_rune bs) \<in> {0x2028, 0x2029}")
  case True
  then show ?thesis
    by (auto simp: json_rune_def safe_json_ascii) (simp_all add: wire_safe_def rune_error_def)
next
  case False
  then have "\<forall>b \<in> set (take (snd (decode_rune bs)) bs). 128 \<le> b"
    using assms(1) by (intro decode_rune_high) auto
  with assms(2) have "safe_text (bytes (take (snd (decode_rune bs)) bs))"
    by (intro safe_high_bytes) (auto dest: in_set_takeD)
  with False show ?thesis by (auto simp: json_rune_def)
qed

lemma safe_json_chars: "\<forall>b \<in> set bs. b < 256 \<Longrightarrow> safe_text (json_chars bs)"
proof (induction bs rule: json_chars.induct)
  case (1 bs)
  show ?case
  proof (cases "bs = []")
    case True
    then show ?thesis by (simp add: json_chars.simps)
  next
    case False
    have "safe_text (json_chars (drop (snd (decode_rune bs)) bs))"
      using "1.prems" by (intro "1.IH" [OF False]) (auto dest: in_set_dropD)
    with safe_json_rune [OF False "1.prems"] False show ?thesis
      by (subst json_chars.simps) simp
  qed
qed

lemma of_char_bounded: "\<forall>b \<in> set (map of_char s). (b :: nat) < 256"
  by auto

lemma safe_json_string [simp]: "safe_text (json_string s)"
  by (simp add: json_string_def safe_json_chars [OF of_char_bounded])

lemma safe_join: "(\<And>x. x \<in> set xs \<Longrightarrow> safe_text x) \<Longrightarrow> safe_text sep \<Longrightarrow> safe_text (join xs sep)"
  using set_join [of xs sep] unfolding safe_text_def by blast

lemma marshal_safe: "marshal v = Inr s \<Longrightarrow> safe_text s"
proof (induction v arbitrary: s rule: marshal.induct)
  case (4 neg whole frac expo)
  have "safe_text (map (\<lambda>d. digit (d mod 10)) frac)"
    by (auto simp: safe_text_def wire_safe_digit)
  with 4 show ?case
    by (auto simp: json_float_def wire_safe_def split: option.splits)
next
  case (6 xs)
  from "6.prems" obtain vs where vs: "map marshal xs = map Inr vs" "s = ''['' @ join vs '','' @ '']''"
    by (auto simp: map_go_Inr seq_go_Inr)
  have "safe_text v" if "v \<in> set vs" for v
  proof -
    from that have "Inr v \<in> set (map marshal xs)" unfolding vs(1) by auto
    then obtain x where x: "x \<in> set xs" "Inr v = marshal x" unfolding set_map by blast
    from "6.IH" [OF x(1) x(2) [symmetric]] show ?thesis .
  qed
  then have "safe_text (join vs '','')" by (intro safe_join) (simp_all add: wire_safe_def)
  with vs(2) show ?case by (simp add: wire_safe_def)
next
  case (7 kvs)
  let ?rs = "sort_key fst (map (\<lambda>(k, v). (k, marshal v)) kvs)"
  from "7.prems" obtain fs where fs: "map json_field ?rs = map Inr fs" "s = ''{'' @ join fs '','' @ ''}''"
    by (auto simp: map_go_Inr seq_go_Inr)
  have "safe_text f" if "f \<in> set fs" for f
  proof -
    from that have "Inr f \<in> set (map json_field ?rs)" unfolding fs(1) by auto
    then obtain k v where kv: "(k, v) \<in> set kvs" "json_field (k, marshal v) = Inr f" by auto
    then obtain t where t: "marshal v = Inr t" "f = json_string k @ '':'' @ t"
      by (auto simp: json_field_def map_go_Inr)
    from "7.IH" [OF kv(1) refl t(1)] t(2) show ?thesis by (simp add: wire_safe_def)
  qed
  then have "safe_text (join fs '','')" by (intro safe_join) (simp_all add: wire_safe_def)
  with fs(2) show ?case by (simp add: wire_safe_def)
qed (auto simp: wire_safe_def show_int_def)

end
