(* ===== verification/Wire.thy ===== *)
theory Wire
  imports Worker_Claims Json
begin

text \<open>
  The interface between a worker and the codec of its messages (\<open>protocol/wire.go\<close>): a
  marshalled request is one line. It is proved for \<open>json.Marshal\<close> of the request envelope,
  and the worker keeps from it that Node, reading its stdin line by line, sees exactly the
  requests in the order they were written.
\<close>

text \<open>\<open>Props\<close> is a \<open>map[string]any\<close>; \<open>None\<close> is the nil map, marshalled as \<open>null\<close>.\<close>

type_synonym props = "(string \<times> json) list option"

definition marshal_props :: "props \<Rightarrow> string go" where
  "marshal_props p = (case p of None \<Rightarrow> Inr ''null'' | Some kvs \<Rightarrow> marshal (JObj kvs))"

definition marshal_request :: "props render_request \<Rightarrow> string go" where
  "marshal_request r =
     map_go (\<lambda>p. ''{'' @ json_string ''id'' @ '':'' @ show_nat (unat (req_id r)) @ '',''
                @ json_string ''component'' @ '':'' @ json_string (req_component r) @ '',''
                @ json_string ''props'' @ '':'' @ p @ ''}'')
       (marshal_props (req_props r))"

lemma marshal_props_safe: "marshal_props p = Inr s \<Longrightarrow> safe_text s"
proof (cases p)
  case (Some kvs)
  assume "marshal_props p = Inr s"
  with Some have "marshal (JObj kvs) = Inr s" by (simp add: marshal_props_def del: marshal.simps)
  then show ?thesis by (rule marshal_safe)
qed (auto simp: marshal_props_def wire_safe_def)

lemma marshal_request_safe: "marshal_request r = Inr s \<Longrightarrow> safe_text s"
  by (auto simp: marshal_request_def map_go_Inr wire_safe_def dest!: marshal_props_safe)

lemma safe_text_one_line: "safe_text s \<Longrightarrow> newline \<notin> set s"
proof
  assume "safe_text s" "newline \<in> set s"
  then have "wire_safe newline" by (simp add: safe_text_def)
  then show False by (simp add: wire_safe_def newline_def)
qed

locale wire_codec =
  fixes enc :: "'p render_request \<Rightarrow> string go"
  assumes one_line: "enc r = Inr l \<Longrightarrow> newline \<notin> set l"
begin

lemma written_is_line: "write_request enc r io = Inr l \<Longrightarrow> is_line l"
  by (auto simp: write_request_def is_line_def dest: one_line split: sum.splits option.splits)

lemma step_sent_lines:
  assumes "wstep enc dec w e = Some w'" "\<forall>l \<in> set (sent w). is_line l"
  shows "\<forall>l \<in> set (sent w'). is_line l"
  using assms
  by (cases e) (auto simp: Let_def dest: written_is_line split: wstep_splits)

lemma run_sent_lines:
  "wrun enc dec w es = Some w' \<Longrightarrow> \<forall>l \<in> set (sent w). is_line l \<Longrightarrow> \<forall>l \<in> set (sent w'). is_line l"
proof (induction es arbitrary: w)
  case (Cons e es)
  then obtain v where v: "wstep enc dec w e = Some v" "wrun enc dec v es = Some w'"
    by (auto split: option.splits)
  from Cons.IH [OF v(2) step_sent_lines [OF v(1) Cons.prems(2)]] show ?case .
qed simp

lemma node_reads_sent: "wrun enc dec worker0 es = Some w \<Longrightarrow> lines_of (concat (sent w)) = sent w"
  using run_sent_lines [of dec worker0 es w] lines_of_concat [of "sent w" "[]"]
  by (simp add: worker0_def lines_of.simps [of "[]"])

end

interpretation json_wire: wire_codec marshal_request
  by unfold_locales (rule safe_text_one_line, rule marshal_request_safe)

text \<open>
  Framing. However the writes of concurrent calls are ordered, splitting what was
  written to the stdin of Node at newlines gives back exactly the marshalled requests, in
  the order of the writes: no component name and no property value can break a line.
\<close>

theorem requests_framed:
  assumes "wrun marshal_request dec worker0 es = Some w"
  shows "lines_of (concat (sent w)) = sent w"
  using assms by (rule json_wire.node_reads_sent)

definition demo_props :: props where
  "demo_props = Some [(''t'', JStr [CHR ''a'', newline, CHR ''<'']), (''b'', JInt 7)]"

theorem requests_framed_witness:
  "\<exists>w. wrun marshal_request demo_dec worker0
     [EStart 0 ''A'' demo_props, ERegister 0, EWrite 0 None] = Some w \<and> length (sent w) = 1 \<and>
     lines_of (concat (sent w)) = sent w"
proof -
  obtain l where "marshal_request \<lparr>req_id = 1, req_component = ''A'', req_props = demo_props\<rparr> = Inr l"
    by (auto simp: marshal_request_def marshal_props_def demo_props_def json_field_def)
  then obtain w where w: "wrun marshal_request demo_dec worker0
     [EStart 0 ''A'' demo_props, ERegister 0, EWrite 0 None] = Some w" "length (sent w) = 1"
    by (simp add: worker0_def Let_def write_request_def set_caller_def)
  from requests_framed [OF w(1)] w show ?thesis by blast
qed

end
