(* ===== verification/Pool.thy ===== *)
theory Pool
  imports Prelude
begin

text \<open>
  The ring of workers (\<open>pool.go\<close>): round-robin selection with an atomic cursor, the
  double-checked replacement of a dead worker under the read-write lock, start, shutdown and
  statistics. A worker is a reference into \<open>live\<close>, which says whether its reader still runs;
  one critical section or atomic operation of the code is one event of \<open>pstep\<close>.
\<close>

section \<open>State\<close>

type_synonym wref = nat

text \<open>A goroutine in \<open>pool.render\<close>: before it, with its slot
  chosen, holding the worker it read, on the slow path, finished.\<close>

datatype prequest =
    PIdle
  | PChosen nat
  | PHeld nat wref
  | PSlow nat
  | PGot nat wref
  | PFailed goerr

text \<open>
  \<open>slots\<close> is \<open>p.workers\<close>, \<open>live\<close> is \<open>worker.alive()\<close>, \<open>next_ref\<close> the next fresh
  reference, \<open>retired\<close> the workers that were taken out of a slot, in order.
\<close>

record pool =
  slots :: "wref list"
  live :: "wref \<Rightarrow> bool"
  next_ref :: wref
  cursor :: "64 word"
  psize :: "64 word"
  requests :: "nat \<Rightarrow> prequest"
  retired :: "wref list"

section \<open>Starting the pool\<close>

text \<open>
  The outcome of \<open>closeRange\<close> given what \<open>worker.close\<close> returns for each worker: all
  workers of the range are closed, the first error is reported.
\<close>

fun close_loop :: "(wref \<Rightarrow> goerr option) \<Rightarrow> wref list \<Rightarrow> nat \<Rightarrow> goerr option \<Rightarrow> goerr option \<times> wref list" where
  "close_loop cl [] i first = (first, [])"
| "close_loop cl (w # ws) i first =
     (let first' = (case cl w of
            Some e \<Rightarrow> (if first = None
                       then Some (GWrap (''revelt pool: closing worker '' @ show_nat i) e) else first)
          | None \<Rightarrow> first);
          (res, closed) = close_loop cl ws (i + 1) first'
      in (res, w # closed))"

definition close_range :: "(wref \<Rightarrow> goerr option) \<Rightarrow> wref list \<Rightarrow> nat \<Rightarrow> nat \<Rightarrow> goerr option \<times> wref list" where
  "close_range cl ws start stop = close_loop cl (take (stop - start) (drop start ws)) start None"

definition pool_close :: "(wref \<Rightarrow> goerr option) \<Rightarrow> pool \<Rightarrow> goerr option \<times> wref list" where
  "pool_close cl p = close_range cl (slots p) 0 (length (slots p))"

text \<open>
  The loop of \<open>newPool\<close>: \<open>spawn i\<close> is what starting worker \<open>i\<close> returns; on a failure
  the workers started so far are closed. The result carries the workers that were closed.
\<close>

fun start_loop ::
  "(nat \<Rightarrow> goerr option) \<Rightarrow> (wref \<Rightarrow> goerr option) \<Rightarrow> nat \<Rightarrow> nat \<Rightarrow> wref list \<Rightarrow> wref list go \<times> wref list" where
  "start_loop spawn cl 0 i started = (Inr started, [])"
| "start_loop spawn cl (Suc n) i started =
     (case spawn i of
        Some e \<Rightarrow> (Inl (GWrap (''revelt pool: starting worker '' @ show_nat i) e),
                    snd (close_range cl started 0 i))
      | None \<Rightarrow> start_loop spawn cl n (i + 1) (started @ [i]))"

definition new_pool ::
  "(nat \<Rightarrow> goerr option) \<Rightarrow> (wref \<Rightarrow> goerr option) \<Rightarrow> int \<Rightarrow> pool go \<times> wref list" where
  "new_pool spawn cl n =
     (if n \<le> 0
      then (Inl (GErr (''revelt pool: size must be > 0, got '' @ show_int n)), [])
      else (case start_loop spawn cl (nat n) 0 [] of
          (Inl e, closed) \<Rightarrow> (Inl e, closed)
        | (Inr ws, closed) \<Rightarrow>
            (Inr \<lparr>slots = ws, live = (\<lambda>r. r < length ws), next_ref = length ws, cursor = 0,
                  psize = word_of_int n, requests = (\<lambda>_. PIdle), retired = []\<rparr>, closed)))"

section \<open>Serving a request\<close>

text \<open>\<open>idx := int(p.cursor.Add(1) % p.size)\<close>\<close>

definition next_slot :: "pool \<Rightarrow> nat" where
  "next_slot p = unat ((cursor p + 1) mod psize p)"

datatype pevent =
    PAdd nat                         \<comment> \<open>\<open>cursor.Add(1)\<close>\<close>
  | PRead nat                        \<comment> \<open>the slot read under \<open>RLock\<close>\<close>
  | PFast nat                        \<comment> \<open>\<open>alive()\<close> of the worker read\<close>
  | PReplace nat "goerr option"      \<comment> \<open>the critical section under \<open>Lock\<close>; what a spawn returns\<close>
  | PDie wref                        \<comment> \<open>a Node process ends\<close>

fun pstep :: "pool \<Rightarrow> pevent \<Rightarrow> pool option" where
  "pstep p (PAdd t) =
     (if requests p t = PIdle
      then Some (p\<lparr>cursor := cursor p + 1, requests := (requests p)(t := PChosen (next_slot p))\<rparr>)
      else None)"
| "pstep p (PRead t) =
     (case requests p t of
        PChosen i \<Rightarrow> Some (p\<lparr>requests := (requests p)(t := PHeld i (slots p ! i))\<rparr>)
      | _ \<Rightarrow> None)"
| "pstep p (PFast t) =
     (case requests p t of
        PHeld i w \<Rightarrow>
          Some (p\<lparr>requests := (requests p)(t := if live p w then PGot i w else PSlow i)\<rparr>)
      | _ \<Rightarrow> None)"
| "pstep p (PReplace t spawned) =
     (case requests p t of
        PSlow i \<Rightarrow>
          Some (if live p (slots p ! i)
                then p\<lparr>requests := (requests p)(t := PGot i (slots p ! i))\<rparr>
                else (case spawned of
                    Some e \<Rightarrow>
                      p\<lparr>requests := (requests p)(t := PFailed
                          (GWrap ''revelt pool: acquiring worker''
                             (GWrap (''replacing dead worker at slot '' @ show_nat i) e)))\<rparr>
                  | None \<Rightarrow>
                      p\<lparr>slots := (slots p)[i := next_ref p], live := (live p)(next_ref p := True),
                        next_ref := next_ref p + 1, retired := retired p @ [slots p ! i],
                        requests := (requests p)(t := PGot i (next_ref p))\<rparr>))
      | _ \<Rightarrow> None)"
| "pstep p (PDie r) = (if live p r then Some (p\<lparr>live := (live p)(r := False)\<rparr>) else None)"

fun prun :: "pool \<Rightarrow> pevent list \<Rightarrow> pool option" where
  "prun p [] = Some p"
| "prun p (e # es) = (case pstep p e of None \<Rightarrow> None | Some p' \<Rightarrow> prun p' es)"

section \<open>Statistics\<close>

record worker_stat =
  stat_index :: nat
  stat_alive :: bool
  stat_stderr :: string

definition pool_stats :: "(wref \<Rightarrow> string) \<Rightarrow> pool \<Rightarrow> worker_stat list" where
  "pool_stats stderr p =
     map (\<lambda>(i, w). \<lparr>stat_index = i, stat_alive = live p w, stat_stderr = stderr w\<rparr>)
       (enumerate 0 (slots p))"

end
