(* ===== verification/Renderer.thy ===== *)
theory Renderer
  imports Utf8 Json Wire Pool
begin

text \<open>
  The renderer (\<open>renderer.go\<close>): its configuration and options, its start (build step,
  environment of the workers, pool), and \<open>Render\<close>, which answers client-only components
  by itself and passes the others to the pool. The pool behind a render is an argument
  \<open>svc\<close>, a state-passing function; the lemmas on it are in \<open>Renderer_Claims\<close>.
\<close>

section \<open>Configuration\<close>

text \<open>The loaded \<open>revelt.json\<close>; \<open>component_modes\<close> is a Go map.\<close>

record project_config =
  framework :: string
  source_dir :: string
  out_dir :: string
  pc_workers :: int
  timeout_ms :: int
  port :: int
  static_prefix :: string
  component_dir :: string
  go_build_cmd :: string
  component_modes :: "string \<rightharpoonup> string"

definition ModeSSR :: string where "ModeSSR = ''ssr''"
definition ModeHydrate :: string where "ModeHydrate = ''hydrate''"
definition ModeClient :: string where "ModeClient = ''client''"
definition ModeLazyClient :: string where "ModeLazyClient = ''lazy-client''"

record config =
  workers :: int
  cfg_node_bin :: string
  render_timeout :: int
  cfg_read_buf :: int
  build_cmd :: "string list"
  build_dir :: string
  project_cfg :: "project_config option"

definition default_config :: "int \<Rightarrow> config" where
  "default_config num_cpu =
     \<lparr>workers = num_cpu, cfg_node_bin = ''node'', render_timeout = 0, cfg_read_buf = 64 * 1024,
      build_cmd = [], build_dir = ''.'', project_cfg = None\<rparr>"

datatype config_option =
    WithWorkers int
  | WithNodeBin string
  | WithRenderTimeout int
  | WithReadBufSize int
  | WithBuildCmd "string list"
  | WithBuildDir string
  | WithProjectConfig "project_config option"

fun apply_option :: "config_option \<Rightarrow> config \<Rightarrow> config outcome" where
  "apply_option (WithWorkers n) c =
     (if n < 1 then Panicked ''revelt: WithWorkers: n must be >= 1'' else Done (c\<lparr>workers := n\<rparr>))"
| "apply_option (WithNodeBin bin) c = Done (c\<lparr>cfg_node_bin := bin\<rparr>)"
| "apply_option (WithRenderTimeout d) c = Done (c\<lparr>render_timeout := d\<rparr>)"
| "apply_option (WithReadBufSize n) c = Done (c\<lparr>cfg_read_buf := n\<rparr>)"
| "apply_option (WithBuildCmd args) c =
     (if length args = 0 then Panicked ''revelt: WithBuildCmd: at least one argument required''
      else Done (c\<lparr>build_cmd := args\<rparr>))"
| "apply_option (WithBuildDir dir) c = Done (c\<lparr>build_dir := dir\<rparr>)"
| "apply_option (WithProjectConfig p) c = Done (c\<lparr>project_cfg := p\<rparr>)"

fun apply_options :: "config_option list \<Rightarrow> config \<Rightarrow> config outcome" where
  "apply_options [] c = Done c"
| "apply_options (opt # opts) c =
     (case apply_option opt c of Panicked m \<Rightarrow> Panicked m | Done c' \<Rightarrow> apply_options opts c')"

section \<open>Paths\<close>

text \<open>
  \<open>path/filepath\<close> on a Unix system: \<open>Clean\<close> resolves \<open>.\<close>, \<open>..\<close> and repeated
  separators; \<open>Join\<close> drops empty elements and cleans; \<open>Abs\<close> prepends the working
  directory.
\<close>

definition slash :: char where
  "slash = CHR ''/''"

fun split_slash :: "string \<Rightarrow> string list" where
  "split_slash [] = [[]]"
| "split_slash (c # cs) =
     (if c = slash then [] # split_slash cs
      else case split_slash cs of [] \<Rightarrow> [[c]] | x # xs \<Rightarrow> (c # x) # xs)"

text \<open>The elements kept so far are on a stack, the last one first.\<close>

fun clean_step :: "bool \<Rightarrow> string list \<Rightarrow> string \<Rightarrow> string list" where
  "clean_step rooted st x =
     (if x = [] \<or> x = ''.'' then st
      else if x = ''..'' then
        (case st of
           [] \<Rightarrow> if rooted then [] else [''..'']
         | y # ys \<Rightarrow> if y = ''..'' then ''..'' # st else ys)
      else x # st)"

definition is_rooted :: "string \<Rightarrow> bool" where
  "is_rooted p = (case p of c # _ \<Rightarrow> c = slash | [] \<Rightarrow> False)"

definition path_clean :: "string \<Rightarrow> string" where
  "path_clean p =
     (if p = [] then ''.''
      else let body = join (rev (foldl (clean_step (is_rooted p)) [] (split_slash p))) ''/''
           in if is_rooted p then slash # body else if body = [] then ''.'' else body)"

definition path_join :: "string list \<Rightarrow> string" where
  "path_join xs =
     (let ys = filter (\<lambda>x. x \<noteq> []) xs in if ys = [] then [] else path_clean (join ys ''/''))"

text \<open>\<open>cwd\<close> is what \<open>os.Getwd\<close> returns.\<close>

definition path_abs :: "string go \<Rightarrow> string \<Rightarrow> string go" where
  "path_abs cwd p =
     (if is_rooted p then Inr (path_clean p)
      else case cwd of Inl e \<Rightarrow> Inl e | Inr d \<Rightarrow> Inr (path_join [d, p]))"

section \<open>Starting\<close>

text \<open>
  What the operating system answers: \<open>os.Stat\<close> of the script, \<open>cmd.Run\<close> of the build
  with its output, the working directory, the environment, and for a worker command the
  results of the calls that start worker \<open>i\<close>, with what closing it returns.
\<close>

record os_env =
  os_stat :: "string \<Rightarrow> goerr option"
  os_run :: "string list \<Rightarrow> string \<Rightarrow> goerr option \<times> string"
  os_getwd :: "string go"
  os_environ :: "string list"
  os_worker :: "command \<Rightarrow> nat \<Rightarrow> os_spawn"
  os_close :: "nat \<Rightarrow> goerr option"
  os_cpus :: int

definition quote_list :: "(rune \<Rightarrow> bool) \<Rightarrow> string list \<Rightarrow> string" where
  "quote_list ip xs = ''['' @ join (map (go_quote ip) xs) '' '' @ '']''"

definition run_build :: "(rune \<Rightarrow> bool) \<Rightarrow> os_env \<Rightarrow> string list \<Rightarrow> string \<Rightarrow> goerr option" where
  "run_build ip os args dir =
     (case os_run os args dir of
        (Some e, out) \<Rightarrow>
          Some (GAround (''command '' @ quote_list ip args @ '' in '' @ go_quote ip dir) e
                  (newline # out))
      | (None, out) \<Rightarrow> None)"

definition worker_envs :: "os_env \<Rightarrow> config \<Rightarrow> string list" where
  "worker_envs os cfg =
     (let dir = (case project_cfg cfg of Some pc \<Rightarrow> source_dir pc | None \<Rightarrow> ''.'') in
      case path_abs (os_getwd os) dir of
        Inl _ \<Rightarrow> []
      | Inr d \<Rightarrow> os_environ os @ [''NODE_PATH='' @ path_join [d, ''node_modules'']])"

record renderer =
  rend_pool :: pool
  rend_cfg :: config
  rend_project :: "project_config option"

text \<open>Starting worker \<open>i\<close> in the terms of \<open>newWorker\<close>.\<close>

definition spawn_error :: "os_env \<Rightarrow> worker_config \<Rightarrow> string \<Rightarrow> nat \<Rightarrow> goerr option" where
  "spawn_error os wcfg script i =
     (case (new_worker (os_worker os (worker_command wcfg script) i) :: unit worker go) of
        Inl e \<Rightarrow> Some e | Inr _ \<Rightarrow> None)"

text \<open>\<open>New\<close>: the result, and the workers that were started and closed again.\<close>

definition new_renderer ::
  "(rune \<Rightarrow> bool) \<Rightarrow> os_env \<Rightarrow> string \<Rightarrow> config_option list \<Rightarrow> (renderer go \<times> nat list) outcome" where
  "new_renderer ip os script opts =
     (case os_stat os script of
        Some e \<Rightarrow> Done (Inl (GErr (''stat failed for script: '' @ err_msg e)), [])
      | None \<Rightarrow>
          (case apply_options opts (default_config (os_cpus os)) of
             Panicked m \<Rightarrow> Panicked m
           | Done cfg \<Rightarrow>
               Done (case (if 0 < length (build_cmd cfg) then run_build ip os (build_cmd cfg) (build_dir cfg)
                           else None) of
                  Some e \<Rightarrow> (Inl (GWrap ''revelt.New: build step failed'' e), [])
                | None \<Rightarrow>
                    (let wcfg = \<lparr>node_bin = cfg_node_bin cfg, read_buf_size = cfg_read_buf cfg,
                                 write_timeout = 0, worker_env = worker_envs os cfg\<rparr>
                     in case new_pool (spawn_error os wcfg script) (os_close os) (workers cfg) of
                          (Inl e, closed) \<Rightarrow> (Inl (GWrap ''revelt.New'' e), closed)
                        | (Inr p, closed) \<Rightarrow>
                            (Inr \<lparr>rend_pool = p, rend_cfg = cfg, rend_project = project_cfg cfg\<rparr>, closed)))))"

section \<open>Rendering\<close>

definition is_client_only :: "string \<Rightarrow> bool" where
  "is_client_only mode \<longleftrightarrow> mode = ModeClient \<or> mode = ModeLazyClient"

definition escape_rune :: "rune \<Rightarrow> string" where
  "escape_rune r =
     (if r = 0x26 then ''&amp;'' else if r = 0x3C then ''&lt;'' else if r = 0x3E then ''&gt;''
      else if r = 0x22 then ''&quot;'' else if r = 0x27 then ''&#039;'' else write_rune r)"

definition escape_html :: "string \<Rightarrow> string" where
  "escape_html text = concat (map escape_rune (range_runes text))"

definition props_json :: "props \<Rightarrow> string go" where
  "props_json p = (case p of None \<Rightarrow> Inr ''{}'' | Some kvs \<Rightarrow> marshal (JObj kvs))"

definition quoted :: "string \<Rightarrow> string" where
  "quoted s = [CHR 0x22] @ s @ [CHR 0x22]"

definition placeholder :: "string \<Rightarrow> string \<Rightarrow> string \<Rightarrow> string" where
  "placeholder mode cname escaped =
     ''<div data-ssr-island='' @ quoted cname @ '' data-ssr-props='' @ quoted escaped
     @ (if mode = ModeLazyClient then '' data-ssr-lazy='' @ quoted ''true'' else [])
     @ ''></div>''"

text \<open>
  \<open>svc s timeout cname props\<close> is \<open>r.pool.render\<close>: it takes the state of the pool and
  the deadline the context was given, and returns the response or error and the new state.
\<close>

type_synonym 's render_service =
  "'s \<Rightarrow> int option \<Rightarrow> string \<Rightarrow> props \<Rightarrow> render_response go \<times> 's"

definition ssr_render ::
  "(rune \<Rightarrow> bool) \<Rightarrow> 's render_service \<Rightarrow> config \<Rightarrow> 's \<Rightarrow> string \<Rightarrow> props \<Rightarrow> string go \<times> 's" where
  "ssr_render ip svc cfg s cname ps =
     (case svc s (if 0 < render_timeout cfg then Some (render_timeout cfg) else None) cname ps of
        (Inl e, s') \<Rightarrow> (Inl (GWrap ''revelt: render failed'' e), s')
      | (Inr resp, s') \<Rightarrow>
          (if resp_error resp \<noteq> []
           then (Inl (GErr (''revelt: component '' @ go_quote ip cname @ '': '' @ resp_error resp)), s')
           else (Inr (resp_html resp), s')))"

definition render ::
  "(rune \<Rightarrow> bool) \<Rightarrow> 's render_service \<Rightarrow> config \<Rightarrow> project_config option \<Rightarrow>
   's \<Rightarrow> string \<Rightarrow> props \<Rightarrow> string go \<times> 's" where
  "render ip svc cfg pc s cname ps =
     (if cname = [] then (Inl (GErr ''revelt: Component must not be empty''), s)
      else case pc of
          None \<Rightarrow> ssr_render ip svc cfg s cname ps
        | Some c \<Rightarrow>
            (case component_modes c cname of
               None \<Rightarrow> (Inl (GErr (''revelt: unknown component '' @ go_quote ip cname)), s)
             | Some mode \<Rightarrow>
                 (if is_client_only mode then
                    (case props_json ps of
                       Inl e \<Rightarrow> (Inl (GWrap ''revelt: marshalling client-only props'' e), s)
                     | Inr j \<Rightarrow> (Inr (placeholder mode cname (escape_html j)), s))
                  else ssr_render ip svc cfg s cname ps)))"

text \<open>
  \<open>pool.render\<close> and \<open>pool.workerAt\<close> for a request that runs alone; \<open>spawned\<close> is what
  starting a replacement returns, \<open>work\<close> what the chosen worker answers.
\<close>

definition worker_at :: "goerr option \<Rightarrow> nat \<Rightarrow> pool \<Rightarrow> wref go \<times> pool" where
  "worker_at spawned i p =
     (if live p (slots p ! i) then (Inr (slots p ! i), p)
      else case spawned of
          Some e \<Rightarrow> (Inl (GWrap (''replacing dead worker at slot '' @ show_nat i) e), p)
        | None \<Rightarrow>
            (Inr (next_ref p),
             p\<lparr>slots := (slots p)[i := next_ref p], live := (live p)(next_ref p := True),
               next_ref := next_ref p + 1, retired := retired p @ [slots p ! i]\<rparr>))"

definition pool_render ::
  "goerr option \<Rightarrow> (wref \<Rightarrow> int option \<Rightarrow> string \<Rightarrow> props \<Rightarrow> render_response go) \<Rightarrow> pool render_service" where
  "pool_render spawned work p timeout cname ps =
     (case worker_at spawned (next_slot p) (p\<lparr>cursor := cursor p + 1\<rparr>) of
        (Inl e, p') \<Rightarrow> (Inl (GWrap ''revelt pool: acquiring worker'' e), p')
      | (Inr w, p') \<Rightarrow> (work w timeout cname ps, p'))"

definition renderer_close :: "(nat \<Rightarrow> goerr option) \<Rightarrow> renderer \<Rightarrow> goerr option \<times> wref list" where
  "renderer_close cl r =
     (case pool_close cl (rend_pool r) of
        (None, ws) \<Rightarrow> (None, ws)
      | (Some e, ws) \<Rightarrow> (Some (GWrap ''revelt: closing pool'' e), ws))"

definition renderer_stats :: "(wref \<Rightarrow> string) \<Rightarrow> renderer \<Rightarrow> worker_stat list" where
  "renderer_stats stderr r = pool_stats stderr (rend_pool r)"

end
