(* ===== verification/Steps.thy ===== *)
theory Steps
  imports Prelude
begin

text \<open>
  The contract shared by the state machines of the program: a partial step function and the
  run of a list of events. \<open>machine\<close> fixes the two and asks that the run folds the step;
  \<open>guarded_machine\<close> adds an invariant that every step keeps, and \<open>mortal_machine\<close> a
  liveness flag that no step sets again. The worker and the pool interpret them.
\<close>

locale machine =
  fixes step :: "'s \<Rightarrow> 'e \<Rightarrow> 's option"
    and run :: "'s \<Rightarrow> 'e list \<Rightarrow> 's option"
  assumes run_Nil: "run s [] = Some s"
    and run_Cons: "run s (e # es) = (case step s e of None \<Rightarrow> None | Some s' \<Rightarrow> run s' es)"
begin

lemma run_ConsE:
  assumes "run s (e # es) = Some u"
  obtains s' where "step s e = Some s'" "run s' es = Some u"
  using assms by (auto simp: run_Cons split: option.splits)

lemma run_rel:
  assumes "run s es = Some u" "\<And>s. R s [] s"
    "\<And>s e s' es u. step s e = Some s' \<Longrightarrow> R s' es u \<Longrightarrow> R s (e # es) u"
  shows "R s es u"
  using assms(1)
proof (induction es arbitrary: s)
  case Nil
  then show ?case using assms(2) by (simp add: run_Nil)
next
  case (Cons e es)
  from Cons.prems obtain s' where "step s e = Some s'" "run s' es = Some u" by (rule run_ConsE)
  with Cons.IH assms(3) show ?case by blast
qed

lemma run_append:
  "run s (es @ fs) = (case run s es of None \<Rightarrow> None | Some u \<Rightarrow> run u fs)"
  by (induction es arbitrary: s) (auto simp: run_Nil run_Cons split: option.splits)

lemma run_appendE:
  assumes "run s (es @ fs) = Some u"
  obtains v where "run s es = Some v" "run v fs = Some u"
  using assms by (auto simp: run_append split: option.splits)

end

locale guarded_machine = machine step run
  for step :: "'s \<Rightarrow> 'e \<Rightarrow> 's option" and run +
  fixes inv :: "'s \<Rightarrow> bool"
  assumes step_inv: "inv s \<Longrightarrow> step s e = Some s' \<Longrightarrow> inv s'"
begin

lemma machine_inv:
  assumes "run s es = Some u" "inv s"
  shows "inv u"
  using assms
  by (induction es arbitrary: s) (auto simp: run_Nil elim!: run_ConsE dest: step_inv)

lemma run_induct:
  assumes "run s es = Some u" "inv s" "\<And>s. R s [] s"
    "\<And>s e s' es u. inv s \<Longrightarrow> step s e = Some s' \<Longrightarrow> R s' es u \<Longrightarrow> R s (e # es) u"
  shows "R s es u"
  using assms(1,2)
proof (induction es arbitrary: s)
  case Nil
  then show ?case using assms(3) by (simp add: run_Nil)
next
  case (Cons e es)
  from Cons.prems(1) obtain s' where s': "step s e = Some s'" "run s' es = Some u" by (rule run_ConsE)
  from Cons.IH [OF s'(2) step_inv [OF Cons.prems(2) s'(1)]]
  show ?case by (rule assms(4) [OF Cons.prems(2) s'(1)])
qed

end

locale mortal_machine = guarded_machine step run inv
  for step :: "'s \<Rightarrow> 'e \<Rightarrow> 's option" and run inv +
  fixes up :: "'s \<Rightarrow> 'i \<Rightarrow> bool" and known :: "'s \<Rightarrow> 'i \<Rightarrow> bool"
  assumes step_known: "inv s \<Longrightarrow> step s e = Some s' \<Longrightarrow> known s i \<Longrightarrow> known s' i"
    and step_down: "inv s \<Longrightarrow> step s e = Some s' \<Longrightarrow> known s i \<Longrightarrow> \<not> up s i \<Longrightarrow> \<not> up s' i"
begin

lemma run_down:
  assumes "run s es = Some u" "inv s" "known s i" "\<not> up s i"
  shows "\<not> up u i"
  using assms
proof (induction es arbitrary: s)
  case (Cons e es)
  from Cons.prems(1) obtain s' where s': "step s e = Some s'" "run s' es = Some u" by (rule run_ConsE)
  with Cons.IH [OF s'(2)] Cons.prems show ?case
    using step_inv [OF _ s'(1)] step_known [OF _ s'(1)] step_down [OF _ s'(1)] by blast
qed (simp add: run_Nil)

end

end
