(* ===== verification/Pool_Claims.thy ===== *)
theory Pool_Claims
  imports Pool Steps Worker_Safety
begin

text \<open>
  What the pool promises: a failed start closes exactly what it started, shutdown closes every
  worker, the cursor spreads requests evenly and never leaves the ring, a request is handed a
  worker of its slot that is alive, and a dead worker is replaced once however many requests
  find it dead.
\<close>

section \<open>The pool as a machine\<close>

definition pool_inv :: "pool \<Rightarrow> bool" where
  "pool_inv p \<longleftrightarrow>
     slots p \<noteq> [] \<and> length (slots p) < 2 ^ 63 \<and> psize p = word_of_nat (length (slots p)) \<and>
     distinct (slots p @ retired p) \<and> (\<forall>r \<in> set (slots p) \<union> set (retired p). r < next_ref p) \<and>
     (\<forall>r. live p r \<longrightarrow> r \<in> set (slots p)) \<and>
     (\<forall>t i. requests p t = PChosen i \<or> requests p t = PSlow i \<longrightarrow> i < length (slots p)) \<and>
     (\<forall>t i w. requests p t = PHeld i w \<longrightarrow>
        i < length (slots p) \<and> (w = slots p ! i \<or> w \<in> set (retired p)))"

lemma pool_inv_size:
  assumes "pool_inv p"
  shows "unat (psize p) = length (slots p)" "0 < length (slots p)"
proof -
  from assms have "length (slots p) < 2 ^ 64" "psize p = word_of_nat (length (slots p))" "slots p \<noteq> []"
    by (auto simp: pool_inv_def)
  then show "unat (psize p) = length (slots p)" "0 < length (slots p)"
    by (simp_all add: unat_of_nat take_bit_nat_eq_self)
qed

lemma pool_inv_held:
  "pool_inv p \<Longrightarrow> requests p t = PHeld i w \<Longrightarrow>
     i < length (slots p) \<and> (w = slots p ! i \<or> w \<in> set (retired p))"
  unfolding pool_inv_def by blast

lemma pool_inv_slot:
  "pool_inv p \<Longrightarrow> requests p t = PChosen i \<or> requests p t = PSlow i \<Longrightarrow> i < length (slots p)"
  unfolding pool_inv_def by blast

lemma next_slot_bound: "pool_inv p \<Longrightarrow> next_slot p < length (slots p)"
  using pool_inv_size [of p] by (simp add: next_slot_def unat_mod)

fun_cases pstep_PAdd: "pstep p (PAdd t) = Some p'"
fun_cases pstep_PRead: "pstep p (PRead t) = Some p'"
fun_cases pstep_PFast: "pstep p (PFast t) = Some p'"
fun_cases pstep_PReplace: "pstep p (PReplace t s) = Some p'"
fun_cases pstep_PDie: "pstep p (PDie r) = Some p'"

lemmas pstep_elims = pstep_PAdd pstep_PRead pstep_PFast pstep_PReplace pstep_PDie
lemmas pstep_splits = if_splits option.splits prequest.splits

definition ring_replace :: "nat \<Rightarrow> pool \<Rightarrow> pool" where
  "ring_replace i p =
     p\<lparr>slots := (slots p)[i := next_ref p], live := (live p)(next_ref p := True),
       next_ref := next_ref p + 1, retired := retired p @ [slots p ! i]\<rparr>"

definition pool_replace :: "nat \<Rightarrow> nat \<Rightarrow> pool \<Rightarrow> pool" where
  "pool_replace t i p =
     (ring_replace i p)\<lparr>requests := (requests p)(t := PGot i (next_ref p))\<rparr>"

lemmas pool_replace_defs = pool_replace_def ring_replace_def

text \<open>A step replaces a worker in the slow path of a request, or leaves the ring alone.\<close>

definition same_ring :: "pool \<Rightarrow> pool \<Rightarrow> bool" where
  "same_ring p p' \<longleftrightarrow> slots p' = slots p \<and> next_ref p' = next_ref p \<and> retired p' = retired p \<and>
     psize p' = psize p \<and> (\<forall>r. live p' r \<longrightarrow> live p r)"

lemma pstep_ring:
  assumes "pstep p e = Some p'"
  obtains t i where "e = PReplace t None" "requests p t = PSlow i" "\<not> live p (slots p ! i)"
      "p' = pool_replace t i p"
    | "same_ring p p'"
  using assms
  by (cases e) (auto simp: same_ring_def pool_replace_defs split: pstep_splits)

lemma ring_replace_inv:
  assumes "pool_inv p" "i < length (slots p)" "\<not> live p (slots p ! i)"
  shows "pool_inv (ring_replace i p)"
proof -
  let ?w = "slots p ! i" and ?n = "next_ref p"
  let ?s = "(slots p)[i := ?n]"
  from assms have i: "i < length (slots p)" and fresh: "?n \<notin> set (slots p)" "?n \<notin> set (retired p)"
    and d: "distinct (slots p)" "distinct (retired p)" "set (slots p) \<inter> set (retired p) = {}"
    by (auto simp: pool_inv_def)
  then have w: "?w \<in> set (slots p)" by simp
  have ss: "set ?s = insert ?n (set (slots p) - {?w})"
    using i d(1) by (simp add: set_update_distinct)
  have "distinct ?s" using d(1) fresh(1) by (simp add: distinct_list_update)
  moreover have "set ?s \<inter> set (retired p @ [?w]) = {}" using d(3) fresh w ss by auto
  moreover have "distinct (retired p @ [?w])" using d w by auto
  ultimately have "distinct (?s @ retired p @ [?w])" unfolding distinct_append by blast
  moreover have "\<forall>r \<in> set ?s \<union> set (retired p @ [?w]). r < ?n + 1"
    using assms(1) w ss by (auto simp: pool_inv_def less_Suc_eq)
  moreover have "\<forall>r. ((live p)(?n := True)) r \<longrightarrow> r \<in> set ?s"
    using assms(1,3) ss by (auto simp: pool_inv_def)
  moreover have "v = ?s ! j \<or> v \<in> set (retired p @ [?w])"
    if "requests p u = PHeld j v" for u j v
    using pool_inv_held [OF assms(1) that] i by (cases "j = i") auto
  ultimately show ?thesis using assms(1)
    by (auto simp: pool_inv_def ring_replace_def)
qed

lemma pool_inv_got: "pool_inv p \<Longrightarrow> pool_inv (p\<lparr>requests := (requests p)(t := PGot i w)\<rparr>)"
  by (auto simp: pool_inv_def)

lemma pool_replace_inv:
  assumes "pool_inv p" "requests p t = PSlow i" "\<not> live p (slots p ! i)"
  shows "pool_inv (pool_replace t i p)"
  using pool_inv_got [OF ring_replace_inv [OF assms(1) _ assms(3)], of t i "next_ref p"]
    pool_inv_slot [OF assms(1), of t i] assms(2)
  by (simp add: pool_replace_def ring_replace_def)

lemma pool_frame_inv:
  assumes "pool_inv p" "pstep p e = Some p'" "same_ring p p'"
  shows "pool_inv p'"
proof -
  have r: "requests p' u = requests p u \<or> requests p' u = PChosen (next_slot p) \<or>
      (\<exists>i. requests p u = PChosen i \<and> requests p' u = PHeld i (slots p ! i)) \<or>
      (\<exists>i w. requests p u = PHeld i w \<and> requests p' u = PSlow i) \<or>
      (\<exists>i w. requests p' u = PGot i w) \<or> (\<exists>x. requests p' u = PFailed x)" for u
    using assms(2) by (cases e) (auto split: pstep_splits)
  have "i < length (slots p)" if "requests p' u = PChosen i \<or> requests p' u = PSlow i" for u i
    using that r [of u] next_slot_bound [OF assms(1)] pool_inv_slot [OF assms(1), of u i]
      pool_inv_held [OF assms(1), of u i] by auto
  moreover have "i < length (slots p) \<and> (w = slots p ! i \<or> w \<in> set (retired p))"
    if "requests p' u = PHeld i w" for u i w
    using that r [of u] pool_inv_slot [OF assms(1), of u i] pool_inv_held [OF assms(1), of u i w]
    by auto
  ultimately show ?thesis using assms(1,3)
    unfolding pool_inv_def same_ring_def by auto
qed

lemma pool_step_inv:
  assumes "pool_inv p" "pstep p e = Some p'"
  shows "pool_inv p'"
  using assms(2)
  by (rule pstep_ring) (use assms in \<open>auto intro: pool_replace_inv pool_frame_inv\<close>)

lemma pool_step_known: "pstep p e = Some p' \<Longrightarrow> r < next_ref p \<Longrightarrow> r < next_ref p'"
  by (erule pstep_ring) (auto simp: same_ring_def pool_replace_defs)

lemma pool_step_down:
  "pstep p e = Some p' \<Longrightarrow> r < next_ref p \<Longrightarrow> \<not> live p r \<Longrightarrow> \<not> live p' r"
  by (erule pstep_ring) (auto simp: same_ring_def pool_replace_defs)

interpretation pool: mortal_machine pstep prun pool_inv live "\<lambda>p r. r < next_ref p"
  by unfold_locales (auto intro: pool_step_inv simp: pool_step_known pool_step_down split: option.splits)

lemma worker_step_down: "wstep enc dec w e = Some w' \<Longrightarrow> \<not> alive w \<Longrightarrow> \<not> alive w'"
  by (cases e) (auto simp: alive_def Let_def split: wstep_splits)

text \<open>The workers keep the law the pool rests on: a dead worker stays dead.\<close>

interpretation worker: mortal_machine "wstep enc dec" "wrun enc dec" "\<lambda>_. True" "\<lambda>w (_::unit). alive w"
    "\<lambda>_ _. True"
  by unfold_locales (auto dest: worker_step_down split: option.splits)


section \<open>Starting and closing\<close>

lemma close_loop_closes: "snd (close_loop cl ws i first) = ws"
  by (induction ws arbitrary: i first) (auto simp: Let_def split: prod.splits, metis snd_conv)

lemma close_range_closes: "snd (close_range cl ws i j) = take (j - i) (drop i ws)"
  by (simp add: close_range_def close_loop_closes)

lemma close_loop_error:
  "fst (close_loop cl ws i first) =
     (if first \<noteq> None then first
      else map_option (\<lambda>k. GWrap (''revelt pool: closing worker '' @ show_nat (i + k)) (the (cl (ws ! k))))
             (find (\<lambda>k. cl (ws ! k) \<noteq> None) [0..<length ws]))"
proof (induction ws arbitrary: i first)
  case (Cons w ws)
  have e: "[0..<length (w # ws)] = 0 # map Suc [0..<length ws]"
    by (simp add: upt_conv_Cons map_Suc_upt del: upt_Suc)
  have f: "find P (map Suc ks) = map_option Suc (find (P \<circ> Suc) ks)" for P ks
    by (induction ks) auto
  show ?case unfolding e
    by (cases "cl w") (auto simp: Let_def Cons.IH f comp_def option.map_comp split: prod.splits
        dest!: arg_cong [of _ _ fst])
qed simp

lemma start_loop_spec:
  "start_loop spawn cl n i started =
     (case find (\<lambda>k. spawn k \<noteq> None) [i..<i + n] of
        Some k \<Rightarrow> (Inl (GWrap (''revelt pool: starting worker '' @ show_nat k) (the (spawn k))),
                   take k (started @ [i..<k]))
      | None \<Rightarrow> (Inr (started @ [i..<i + n]), []))"
proof (induction n arbitrary: i started)
  case (Suc n)
  have e: "[i..<Suc (i + n)] = i # [Suc i..<Suc (i + n)]" by (simp add: upt_conv_Cons del: upt_Suc)
  have k: "[i..<k] = i # [Suc i..<k]" if "find P [Suc i..<Suc (i + n)] = Some k" for P k
  proof -
    from that have "k \<in> set [Suc i..<Suc (i + n)]"
      by (auto simp: find_Some_iff simp del: upt_Suc)
    then have "i < k" by auto
    then show ?thesis by (rule upt_conv_Cons)
  qed
  show ?case
    by (auto simp: Suc.IH e close_range_closes k simp del: upt_Suc split: option.splits)
qed simp


text \<open>The invariant holds of a pool that \<open>newPool\<close> returns.\<close>

lemma new_pool_ok:
  assumes "new_pool spawn cl n = (Inr p, closed)" "n < 2 ^ 63"
  shows "pool_inv p" "slots p = [0..<nat n]" "retired p = []" "next_ref p = nat n" "cursor p = 0"
    "0 < n" "requests p = (\<lambda>_. PIdle)"
  using assms
  by (auto simp: new_pool_def start_loop_spec pool_inv_def split: if_splits option.splits)

text \<open>
  A failed start leaks no process. When starting worker \<open>i\<close> is the first to fail, newPool
  returns that error and has closed exactly the workers 0, ..., i-1, in order; it returns a
  pool only if every spawn succeeded, of distinct workers, all alive, one per slot, and then
  closed none.
\<close>

theorem new_pool_all_or_nothing:
  assumes "0 < n"
  shows "new_pool spawn cl n =
     (case find (\<lambda>i. spawn i \<noteq> None) [0..<nat n] of
        Some i \<Rightarrow> (Inl (GWrap (''revelt pool: starting worker '' @ show_nat i) (the (spawn i))), [0..<i])
      | None \<Rightarrow> (Inr \<lparr>slots = [0..<nat n], live = (\<lambda>r. r < nat n), next_ref = nat n, cursor = 0,
                   psize = word_of_int n, requests = (\<lambda>_. PIdle), retired = []\<rparr>, []))"
  using assms by (auto simp: new_pool_def start_loop_spec split: option.splits)

theorem new_pool_all_or_nothing_witness:
  "new_pool (\<lambda>i. if i = 1 then Some (GErr ''fork'') else None) (\<lambda>_. None) 3 =
     (Inl (GWrap ''revelt pool: starting worker 1'' (GErr ''fork'')), [0])"
  using new_pool_all_or_nothing [of 3 "\<lambda>i. if i = 1 then Some (GErr ''fork'') else None" "\<lambda>_. None"]
  by (simp add: upt_rec show_nat.simps)

text \<open>Shutdown closes the worker of every slot, in order, and reports the first failure.\<close>

lemma pool_close_eq:
  "pool_close cl p =
     (map_option (\<lambda>i. GWrap (''revelt pool: closing worker '' @ show_nat i) (the (cl (slots p ! i))))
        (find (\<lambda>i. cl (slots p ! i) \<noteq> None) [0..<length (slots p)]),
      slots p)"
  by (rule prod_eqI) (simp_all add: pool_close_def close_range_closes, simp add: close_range_def close_loop_error)

section \<open>Serving\<close>

fun is_add :: "pevent \<Rightarrow> bool" where
  "is_add (PAdd t) = True"
| "is_add _ = False"

fun is_death :: "pevent \<Rightarrow> bool" where
  "is_death (PDie r) = True"
| "is_death _ = False"

text \<open>The slots drawn in a run, in order.\<close>

fun draws :: "pool \<Rightarrow> pevent list \<Rightarrow> nat list" where
  "draws p [] = []"
| "draws p (e # es) =
     (case pstep p e of
        None \<Rightarrow> []
      | Some p' \<Rightarrow> (if is_add e then [next_slot p] else []) @ draws p' es)"

lemma pstep_cursor:
  assumes "pstep p e = Some p'"
  shows "cursor p' = (if is_add e then cursor p + 1 else cursor p)" "psize p' = psize p"
    "length (slots p') = length (slots p)"
  using assms by (cases e; auto split: pstep_splits)+

lemma draws_length: "prun p es = Some q \<Longrightarrow> length (draws p es) = length (filter is_add es)"
  by (induction es arbitrary: p) (auto split: option.splits)

lemma draws_sequence:
  assumes "prun p es = Some q" "pool_inv p" "unat (cursor p) + length (draws p es) < 2 ^ 64"
  shows "draws p es = map (\<lambda>k. k mod length (slots p))
           [unat (cursor p) + 1..<unat (cursor p) + 1 + length (draws p es)]"
  using assms
proof (induction es arbitrary: p)
  case (Cons e es)
  from Cons.prems(1) obtain p' where p': "pstep p e = Some p'" "prun p' es = Some q"
    by (rule pool.run_ConsE)
  note inv' = pool_step_inv [OF Cons.prems(2) p'(1)]
  show ?case
  proof (cases "is_add e")
    case False
    with Cons.IH [OF p'(2) inv'] Cons.prems p' show ?thesis by (simp add: pstep_cursor [OF p'(1)])
  next
    case True
    with p' Cons.prems(3) have b: "unat (cursor p) + 1 + length (draws p' es) < 2 ^ 64" by simp
    then have c: "unat (cursor p + 1) = unat (cursor p) + 1" by (intro unat_next) auto
    have n: "next_slot p = (unat (cursor p) + 1) mod length (slots p)"
      by (simp add: next_slot_def unat_mod c pool_inv_size [OF Cons.prems(2)])
    have "draws p' es = map (\<lambda>k. k mod length (slots p))
        [unat (cursor p) + 2..<unat (cursor p) + 2 + length (draws p' es)]"
      using Cons.IH [OF p'(2) inv'] b True by (simp add: pstep_cursor [OF p'(1)] c)
    moreover have "[unat (cursor p) + 1..<unat (cursor p) + 1 + Suc m] =
        (unat (cursor p) + 1) # [unat (cursor p) + 2..<unat (cursor p) + 2 + m]" for m
      by (simp add: upt_conv_Cons del: upt_Suc)
    moreover have "draws p (e # es) = next_slot p # draws p' es" using p' True by simp
    ultimately show ?thesis using n by (simp del: upt_Suc)
  qed
qed simp


lemma count_mod_block:
  assumes "i < n"
  shows "count_list (map (\<lambda>k. k mod n) [a..<a + n]) i = 1"
proof (induction a)
  case 0
  have "map (\<lambda>k. k mod n) [0..<n] = [0..<n]" by (rule map_idI) simp
  moreover have "count_list [0..<n] i = 1" using assms by (induction n) auto
  ultimately show ?case by simp
next
  case (Suc a)
  from assms have "[a..<a + n] = a # [Suc a..<a + n]" by (simp add: upt_conv_Cons)
  moreover from assms have "[Suc a..<Suc a + n] = [Suc a..<a + n] @ [a + n]" by simp
  ultimately show ?case using Suc by (simp split: if_splits)
qed

lemma count_mod:
  assumes "i < n"
  shows "count_list (map (\<lambda>k. k mod n) [a..<a + m]) i \<in> {m div n, m div n + 1}"
proof (induction m arbitrary: a rule: less_induct)
  case (less m)
  show ?case
  proof (cases "m < n")
    case True
    then have "[a..<a + n] = [a..<a + m] @ [a + m..<a + n]"
      using upt_add_eq_append [of a "a + m" "n - m"] by simp
    with count_mod_block [OF assms, of a] True show ?thesis by auto
  next
    case False
    then have "[a..<a + m] = [a..<a + n] @ [a + n..<(a + n) + (m - n)]"
      using upt_add_eq_append [of a "a + n" "m - n"] by simp
    moreover have "m div n = (m - n) div n + 1" using False assms by (simp add: le_div_geq)
    ultimately show ?thesis
      using less [of "m - n" "a + n"] False assms count_mod_block [OF assms, of a] by auto
  qed
qed


definition demo_pool :: pool where
  "demo_pool = \<lparr>slots = [0, 1], live = (\<lambda>r. r < 2), next_ref = 2, cursor = 0, psize = 2,
     requests = (\<lambda>_. PIdle), retired = []\<rparr>"

lemma demo_pool_new: "new_pool (\<lambda>_. None) (\<lambda>_. None) 2 = (Inr demo_pool, [])"
  by (simp add: new_pool_def demo_pool_def numeral_2_eq_2)


lemma pstep_got:
  assumes "pstep p e = Some p'" "requests p t \<noteq> PGot i w" "requests p' t = PGot i w"
  obtains "requests p t = PHeld i w" "live p w" "slots p' = slots p" "live p' = live p"
    | "requests p t = PSlow i" "live p (slots p ! i)" "w = slots p ! i" "slots p' = slots p" "live p' = live p"
    | "requests p t = PSlow i" "w = next_ref p" "p' = pool_replace t i p"
  using assms by (cases e) (auto simp: pool_replace_defs split: pstep_splits)

text \<open>
  C8: a request is handed a worker that serves its slot and is alive at that moment, although
  the read of the slot, the liveness check and the replacement are separate critical sections:
  in every run, whenever a step completes the acquisition of request \<open>t\<close> with worker
  \<open>w\<close> of slot \<open>i\<close>, slot \<open>i\<close> exists and holds \<open>w\<close>, and \<open>w\<close> is alive.
\<close>

theorem acquired_is_live:
  assumes "new_pool spawn cl n = (Inr p0, closed)" "n < 2 ^ 63" "prun p0 es = Some p"
    "pstep p e = Some p'" "requests p t \<noteq> PGot i w" "requests p' t = PGot i w"
  shows "i < nat n \<and> slots p' ! i = w \<and> live p' w"
proof -
  note ok = new_pool_ok [OF assms(1,2)]
  have inv: "pool_inv p" by (rule pool.machine_inv [OF assms(3) ok(1)])
  have "length (slots q) = length (slots p0)" if "prun p0 es = Some q" for q
    using that by (rule pool.run_rel) (auto dest: pstep_cursor(3))
  with assms(3) ok have len: "length (slots p) = nat n" by simp
  have live: "r \<in> set (slots p)" if "live p r" for r using inv that by (auto simp: pool_inv_def)
  from assms(4-6) show ?thesis
  proof (rule pstep_got)
    assume *: "requests p t = PHeld i w" "live p w" "slots p' = slots p" "live p' = live p"
    from live [OF *(2)] inv have "w \<notin> set (retired p)" by (auto simp: pool_inv_def)
    with pool_inv_held [OF inv *(1)] * len show ?thesis by auto
  next
    assume "requests p t = PSlow i" "w = next_ref p" "p' = pool_replace t i p"
    with pool_inv_slot [OF inv, of t i] len show ?thesis by (simp add: pool_replace_defs)
  next
    assume "requests p t = PSlow i" "live p (slots p ! i)" "w = slots p ! i" "slots p' = slots p"
      "live p' = live p"
    with pool_inv_slot [OF inv, of t i] len show ?thesis by simp
  qed
qed

theorem acquired_is_live_witness:
  "\<exists>p p'. prun demo_pool [PAdd 7, PRead 7, PDie 1, PFast 7] = Some p \<and>
     pstep p (PReplace 7 None) = Some p' \<and> slots p' ! 1 = 2 \<and> live p' 2"
proof -
  obtain p p' where r: "prun demo_pool [PAdd 7, PRead 7, PDie 1, PFast 7] = Some p"
    "pstep p (PReplace 7 None) = Some p'" "requests p 7 = PSlow 1" "requests p' 7 = PGot 1 2"
    by (simp add: demo_pool_def next_slot_def)
  have "(2::int) < 2 ^ 63" by simp
  from acquired_is_live [OF demo_pool_new this r(1,2) _ r(4)] r show ?thesis by auto
qed


section \<open>Replacement\<close>

definition dead_refs :: "pool \<Rightarrow> wref set" where
  "dead_refs p = {r. r < next_ref p \<and> \<not> live p r}"

lemma finite_dead [simp]: "finite (dead_refs p)"
  by (rule finite_subset [of _ "{..<next_ref p}"]) (auto simp: dead_refs_def)

lemma pstep_counts:
  assumes "pstep p e = Some p'" "pool_inv p"
  shows "card (dead_refs p') = card (dead_refs p) + (if is_death e then 1 else 0)"
    and "next_ref p' + length (retired p) = next_ref p + length (retired p')"
proof -
  show "next_ref p' + length (retired p) = next_ref p + length (retired p')"
    using assms(1) by (rule pstep_ring) (auto simp: same_ring_def pool_replace_defs)
  show "card (dead_refs p') = card (dead_refs p) + (if is_death e then 1 else 0)"
  proof (cases "is_death e")
    case True
    then obtain r where e: "e = PDie r" by (cases e) auto
    with assms have "live p r" "p' = p\<lparr>live := (live p)(r := False)\<rparr>" "r < next_ref p"
      by (auto simp: pool_inv_def split: if_splits)
    then have "dead_refs p' = insert r (dead_refs p)" "r \<notin> dead_refs p" by (auto simp: dead_refs_def)
    with True show ?thesis by simp
  next
    case False
    then have "dead_refs p' = dead_refs p"
      using assms(1) by (cases e) (auto simp: dead_refs_def less_Suc_eq split: pstep_splits)
    with False show ?thesis by simp
  qed
qed

lemma prun_counts:
  assumes "prun p es = Some q" "pool_inv p"
  shows "card (dead_refs q) = card (dead_refs p) + length (filter is_death es) \<and>
     next_ref q + length (retired p) = next_ref p + length (retired q)"
  using assms by (rule pool.run_induct) (auto simp: pstep_counts(1) dest: pstep_counts(2))

lemma retired_dead:
  assumes "pool_inv p"
  shows "set (retired p) \<subseteq> dead_refs p"
  using assms by (auto simp: pool_inv_def dead_refs_def)

text \<open>
  C6: one death, at most one replacement. In every run the pool has started \<open>n\<close> workers plus
  one for each worker it took out of a slot; the workers taken out are distinct, all of them
  had died, and there are never more of them than processes that died, however many requests
  found the same slot dead at the same time: no worker is started in vain and none that is
  alive is dropped.
\<close>

theorem one_spawn_per_death:
  assumes "new_pool spawn cl n = (Inr p, closed)" "n < 2 ^ 63" "prun p es = Some q"
  shows "next_ref q = nat n + length (retired q) \<and> distinct (retired q) \<and>
     (\<forall>r \<in> set (retired q). \<not> live q r) \<and>
     length (retired q) \<le> length (filter is_death es)"
proof -
  note ok = new_pool_ok [OF assms(1,2)]
  have inv: "pool_inv q" by (rule pool.machine_inv [OF assms(3) ok(1)])
  have "dead_refs p = {}" using assms(1)
    by (auto simp: dead_refs_def new_pool_def start_loop_spec split: if_splits option.splits)
  with prun_counts [OF assms(3) ok(1)] ok
  have c: "card (dead_refs q) = length (filter is_death es)" "next_ref q = nat n + length (retired q)"
    by simp_all
  have "length (retired q) = card (set (retired q))"
    using inv by (simp add: pool_inv_def distinct_card)
  also have "\<dots> \<le> card (dead_refs q)" by (rule card_mono) (simp_all add: retired_dead [OF inv])
  finally show ?thesis
    using c inv retired_dead [OF inv] by (auto simp: pool_inv_def dead_refs_def)
qed

definition demo_race :: "pevent list" where
  "demo_race = [PAdd 7, PAdd 8, PAdd 9, PDie 1, PRead 7, PRead 9, PFast 7, PFast 9,
     PReplace 7 None, PReplace 9 None]"

theorem one_spawn_per_death_witness:
  "\<exists>q. prun demo_pool demo_race = Some q \<and> requests q 7 = PGot 1 2 \<and> requests q 9 = PGot 1 2 \<and>
     next_ref q = 3 \<and> length (retired q) \<le> 1"
proof -
  obtain q where q: "prun demo_pool demo_race = Some q" "requests q 7 = PGot 1 2"
    "requests q 9 = PGot 1 2" "next_ref q = 3"
    by (simp add: demo_pool_def demo_race_def next_slot_def)
  have "(2::int) < 2 ^ 63" by simp
  from one_spawn_per_death [OF demo_pool_new this q(1)] q show ?thesis by (simp add: demo_race_def)
qed



text \<open>
  The pool recovers. In every state it can reach, a request that arrives and runs to the
  end of the acquisition gets a worker that is alive if its slot's worker is alive or the
  replacement can be started, and otherwise the error of the failed start, with the slot
  unchanged; it is never handed a dead worker and never waits for another request.
\<close>

theorem acquisition_outcome:
  assumes "new_pool spawn cl n = (Inr p0, closed)" "n < 2 ^ 63" "prun p0 es = Some p"
    "requests p t = PIdle" "i = next_slot p"
    "fs = (if live p (slots p ! i) then [PAdd t, PRead t, PFast t]
           else [PAdd t, PRead t, PFast t, PReplace t spawned])"
  shows "\<exists>q. prun p fs = Some q \<and>
     (if live p (slots p ! i) then requests q t = PGot i (slots p ! i) \<and> slots q = slots p
      else case spawned of
          None \<Rightarrow> requests q t = PGot i (next_ref p) \<and> slots q = (slots p)[i := next_ref p] \<and>
            live q (next_ref p)
        | Some e \<Rightarrow> requests q t = PFailed (GWrap ''revelt pool: acquiring worker''
            (GWrap (''replacing dead worker at slot '' @ show_nat i) e)) \<and> slots q = slots p)"
  using assms(4-6) by (auto split: option.splits)

theorem acquisition_outcome_witness:
  "\<exists>p q. prun demo_pool [PDie 1] = Some p \<and> prun p [PAdd 7, PRead 7, PFast 7, PReplace 7 None] = Some q \<and>
     requests q 7 = PGot 1 2 \<and> live q 2"
proof -
  obtain p where p: "prun demo_pool [PDie 1] = Some p" "requests p 7 = PIdle" "next_slot p = 1"
    "\<not> live p (slots p ! 1)" "next_ref p = 2"
    by (simp add: demo_pool_def next_slot_def)
  have "(2::int) < 2 ^ 63" by simp
  from acquisition_outcome [OF demo_pool_new this p(1,2) p(3) [symmetric] refl, of None] p show ?thesis by auto
qed

end
