(* ===== verification/Json_Text.thy ===== *)
theory Json_Text
  imports Json
begin

text \<open>
  A marshalled value is well-formed UTF-8, whatever bytes the Go strings in it hold: the
  encoder copies a byte sequence only when it decodes to a code point, and writes an
  ill-formed byte as an escape.
\<close>

lemma digits_two: "y < 64 \<Longrightarrow> (x * 64 + y) div 64 = x \<and> (x * 64 + y) mod 64 = y" for x y :: nat
  by simp

lemma digits_three:
  fixes x y z :: nat
  assumes "y < 64" "z < 64"
  shows "(x * 4096 + y * 64 + z) div 4096 = x" "(x * 4096 + y * 64 + z) div 64 mod 64 = y"
    "(x * 4096 + y * 64 + z) mod 64 = z"
proof -
  have e: "x * 4096 + y * 64 + z = (x * 64 + y) * 64 + z" by simp
  have d: "((x * 64 + y) * 64 + z) div 64 = x * 64 + y" using digits_two [OF assms(2)] by blast
  show "(x * 4096 + y * 64 + z) div 64 mod 64 = y" unfolding e d using assms(1) by simp
  show "(x * 4096 + y * 64 + z) mod 64 = z" unfolding e
    using digits_two [OF assms(2)] by blast
  have "(x * 4096 + y * 64 + z) div 4096 = (x * 4096 + y * 64 + z) div 64 div 64"
    by (simp add: div_mult2_eq [symmetric])
  then show "(x * 4096 + y * 64 + z) div 4096 = x" unfolding e d using assms(1) by simp
qed

lemma digits_four:
  fixes x y z w :: nat
  assumes "y < 64" "z < 64" "w < 64"
  shows "(x * 262144 + y * 4096 + z * 64 + w) div 262144 = x"
    "(x * 262144 + y * 4096 + z * 64 + w) div 4096 mod 64 = y"
    "(x * 262144 + y * 4096 + z * 64 + w) div 64 mod 64 = z"
    "(x * 262144 + y * 4096 + z * 64 + w) mod 64 = w"
proof -
  have e: "x * 262144 + y * 4096 + z * 64 + w = (x * 64 + y) * 4096 + z * 64 + w" by simp
  note t = digits_three [OF assms(2,3), of "x * 64 + y"]
  show "(x * 262144 + y * 4096 + z * 64 + w) div 64 mod 64 = z"
    "(x * 262144 + y * 4096 + z * 64 + w) mod 64 = w" unfolding e t by simp_all
  show "(x * 262144 + y * 4096 + z * 64 + w) div 4096 mod 64 = y" unfolding e t using assms(1) by simp
  have "(x * 262144 + y * 4096 + z * 64 + w) div 262144 =
      (x * 262144 + y * 4096 + z * 64 + w) div 4096 div 64" by (simp add: div_mult2_eq [symmetric])
  then show "(x * 262144 + y * 4096 + z * 64 + w) div 262144 = x" unfolding e t using assms(1) by simp
qed

lemma raw_two: "2 \<le> x \<Longrightarrow> x < 32 \<Longrightarrow> y < 64 \<Longrightarrow> write_rune_raw (x * 64 + y) = [0xC0 + x, 0x80 + y]"
  by (simp add: write_rune_raw_def)

lemma raw_three:
  assumes "x < 16" "y < 64" "z < 64" "x = 0 \<Longrightarrow> 32 \<le> y"
  shows "write_rune_raw (x * 4096 + y * 64 + z) = [0xE0 + x, 0x80 + y, 0x80 + z]"
proof -
  have "\<not> x * 4096 + y * 64 + z < 0x800" using assms(4) by (cases "x = 0") auto
  moreover have "x * 4096 + y * 64 + z < 0x10000" using assms(1-3) by linarith
  ultimately show ?thesis unfolding write_rune_raw_def digits_three [OF assms(2,3)] by simp
qed

lemma raw_four:
  assumes "x < 5" "y < 64" "z < 64" "w < 64" "x = 0 \<Longrightarrow> 16 \<le> y"
  shows "write_rune_raw (x * 262144 + y * 4096 + z * 64 + w) =
     [0xF0 + x, 0x80 + y, 0x80 + z, 0x80 + w]"
proof -
  have "\<not> x * 262144 + y * 4096 + z * 64 + w < 0x10000" using assms(5) by (cases "x = 0") auto
  then show ?thesis unfolding write_rune_raw_def digits_four [OF assms(2-4)] by simp
qed

lemma cont_split: "cont b \<Longrightarrow> \<exists>y. b = 0x80 + y \<and> y < 64"
  by (rule exI [of _ "b - 0x80"]) (auto simp: cont_def)

text \<open>Encoding a decoded code point gives the bytes it was decoded from.\<close>

lemma encode_decode:
  assumes "bs \<noteq> []" "decode_rune bs \<noteq> (rune_error, 1)"
  shows "write_rune_raw (fst (decode_rune bs)) = take (snd (decode_rune bs)) bs"
proof -
  obtain b0 cs where bs: "bs = b0 # cs" using assms(1) by (cases bs) auto
  consider "b0 < 0x80" | "0xC2 \<le> b0" "b0 < 0xE0" | "0xE0 \<le> b0" "b0 < 0xF0" | "0xF0 \<le> b0" "b0 < 0xF5"
    using assms(2) unfolding bs by (auto split: if_splits)
  then show ?thesis
  proof cases
    case 1
    then show ?thesis by (simp add: bs write_rune_raw_def)
  next
    case 2
    with assms(2) obtain b1 ds where cs: "cs = b1 # ds" "cont b1"
      by (cases cs) (auto simp: bs split: if_splits)
    from cont_split [OF cs(2)] obtain y where y: "b1 = 0x80 + y" "y < 64" by blast
    from 2 obtain x where x: "b0 = 0xC0 + x" "2 \<le> x" "x < 32"
      using le_Suc_ex [of "0xC0" b0] by auto
    show ?thesis using raw_two [OF x(2,3) y(2)] cs(2) x y(2) by (simp add: bs cs(1) y(1))
  next
    case 3
    with assms(2) obtain b1 b2 ds where cs: "cs = b1 # b2 # ds" "cont b1" "cont b2"
      "b0 = 0xE0 \<longrightarrow> 0xA0 \<le> b1" "b0 = 0xED \<longrightarrow> b1 < 0xA0"
      by (auto simp: bs split: if_splits list.splits)
    from cont_split [OF cs(2)] obtain y where y: "b1 = 0x80 + y" "y < 64" by blast
    from cont_split [OF cs(3)] obtain z where z: "b2 = 0x80 + z" "z < 64" by blast
    from 3 obtain x where x: "b0 = 0xE0 + x" "x < 16"
      using le_Suc_ex [of "0xE0" b0] by auto
    have "x = 0 \<Longrightarrow> 32 \<le> y" using cs(4) x y by auto
    from raw_three [OF x(2) y(2) z(2) this] cs x y(2) z(2) show ?thesis
      by (auto simp: bs cs(1) y(1) z(1))
  next
    case 4
    with assms(2) obtain b1 b2 b3 ds where cs: "cs = b1 # b2 # b3 # ds" "cont b1" "cont b2" "cont b3"
      "b0 = 0xF0 \<longrightarrow> 0x90 \<le> b1" "b0 = 0xF4 \<longrightarrow> b1 < 0x90"
      by (auto simp: bs split: if_splits list.splits)
    from cont_split [OF cs(2)] obtain y where y: "b1 = 0x80 + y" "y < 64" by blast
    from cont_split [OF cs(3)] obtain z where z: "b2 = 0x80 + z" "z < 64" by blast
    from cont_split [OF cs(4)] obtain w where w: "b3 = 0x80 + w" "w < 64" by blast
    from 4 obtain x where x: "b0 = 0xF0 + x" "x < 5"
      using le_Suc_ex [of "0xF0" b0] by auto
    have "x = 0 \<Longrightarrow> 16 \<le> y" using cs(5) x y by auto
    from raw_four [OF x(2) y(2) z(2) w(2) this] cs x y(2) z(2) w(2) show ?thesis
      by (auto simp: bs cs(1) y(1) z(1) w(1))
  qed
qed

definition text8 :: "string \<Rightarrow> bool" where
  "text8 s \<longleftrightarrow> (\<exists>rs. (\<forall>r \<in> set rs. valid_rune r) \<and> s = write_runes rs)"

lemma text8_valid: "text8 s \<Longrightarrow> valid_utf8 s"
  by (auto simp: text8_def valid_utf8_write)

lemma text8_append [simp]: "text8 s \<Longrightarrow> text8 t \<Longrightarrow> text8 (s @ t)"
proof -
  assume "text8 s" "text8 t"
  then obtain rs ts where "\<forall>r \<in> set (rs @ ts). valid_rune r" "s @ t = write_runes (rs @ ts)"
    by (auto simp: text8_def write_runes_def)
  then show ?thesis unfolding text8_def by blast
qed

lemma text8_rune: "valid_rune r \<Longrightarrow> text8 (write_rune r)"
  unfolding text8_def by (rule exI [of _ "[r]"]) (simp add: write_runes_def)

lemma text8_ascii: "\<forall>c \<in> set s. is_ascii c \<Longrightarrow> text8 s"
proof -
  assume a: "\<forall>c \<in> set s. is_ascii c"
  have "s = write_runes (map of_char s)" using a
    by (induction s) (auto simp: write_runes_def write_rune_ascii is_ascii_def)
  with a show ?thesis unfolding text8_def
    by (intro exI [of _ "map of_char s"]) (auto simp: is_ascii_def valid_rune_def)
qed


lemma is_ascii_byte: "b < 128 \<Longrightarrow> is_ascii (char_of b)" for b :: nat
  by (simp add: is_ascii_def)

lemma ascii_show_nat: "c \<in> set (show_nat n) \<Longrightarrow> is_ascii c"
  using show_nat_digits [of c n] by (simp add: is_ascii_def)

lemma ascii_digit: "is_ascii (digit (d mod 10))"
proof -
  have "48 + d mod 10 < 128" using mod_less_divisor [of 10 d] by linarith
  then show ?thesis unfolding digit_def by (rule is_ascii_byte)
qed

lemma ascii_hex: "d < 16 \<Longrightarrow> is_ascii (hex_digit d)"
  by (auto simp: hex_digit_def intro!: is_ascii_byte)

lemma ascii_json_ascii:
  assumes "b < 128" "c \<in> set (json_ascii b)"
  shows "is_ascii c"
proof -
  have "b div 16 < 16" "b mod 16 < 16" using assms(1) by auto
  then have "is_ascii (hex_digit (b div 16))" "is_ascii (hex_digit (b mod 16))" "is_ascii (char_of b)"
    using assms(1) by (auto intro: ascii_hex is_ascii_byte)
  moreover have "is_ascii backslash" "is_ascii (CHR ''b'')" "is_ascii (CHR ''f'')" "is_ascii (CHR ''n'')"
    "is_ascii (CHR ''r'')" "is_ascii (CHR ''t'')" "is_ascii (CHR ''u'')" "is_ascii (CHR ''0'')"
    by (simp_all add: is_ascii_def backslash_def)
  ultimately show ?thesis using assms(2) by (auto simp: json_ascii_def split: if_splits)
qed

lemma ascii_literals [simp]:
  "is_ascii backslash" "is_ascii (CHR 0x22)"
  by (simp_all add: is_ascii_def backslash_def)

lemma text8_json_rune:
  assumes "bs \<noteq> []" "\<forall>b \<in> set bs. b < 256"
  shows "text8 (json_rune (fst (decode_rune bs)) (snd (decode_rune bs)) bs)"
proof -
  let ?r = "fst (decode_rune bs)" and ?n = "snd (decode_rune bs)"
  consider "?r < 128" | "128 \<le> ?r" "?r = rune_error \<and> ?n = 1 \<or> ?r \<in> {0x2028, 0x2029}"
    | "128 \<le> ?r" "\<not> (?r = rune_error \<and> ?n = 1)" "?r \<notin> {0x2028, 0x2029}" by linarith
  then show ?thesis
  proof cases
    case 1
    then show ?thesis by (auto simp: json_rune_def intro!: text8_ascii dest: ascii_json_ascii)
  next
    case 2
    then show ?thesis
      by (auto simp: json_rune_def intro!: text8_ascii) (simp_all add: is_ascii_def rune_error_def)
  next
    case 3
    then have "decode_rune bs \<noteq> (rune_error, 1)" by auto
    from encode_decode [OF assms(1) this] have "write_rune ?r = bytes (take ?n bs)"
      using decode_valid [OF assms(1)] by (simp add: write_rune_def)
    with text8_rune [OF decode_valid [OF assms(1)]] 3 show ?thesis by (auto simp: json_rune_def)
  qed
qed

lemma text8_json_chars: "\<forall>b \<in> set bs. b < 256 \<Longrightarrow> text8 (json_chars bs)"
proof (induction bs rule: json_chars.induct)
  case (1 bs)
  show ?case
  proof (cases "bs = []")
    case True
    then show ?thesis by (simp add: json_chars.simps text8_ascii)
  next
    case False
    have "text8 (json_chars (drop (snd (decode_rune bs)) bs))"
      using "1.prems" by (intro "1.IH" [OF False]) (auto dest: in_set_dropD)
    with text8_json_rune [OF False "1.prems"] False show ?thesis
      by (subst json_chars.simps) simp
  qed
qed

lemma text8_Cons: "is_ascii c \<Longrightarrow> text8 s \<Longrightarrow> text8 (c # s)"
  using text8_append [of "[c]" s] text8_ascii [of "[c]"] by simp

lemma text8_Nil [simp]: "text8 []"
  by (rule text8_ascii) simp

lemma text8_json_string [simp]: "text8 (json_string s)"
  by (simp add: json_string_def text8_Cons text8_json_chars [OF of_char_bounded])

lemma text8_join: "(\<And>x. x \<in> set xs \<Longrightarrow> text8 x) \<Longrightarrow> text8 sep \<Longrightarrow> text8 (join xs sep)"
  by (induction xs sep rule: join.induct) auto

lemmas text8_simps = text8_Cons is_ascii_def

lemma text8_show_nat [simp]: "text8 (show_nat n)"
  by (rule text8_ascii) (auto dest: ascii_show_nat)

lemma marshal_text8: "marshal v = Inr s \<Longrightarrow> text8 s"
proof (induction v arbitrary: s rule: marshal.induct)
  case (4 neg whole frac expo)
  have "text8 (map (\<lambda>d. digit (d mod 10)) frac)" by (rule text8_ascii) (auto simp: ascii_digit)
  with 4 show ?case by (auto simp: json_float_def text8_simps split: option.splits)
next
  case (6 xs)
  from "6.prems" obtain vs where vs: "map marshal xs = map Inr vs" "s = ''['' @ join vs '','' @ '']''"
    by (auto simp: map_go_Inr seq_go_Inr)
  have "text8 v" if "v \<in> set vs" for v
  proof -
    from that have "Inr v \<in> set (map marshal xs)" unfolding vs(1) by auto
    then obtain x where x: "x \<in> set xs" "Inr v = marshal x" unfolding set_map by blast
    from "6.IH" [OF x(1) x(2) [symmetric]] show ?thesis .
  qed
  then have "text8 (join vs '','')" by (intro text8_join) (simp_all add: text8_simps)
  with vs(2) show ?case by (simp add: text8_simps)
next
  case (7 kvs)
  let ?rs = "sort_key fst (map (\<lambda>(k, v). (k, marshal v)) kvs)"
  from "7.prems" obtain fs where fs: "map json_field ?rs = map Inr fs" "s = ''{'' @ join fs '','' @ ''}''"
    by (auto simp: map_go_Inr seq_go_Inr)
  have "text8 f" if "f \<in> set fs" for f
  proof -
    from that have "Inr f \<in> set (map json_field ?rs)" unfolding fs(1) by auto
    then obtain k v where kv: "(k, v) \<in> set kvs" "json_field (k, marshal v) = Inr f" by auto
    then obtain t where t: "marshal v = Inr t" "f = json_string k @ '':'' @ t"
      by (auto simp: json_field_def map_go_Inr)
    from "7.IH" [OF kv(1) refl t(1)] t(2) show ?thesis by (simp add: text8_simps)
  qed
  then have "text8 (join fs '','')" by (intro text8_join) (simp_all add: text8_simps)
  with fs(2) show ?case by (simp add: text8_simps)
qed (auto simp: text8_simps show_int_def)

end
