(* ===== verification/Renderer_Claims.thy ===== *)
theory Renderer_Claims
  imports Renderer Pool_Claims Json_Text
begin

text \<open>
  What the renderer promises: properties placed in an HTML attribute survive it and cannot end
  it, client-only components never reach Node, unknown components are refused, and a renderer
  that fails to start has stopped every process it started.
\<close>

section \<open>Escaping\<close>

text \<open>Decoding the five character references, as an HTML parser reads an attribute value.\<close>

fun unescape_html :: "string \<Rightarrow> string" where
  "unescape_html [] = []"
| "unescape_html (c # s) =
     (if prefix ''&amp;'' (c # s) then CHR ''&'' # unescape_html (drop 4 s)
      else if prefix ''&lt;'' (c # s) then CHR ''<'' # unescape_html (drop 3 s)
      else if prefix ''&gt;'' (c # s) then CHR ''>'' # unescape_html (drop 3 s)
      else if prefix ''&quot;'' (c # s) then CHR 0x22 # unescape_html (drop 5 s)
      else if prefix ''&#039;'' (c # s) then CHR 0x27 # unescape_html (drop 5 s)
      else c # unescape_html s)"

definition markup :: "char set" where
  "markup = {CHR ''<'', CHR ''>'', CHR 0x22, CHR 0x27}"

lemma unescape_plain: "\<forall>c \<in> set u. c \<noteq> CHR ''&'' \<Longrightarrow> unescape_html (u @ s) = u @ unescape_html s"
  by (induction u) auto

lemma char_of_inj: "a < 256 \<Longrightarrow> b < 256 \<Longrightarrow> char_of a = (char_of b :: char) \<longleftrightarrow> a = b" for a b :: nat
  by (metis nat_of_char_less_256 of_char_of of_char_mod_256 mod_less)

lemma markup_codes:
  "char_of (38::nat) = CHR ''&''" "char_of (60::nat) = CHR ''<''" "char_of (62::nat) = CHR ''>''"
  "char_of (34::nat) = CHR 0x22" "char_of (39::nat) = CHR 0x27"
  by code_simp+

lemma write_rune_no_markup:
  assumes "r \<notin> {0x26, 0x3C, 0x3E, 0x22, 0x27}" "c \<in> set (write_rune r)"
  shows "c \<noteq> CHR ''&'' \<and> c \<notin> markup"
proof (cases "r < 128")
  case True
  with assms(2) have "c = char_of r" by (simp add: write_rune_ascii)
  then show ?thesis using assms(1) True
    by (auto simp: markup_def markup_codes [symmetric] char_of_inj simp del: char_of_eq_iff)
next
  case False
  with assms(2) have "\<not> is_ascii c" by (intro write_rune_high [of r]) auto
  then show ?thesis by (auto simp: markup_def is_ascii_def)
qed

lemma unescape_rune: "unescape_html (escape_rune r @ s) = write_rune r @ unescape_html s"
proof (cases "r \<in> {0x26, 0x3C, 0x3E, 0x22, 0x27}")
  case True
  then show ?thesis by (auto simp: escape_rune_def write_rune_ascii markup_codes)
next
  case False
  with write_rune_no_markup [OF False] show ?thesis
    by (auto simp: escape_rune_def unescape_plain)
qed

lemma unescape_escape: "unescape_html (escape_html s) = write_runes (range_runes s)"
proof -
  have "unescape_html (concat (map escape_rune rs)) = write_runes rs" for rs
    by (induction rs) (auto simp: unescape_rune write_runes_def)
  then show ?thesis by (simp add: escape_html_def)
qed

lemma escape_rune_safe: "c \<in> set (escape_rune r) \<Longrightarrow> c \<notin> markup"
proof (cases "r \<in> {0x26, 0x3C, 0x3E, 0x22, 0x27}")
  case True
  moreover assume "c \<in> set (escape_rune r)"
  ultimately show ?thesis by (auto simp: escape_rune_def markup_def)
next
  case False
  moreover assume "c \<in> set (escape_rune r)"
  ultimately show ?thesis using write_rune_no_markup [of r c] by (auto simp: escape_rune_def)
qed

lemma escape_html_safe: "set (escape_html s) \<inter> markup = {}"
  by (auto simp: escape_html_def dest: escape_rune_safe)


text \<open>
  A value placed in a double- or single-quoted HTML attribute by escapeHTML stays there and
  arrives unchanged: the escaped text has no quote and no angle bracket, and decoding its
  character references gives back the code points that were written.
\<close>

theorem escape_html_attribute:
  "set (escape_html s) \<inter> markup = {} \<and> unescape_html (escape_html s) = write_runes (range_runes s)"
  by (simp add: escape_html_safe unescape_escape)

section \<open>Rendering\<close>

text \<open>A list of requests served one after the other.\<close>

fun render_all ::
  "(rune \<Rightarrow> bool) \<Rightarrow> 's render_service \<Rightarrow> config \<Rightarrow> project_config option \<Rightarrow> 's \<Rightarrow>
   (string \<times> props) list \<Rightarrow> string go list \<times> 's" where
  "render_all ip svc cfg pc s [] = ([], s)"
| "render_all ip svc cfg pc s ((cname, ps) # rs) =
     (let (r, s') = render ip svc cfg pc s cname ps; (out, s'') = render_all ip svc cfg pc s' rs
      in (r # out, s''))"

text \<open>
  The interface between the renderer and what serves its requests: a state and an invariant
  the service keeps. What the renderer adds keeps it too, and a page it returns is the
  service's answer or the placeholder of a client-only component.
\<close>

locale render_backend =
  fixes svc :: "'s render_service" and ok :: "'s \<Rightarrow> bool"
  assumes svc_ok: "ok s \<Longrightarrow> ok (snd (svc s timeout cname ps))"
begin

lemma ssr_ok: "ok s \<Longrightarrow> ok (snd (ssr_render ip svc cfg s cname ps))"
  using svc_ok [of s "if 0 < render_timeout cfg then Some (render_timeout cfg) else None" cname ps]
  by (auto simp: ssr_render_def split: prod.splits sum.splits)

lemma render_ok: "ok s \<Longrightarrow> ok (snd (render ip svc cfg pc s cname ps))"
  by (auto simp: render_def ssr_ok split: option.splits sum.splits)

lemma render_all_ok: "ok s \<Longrightarrow> ok (snd (render_all ip svc cfg pc s rs))"
  by (induction rs arbitrary: s) (auto simp: Let_def dest: render_ok split: prod.splits, metis render_ok snd_conv)

end

lemma pool_render_inv:
  assumes "pool_inv p"
  shows "pool_inv (snd (pool_render spawned work p timeout cname ps))"
proof -
  let ?i = "next_slot p" and ?p = "p\<lparr>cursor := cursor p + 1\<rparr>"
  have inv: "pool_inv ?p" and i: "?i < length (slots ?p)"
    using assms next_slot_bound [OF assms] by (auto simp: pool_inv_def)
  have "\<not> live p (slots p ! ?i) \<Longrightarrow> pool_inv (ring_replace ?i ?p)"
    by (rule ring_replace_inv [OF inv i]) simp
  with inv show ?thesis
    by (auto simp: pool_render_def worker_at_def ring_replace_def split: option.splits)
qed

interpretation pool_backend: render_backend "pool_render spawned work" pool_inv
  by unfold_locales (rule pool_render_inv)

text \<open>
  Sequential code, concurrent steps. A call of pool.render that runs alone does what the
  interleaved critical sections of the same request do when no other request steps in between:
  the ring, the liveness flags, the cursor and the retired workers end the same, and the
  worker asked is the one the steps acquire (or the same error is returned).
\<close>

theorem pool_render_refines:
  assumes "requests p t = PIdle"
    "fs = [PAdd t, PRead t, PFast t] @ (if live p (slots p ! next_slot p) then [] else [PReplace t spawned])"
  shows "\<exists>q. prun p fs = Some q \<and>
     snd (pool_render spawned work p timeout cname ps) = q\<lparr>requests := requests p\<rparr> \<and>
     fst (pool_render spawned work p timeout cname ps) =
       (case requests q t of PGot i w \<Rightarrow> work w timeout cname ps | PFailed e \<Rightarrow> Inl e | _ \<Rightarrow> Inl (GErr []))"
  using assms by (auto simp: pool_render_def worker_at_def next_slot_def split: option.splits)

definition demo_pool_down :: pool where
  "demo_pool_down = demo_pool\<lparr>live := (\<lambda>r. r = 0)\<rparr>"

definition demo_work :: "wref \<Rightarrow> int option \<Rightarrow> string \<Rightarrow> props \<Rightarrow> render_response go" where
  "demo_work w timeout cname ps =
     Inr \<lparr>resp_id = 1, resp_html = cname @ show_nat w, resp_head = [], resp_error = []\<rparr>"

theorem pool_render_refines_witness:
  "fst (pool_render None demo_work demo_pool_down None ''A'' None) = demo_work 2 None ''A'' None"
proof -
  have r: "requests demo_pool_down 7 = PIdle" by (simp add: demo_pool_down_def demo_pool_def)
  have fs: "[PAdd 7, PRead 7, PFast 7, PReplace 7 None] = [PAdd 7, PRead 7, PFast 7] @
      (if live demo_pool_down (slots demo_pool_down ! next_slot demo_pool_down) then []
       else [PReplace 7 None])"
    by (simp add: demo_pool_down_def demo_pool_def next_slot_def)
  obtain q where q: "prun demo_pool_down [PAdd 7, PRead 7, PFast 7, PReplace 7 None] = Some q"
    "requests q 7 = PGot 1 2"
    by (simp add: demo_pool_down_def demo_pool_def next_slot_def)
  from pool_render_refines [OF r fs, of demo_work None "''A''" None] q show ?thesis by simp
qed

text \<open>
  C9: client-only components never reach Node. For a component whose mode is client or
  lazy-client, Render leaves the state of the pool as it was, whatever the pool would answer,
  and returns the placeholder that carries the component's name, the marshalled properties as
  an attribute that decodes to exactly that JSON, and the lazy marker for lazy-client only.
\<close>

theorem client_only_local:
  assumes "component_modes c cname = Some mode" "is_client_only mode" "cname \<noteq> []"
    "props_json ps = Inr j"
  shows "\<exists>a. render ip svc cfg (Some c) s cname ps = (Inr (placeholder mode cname a), s) \<and>
     set a \<inter> markup = {} \<and> unescape_html a = j"
proof -
  have "text8 j" using assms(4)
    by (auto simp: props_json_def text8_simps simp del: marshal.simps dest: marshal_text8
        split: option.splits)
  then have "unescape_html (escape_html j) = j"
    using unescape_escape [of j] text8_valid [of j] by (simp add: valid_utf8_def)
  moreover have "render ip svc cfg (Some c) s cname ps =
      (Inr (placeholder mode cname (escape_html j)), s)"
    using assms by (simp add: render_def)
  ultimately show ?thesis using escape_html_safe [of j] by blast
qed

definition demo_project :: project_config where
  "demo_project = \<lparr>framework = ''react'', source_dir = ''./frontend'', out_dir = ''./dist'',
     pc_workers = 4, timeout_ms = 0, port = 8080, static_prefix = ''/static/'',
     component_dir = ''src/components'', go_build_cmd = [],
     component_modes = [''Chart'' \<mapsto> ModeLazyClient, ''Home'' \<mapsto> ModeHydrate]\<rparr>"

theorem client_only_local_witness:
  "\<exists>a. render (\<lambda>_. True) (pool_render None demo_work) (default_config 2) (Some demo_project)
     demo_pool_down ''Chart'' demo_props = (Inr (placeholder ModeLazyClient ''Chart'' a), demo_pool_down) \<and>
     set a \<inter> markup = {}"
proof -
  have "component_modes demo_project ''Chart'' = Some ModeLazyClient" by (simp add: demo_project_def)
  moreover have "is_client_only ModeLazyClient" by (simp add: is_client_only_def)
  moreover obtain j where "props_json demo_props = Inr j"
    by (auto simp: props_json_def demo_props_def json_field_def)
  ultimately show ?thesis
    using client_only_local [of demo_project "''Chart''" ModeLazyClient demo_props j "\<lambda>_. True"
      "pool_render None demo_work" "default_config 2" demo_pool_down] by simp blast
qed

text \<open>
  The outcome of Render on every other path. An empty name and a name the project does not
  know are refused without a call; otherwise the pool is asked exactly once, with the
  configured deadline if there is one, its error is wrapped, an error reported by the component
  becomes an error, and HTML is returned only for a response without one.
\<close>

theorem render_outcome:
  assumes "\<forall>c mode. pc = Some c \<longrightarrow> component_modes c cname = Some mode \<longrightarrow> \<not> is_client_only mode"
  shows "render ip svc cfg pc s cname ps =
     (if cname = [] then (Inl (GErr ''revelt: Component must not be empty''), s)
      else if \<exists>c. pc = Some c \<and> cname \<notin> dom (component_modes c)
      then (Inl (GErr (''revelt: unknown component '' @ go_quote ip cname)), s)
      else apfst
        (\<lambda>r. case r of
            Inl e \<Rightarrow> Inl (GWrap ''revelt: render failed'' e)
          | Inr resp \<Rightarrow>
              if resp_error resp = [] then Inr (resp_html resp)
              else Inl (GErr (''revelt: component '' @ go_quote ip cname @ '': '' @ resp_error resp)))
        (svc s (if 0 < render_timeout cfg then Some (render_timeout cfg) else None) cname ps))"
  using assms
  by (auto simp: render_def ssr_render_def domIff split: option.splits prod.splits sum.splits)

theorem render_outcome_witness:
  "fst (render (\<lambda>_. True) (pool_render None demo_work) (default_config 2) (Some demo_project)
     demo_pool_down ''Home'' None) = Inr (''Home'' @ show_nat 2)"
proof -
  have "\<forall>c mode. Some demo_project = Some c \<longrightarrow> component_modes c ''Home'' = Some mode \<longrightarrow>
      \<not> is_client_only mode"
    by (simp add: demo_project_def is_client_only_def ModeHydrate_def ModeClient_def ModeLazyClient_def)
  from render_outcome [OF this, of "\<lambda>_. True" "pool_render None demo_work" "default_config 2" demo_pool_down None]
  show ?thesis
    by (simp add: demo_project_def pool_render_def worker_at_def demo_pool_down_def demo_pool_def
        next_slot_def demo_work_def)
qed




section \<open>Starting and closing\<close>

lemma apply_options_workers: "apply_options opts c = Done c' \<Longrightarrow> 1 \<le> workers c \<Longrightarrow> 1 \<le> workers c'"
proof (induction opts arbitrary: c)
  case (Cons opt opts)
  then obtain d where d: "apply_option opt c = Done d" "apply_options opts d = Done c'"
    by (auto split: outcome.splits)
  from d(1) Cons.prems(2) have "1 \<le> workers d" by (cases opt) (auto split: if_splits)
  with Cons.IH [OF d(2)] show ?case .
qed simp

text \<open>What the start of worker \<open>i\<close> is given by \<open>New\<close>.\<close>

definition renderer_spawn :: "os_env \<Rightarrow> string \<Rightarrow> config \<Rightarrow> nat \<Rightarrow> goerr option" where
  "renderer_spawn os script cfg =
     spawn_error os \<lparr>node_bin = cfg_node_bin cfg, read_buf_size = cfg_read_buf cfg,
       write_timeout = 0, worker_env = worker_envs os cfg\<rparr> script"

text \<open>
  C18: New starts a complete renderer or nothing that keeps running. If the script exists and
  the options are accepted (which, on a machine with a processor, leaves at least one worker),
  then New fails with the build's error before any process is started, or fails with the error
  of the first worker \<open>i\<close> that does not start, having closed the workers 0, ..., i-1, or
  returns a renderer with that configuration whose pool has one running worker per slot.
\<close>

theorem new_renderer_all_or_nothing:
  assumes "os_stat os script = None" "1 \<le> os_cpus os"
    "apply_options opts (default_config (os_cpus os)) = Done cfg"
  shows "new_renderer ip os script opts = Done
     (case (if build_cmd cfg = [] then None else run_build ip os (build_cmd cfg) (build_dir cfg)) of
        Some e \<Rightarrow> (Inl (GWrap ''revelt.New: build step failed'' e), [])
      | None \<Rightarrow>
          (case find (\<lambda>i. renderer_spawn os script cfg i \<noteq> None) [0..<nat (workers cfg)] of
             Some i \<Rightarrow> (Inl (GWrap ''revelt.New'' (GWrap (''revelt pool: starting worker '' @ show_nat i)
                              (the (renderer_spawn os script cfg i)))), [0..<i])
           | None \<Rightarrow> (Inr \<lparr>rend_pool = \<lparr>slots = [0..<nat (workers cfg)], live = (\<lambda>r. r < nat (workers cfg)),
                        next_ref = nat (workers cfg), cursor = 0, psize = word_of_int (workers cfg),
                        requests = (\<lambda>_. PIdle), retired = []\<rparr>,
                      rend_cfg = cfg, rend_project = project_cfg cfg\<rparr>, [])))"
proof -
  have "1 \<le> workers cfg"
    using apply_options_workers [OF assms(3)] assms(2) by (simp add: default_config_def)
  then have "\<not> workers cfg \<le> 0" by simp
  with assms(1,3) show ?thesis
    by (auto simp: new_renderer_def new_pool_def start_loop_spec renderer_spawn_def Let_def
        split: option.splits)
qed

definition demo_os :: os_env where
  "demo_os = \<lparr>os_stat = (\<lambda>_. None), os_run = (\<lambda>_ _. (None, [])), os_getwd = Inr ''/srv'',
     os_environ = [''PATH=/bin''],
     os_worker = (\<lambda>c i. \<lparr>os_stdin_pipe = None, os_stdout_pipe = None,
        os_start = (if i = 1 \<and> cmd_env c = Some [''PATH=/bin'', ''NODE_PATH=/srv/node_modules'']
                    then Some (GErr ''fork'') else None)\<rparr>),
     os_close = (\<lambda>_. None), os_cpus = 1\<rparr>"

theorem new_renderer_all_or_nothing_witness:
  "\<exists>e. new_renderer (\<lambda>_. True) demo_os ''ssr.mjs'' [WithWorkers 3] = Done (Inl e, [0])"
proof -
  let ?cfg = "default_config 1\<lparr>workers := 3\<rparr>"
  have a: "apply_options [WithWorkers 3] (default_config (os_cpus demo_os)) = Done ?cfg"
    by (simp add: demo_os_def)
  have envs: "worker_envs demo_os ?cfg = [''PATH=/bin'', ''NODE_PATH=/srv/node_modules'']"
    by code_simp
  have s: "renderer_spawn demo_os ''ssr.mjs'' ?cfg i =
      (if i = 1 then Some (GWrap ''revelt worker: starting node'' (GErr ''fork'')) else None)" for i
    unfolding renderer_spawn_def envs
    by (simp add: spawn_error_def new_worker_def worker_command_def demo_os_def)
  have "find (\<lambda>i. renderer_spawn demo_os ''ssr.mjs'' ?cfg i \<noteq> None) [0..<nat (workers ?cfg)] = Some 1"
    by (simp add: s upt_rec)
  with new_renderer_all_or_nothing [OF _ _ a, of "''ssr.mjs''" "\<lambda>_. True"] show ?thesis
    by (simp add: demo_os_def default_config_def)
qed

text \<open>
  Close reaches every worker: it closes the worker of every slot of the renderer's pool, in
  order, and reports an error exactly when closing one of them failed, naming the first.
\<close>

theorem renderer_close_total:
  "snd (renderer_close cl r) = slots (rend_pool r) \<and>
   fst (renderer_close cl r) =
     map_option (\<lambda>i. GWrap ''revelt: closing pool''
         (GWrap (''revelt pool: closing worker '' @ show_nat i) (the (cl (slots (rend_pool r) ! i)))))
       (find (\<lambda>i. cl (slots (rend_pool r) ! i) \<noteq> None) [0..<length (slots (rend_pool r))])"
  by (simp add: renderer_close_def pool_close_eq option.map_comp comp_def split: option.splits)

end
