(* ===== verification/Config.thy ===== *)
theory Config
  imports Renderer
begin

text \<open>
  Loading \<open>revelt.json\<close> and discovering components (\<open>config.go\<close>): defaults, the walk of
  the component directory, and the scan of the first lines of a file for its mode annotation.
  The file system is an argument that gives for a root path the tree below it, as
  \<open>fs.WalkDir\<close> sees it; the JSON decoder is an argument too.
\<close>

section \<open>The mode of one file\<close>

definition extract_mode :: "string \<Rightarrow> string option" where
  "extract_mode line =
     (case cut line ''@mode'' of
        None \<Rightarrow> None
      | Some (_, after) \<Rightarrow>
          (let rest = trim_space after in
             if has_prefix rest ModeSSR then Some ModeSSR
             else if has_prefix rest ModeHydrate then Some ModeHydrate
             else if has_prefix rest ModeLazyClient then Some ModeLazyClient
             else if has_prefix rest ModeClient then Some ModeClient
             else None))"

text \<open>
  \<open>bufio.Scanner\<close> with \<open>ScanLines\<close>: a line loses one trailing carriage return, and a
  line that fills the 64 KiB buffer before its newline is an error.
\<close>

definition max_token :: nat where
  "max_token = 64 * 1024"

definition err_too_long :: goerr where
  "err_too_long = GErr ''bufio.Scanner: token too long''"

definition drop_cr :: "string \<Rightarrow> string" where
  "drop_cr s = (if s \<noteq> [] \<and> last s = CHR 0x0D then butlast s else s)"

text \<open>
  The loop of \<open>readModeAnnotation\<close>: \<open>k\<close> lines may still be read, \<open>s\<close> is the unread
  content and \<open>rd\<close> how reading it ends (\<open>None\<close> at the end of the file). \<open>ended\<close> says
  that the last line was delivered without a newline, after which \<open>Scan\<close> returns false.
\<close>

fun scan_mode :: "nat \<Rightarrow> string \<Rightarrow> goerr option \<Rightarrow> bool \<Rightarrow> string go" where
  "scan_mode 0 s rd ended =
     (if ended then (case rd of Some e \<Rightarrow> Inl e | None \<Rightarrow> Inr ModeHydrate) else Inr ModeHydrate)"
| "scan_mode (Suc k) s rd ended =
     (if ended \<or> s = [] then (case rd of Some e \<Rightarrow> Inl e | None \<Rightarrow> Inr ModeHydrate)
      else case cut s [newline] of
          Some (line, rest) \<Rightarrow>
            (if max_token \<le> length line then Inl err_too_long
             else case extract_mode (drop_cr line) of
                 Some m \<Rightarrow> Inr m
               | None \<Rightarrow> scan_mode k rest rd False)
        | None \<Rightarrow>
            (if max_token \<le> length s then Inl err_too_long
             else case extract_mode (drop_cr s) of
                 Some m \<Rightarrow> Inr m
               | None \<Rightarrow> scan_mode k [] rd True))"

text \<open>
  A file of the tree: opening it fails, or gives its content and how reading ends. A directory:
  the entries \<open>ReadDir\<close> returns, in its order, and its error.
\<close>

datatype fsnode =
    FFile "(string \<times> goerr option) go"
  | FDir "(string \<times> fsnode) list" "goerr option"

definition read_mode_annotation ::
  "(rune \<Rightarrow> bool) \<Rightarrow> (string \<times> goerr option) go \<Rightarrow> string \<Rightarrow> string go" where
  "read_mode_annotation ip file path =
     (case file of
        Inl e \<Rightarrow> Inl (GWrap (''opening '' @ go_quote ip path) e)
      | Inr (content, rd) \<Rightarrow>
          (case scan_mode 5 content rd False of
             Inl e \<Rightarrow> Inl (GWrap (''scanning '' @ go_quote ip path) e)
           | Inr m \<Rightarrow> Inr m))"

section \<open>Discovery\<close>

definition component_extensions :: "string set" where
  "component_extensions = {''.tsx'', ''.ts'', ''.jsx'', ''.js'', ''.svelte''}"

text \<open>\<open>filepath.Ext\<close>: from the last dot of the last element.\<close>

fun path_ext :: "string \<Rightarrow> string" where
  "path_ext [] = []"
| "path_ext (c # cs) =
     (if CHR ''.'' \<notin> set cs \<and> slash \<notin> set cs \<and> c = CHR ''.'' then c # cs else path_ext cs)"

text \<open>\<open>filepath.Rel\<close> for a path that is the base or below it.\<close>

definition path_rel :: "string \<Rightarrow> string \<Rightarrow> string" where
  "path_rel base path =
     (if path = base then ''.'' else if base = ''.'' then path else drop (length base + 1) path)"

definition err_not_exist :: goerr where
  "err_not_exist = GErr ''file does not exist''"

text \<open>
  The callback of \<open>WalkDir\<close> for an entry reported without error, and for one reported with
  an error.
\<close>

definition visit_file ::
  "(rune \<Rightarrow> bool) \<Rightarrow> string \<Rightarrow> string \<Rightarrow> string \<Rightarrow> (string \<times> goerr option) go \<Rightarrow>
   (string \<rightharpoonup> string) \<Rightarrow> (string \<rightharpoonup> string) go" where
  "visit_file ip root path name file modes =
     (let ext = path_ext name in
      if ext \<notin> component_extensions then Inr modes
      else
        (let stem = trim_suffix (path_rel root path) ext in
         case read_mode_annotation ip file path of
           Inl e \<Rightarrow> Inl (GWrap (''reading annotation for '' @ go_quote ip path) e)
         | Inr mode \<Rightarrow> Inr (modes(stem \<mapsto> mode))))"

definition visit_error :: "string \<Rightarrow> string \<Rightarrow> goerr \<Rightarrow> (string \<rightharpoonup> string) \<Rightarrow> (string \<rightharpoonup> string) go" where
  "visit_error root path e modes =
     (if path = root \<and> err_is e err_not_exist then Inr modes else Inl e)"

text \<open>\<open>fs.WalkDir\<close>: a directory is visited before its entries, which follow in order.\<close>

fun walk ::
    "(rune \<Rightarrow> bool) \<Rightarrow> string \<Rightarrow> string \<Rightarrow> string \<Rightarrow> fsnode \<Rightarrow> (string \<rightharpoonup> string) \<Rightarrow> (string \<rightharpoonup> string) go"
and walk_list ::
    "(rune \<Rightarrow> bool) \<Rightarrow> string \<Rightarrow> string \<Rightarrow> (string \<times> fsnode) list \<Rightarrow> (string \<rightharpoonup> string) \<Rightarrow>
     (string \<rightharpoonup> string) go" where
  "walk ip root path name (FFile file) modes = visit_file ip root path name file modes"
| "walk ip root path name (FDir es err) modes =
     (case (case err of None \<Rightarrow> Inr modes | Some e \<Rightarrow> visit_error root path e modes) of
        Inl e \<Rightarrow> Inl e
      | Inr modes' \<Rightarrow> walk_list ip root path es modes')"
| "walk_list ip root path [] modes = Inr modes"
| "walk_list ip root path ((name, node) # es) modes =
     (case walk ip root (path_join [path, name]) name node modes of
        Inl e \<Rightarrow> Inl e
      | Inr modes' \<Rightarrow> walk_list ip root path es modes')"

text \<open>\<open>sys_fs root\<close> is what \<open>fs.Stat\<close> finds at the root: its name and the tree below.\<close>

type_synonym sys_fs = "string \<Rightarrow> (string \<times> fsnode) go"

definition discover_component_modes ::
  "(rune \<Rightarrow> bool) \<Rightarrow> sys_fs \<Rightarrow> string \<Rightarrow> (string \<rightharpoonup> string) go" where
  "discover_component_modes ip fs root =
     (case fs root of
        Inl e \<Rightarrow> visit_error root root e (\<lambda>_. None)
      | Inr (name, node) \<Rightarrow> walk ip root root name node (\<lambda>_. None))"

section \<open>Loading\<close>

definition with_defaults :: "project_config \<Rightarrow> project_config" where
  "with_defaults c =
     c\<lparr>source_dir := (if source_dir c = [] then ''./frontend'' else source_dir c),
       out_dir := (if out_dir c = [] then ''./dist'' else out_dir c),
       pc_workers := (if pc_workers c \<le> 0 then 4 else pc_workers c),
       port := (if port c \<le> 0 then 8080 else port c),
       static_prefix := (if static_prefix c = [] then ''/static/'' else static_prefix c),
       component_dir := (if component_dir c = [] then ''src/components'' else component_dir c)\<rparr>"

definition component_root :: "project_config \<Rightarrow> string" where
  "component_root c = trim_prefix (path_clean (path_join [source_dir c, component_dir c])) ''./''"

definition load_config_from_fs ::
  "(rune \<Rightarrow> bool) \<Rightarrow> (string \<Rightarrow> project_config go) \<Rightarrow> sys_fs \<Rightarrow> string \<Rightarrow> project_config go" where
  "load_config_from_fs ip unmarshal fs data =
     (case unmarshal data of
        Inl e \<Rightarrow> Inl (GWrap ''parsing config JSON'' e)
      | Inr c0 \<Rightarrow>
          (let c = with_defaults c0 in
           case discover_component_modes ip fs (component_root c) of
             Inl e \<Rightarrow> Inl (GWrap ''discovering components'' e)
           | Inr modes \<Rightarrow> Inr (c\<lparr>component_modes := modes\<rparr>)))"

definition load_config ::
  "(rune \<Rightarrow> bool) \<Rightarrow> (string \<Rightarrow> project_config go) \<Rightarrow> sys_fs \<Rightarrow> string go \<Rightarrow> project_config go" where
  "load_config ip unmarshal fs file =
     (case file of
        Inl e \<Rightarrow> Inl (GWrap ''reading config file'' e)
      | Inr data \<Rightarrow> load_config_from_fs ip unmarshal fs data)"

end
