(* ===== verification/Config_Claims.thy ===== *)
theory Config_Claims
  imports Config
begin

text \<open>
  What loading a configuration promises: the mode of a file is decided by its first five lines
  and by one of four words, discovery registers every component of the tree under its path
  relative to the component directory, and a loaded configuration has no missing setting.
\<close>

section \<open>Modes\<close>

definition modes_set :: "string set" where
  "modes_set = {ModeSSR, ModeHydrate, ModeClient, ModeLazyClient}"

lemmas mode_defs = ModeSSR_def ModeHydrate_def ModeClient_def ModeLazyClient_def

lemma modes_prefix_free:
  assumes "m \<in> modes_set" "n \<in> modes_set" "prefix m s" "prefix n s"
  shows "m = n"
  using assms by (auto simp: modes_set_def mode_defs prefix_def)

text \<open>
  The annotation of a line does not depend on the order of the tests. extractMode answers
  mode \<open>m\<close> exactly when \<open>m\<close> is one of the four modes and the text after the first
  \<open>@mode\<close> of the line, white space trimmed, begins with \<open>m\<close>; no line has two modes.
\<close>

theorem extract_mode_iff:
  "extract_mode line = Some m \<longleftrightarrow>
     m \<in> modes_set \<and> (\<exists>pre post. cut line ''@mode'' = Some (pre, post) \<and> prefix m (trim_space post))"
proof (cases "cut line ''@mode''")
  case (Some ab)
  obtain pre post where ab: "ab = (pre, post)" by fastforce
  let ?r = "trim_space post"
  have u: "n = m" if "n \<in> modes_set" "prefix n ?r" "m \<in> modes_set" "prefix m ?r" for n
    using modes_prefix_free that by blast
  have s: "ModeSSR \<in> modes_set" "ModeHydrate \<in> modes_set" "ModeClient \<in> modes_set" "ModeLazyClient \<in> modes_set"
    by (simp_all add: modes_set_def)
  show ?thesis
  proof
    assume "extract_mode line = Some m"
    with Some ab s show "m \<in> modes_set \<and> (\<exists>pre post. cut line ''@mode'' = Some (pre, post) \<and> prefix m (trim_space post))"
      by (auto simp: extract_mode_def has_prefix_def Let_def split: if_splits)
  next
    assume "m \<in> modes_set \<and> (\<exists>pre post. cut line ''@mode'' = Some (pre, post) \<and> prefix m (trim_space post))"
    with Some ab have m: "m \<in> modes_set" "prefix m ?r" by auto
    then have "m = ModeSSR \<or> m = ModeHydrate \<or> m = ModeClient \<or> m = ModeLazyClient"
      by (auto simp: modes_set_def)
    with Some ab m u [OF s(1)] u [OF s(2)] u [OF s(4)] show "extract_mode line = Some m"
      by (auto simp: extract_mode_def has_prefix_def Let_def)
  qed
qed (simp add: extract_mode_def)

lemma extract_mode_set: "extract_mode line = Some m \<Longrightarrow> m \<in> modes_set"
  by (auto simp: extract_mode_def Let_def modes_set_def split: option.splits if_splits)

text \<open>The lines of a file, without their newlines.\<close>

function go_lines :: "string \<Rightarrow> string list" where
  "go_lines s =
     (if s = [] then []
      else case cut s [newline] of Some (l, r) \<Rightarrow> l # go_lines r | None \<Rightarrow> [s])"
  by pat_completeness auto
termination
  by (relation "measure length") (auto dest!: cut_Some)

declare go_lines.simps [simp del]

lemma go_lines_Nil [simp]: "go_lines [] = []"
  by (simp add: go_lines.simps)

definition first_mode :: "string list \<Rightarrow> string" where
  "first_mode ls = hd (List.map_filter (extract_mode \<circ> drop_cr) ls @ [ModeHydrate])"

lemma first_mode_simps:
  "first_mode [] = ModeHydrate"
  "first_mode (l # ls) = (case extract_mode (drop_cr l) of Some m \<Rightarrow> m | None \<Rightarrow> first_mode ls)"
  by (auto simp: first_mode_def List.map_filter_def split: option.splits)

lemma scan_mode_lines:
  "\<forall>l \<in> set (take k (go_lines s)). length l < max_token \<Longrightarrow>
     scan_mode k s None False = Inr (first_mode (take k (go_lines s)))"
proof (induction k arbitrary: s)
  case (Suc k)
  show ?case
  proof (cases "s = []")
    case False
    show ?thesis
    proof (cases "cut s [newline]")
      case None
      with False have ls: "go_lines s = [s]" by (simp add: go_lines.simps)
      have "scan_mode k [] None True = Inr ModeHydrate" by (cases k) auto
      with Suc.prems ls None False show ?thesis
        by (auto simp: first_mode_simps split: option.splits)
    next
      case (Some lr)
      obtain l r where lr: "lr = (l, r)" by fastforce
      with Some False have ls: "go_lines s = l # go_lines r" by (simp add: go_lines.simps)
      with Suc.prems have "\<forall>l \<in> set (take k (go_lines r)). length l < max_token" by simp
      from Suc.IH [OF this] Suc.prems ls lr Some False show ?thesis
        by (auto simp: first_mode_simps split: option.splits)
    qed
  qed (simp add: first_mode_simps)
qed (simp add: first_mode_simps)

text \<open>
  The mode of a component file. When its first five lines fit the scanner, the mode is the
  annotation of the first of them that has one, and hydrate when none has; nothing after the
  fifth line is looked at.
\<close>

theorem read_mode_annotation_first_five:
  assumes "\<forall>l \<in> set (take 5 (go_lines content)). length l < max_token"
  shows "read_mode_annotation ip (Inr (content, None)) path = Inr (first_mode (take 5 (go_lines content)))"
  using scan_mode_lines [OF assms] by (simp add: read_mode_annotation_def)

definition demo_source :: string where
  "demo_source = ''// x'' @ [newline] @ ''// @mode lazy-client'' @ [newline] @ ''// @mode ssr''"

theorem read_mode_annotation_first_five_witness:
  "read_mode_annotation (\<lambda>_. True) (Inr (demo_source, None)) ''A.tsx'' = Inr ModeLazyClient"
proof -
  have l: "take 5 (go_lines demo_source) = [''// x'', ''// @mode lazy-client'', ''// @mode ssr'']"
    by (simp add: demo_source_def go_lines.simps cut.simps newline_def)
  have "trim_space '' lazy-client'' = ''lazy-client''" by (simp add: trim_space_blank [simplified] trim_space_visible visible_def)
  then have "extract_mode ''// @mode lazy-client'' = Some ModeLazyClient"
    by (simp add: extract_mode_def cut.simps has_prefix_def mode_defs)
  moreover have "extract_mode ''// x'' = None" by (simp add: extract_mode_def cut.simps)
  ultimately have "first_mode [''// x'', ''// @mode lazy-client'', ''// @mode ssr''] = ModeLazyClient"
    by (simp add: first_mode_simps drop_cr_def)
  with read_mode_annotation_first_five [of demo_source "\<lambda>_. True" "''A.tsx''"] l show ?thesis
    by (simp add: max_token_def)
qed

lemma scan_mode_set: "scan_mode k s rd ended = Inr m \<Longrightarrow> m \<in> modes_set"
  by (induction k s rd ended rule: scan_mode.induct)
     (auto simp: modes_set_def dest: extract_mode_set split: if_splits option.splits prod.splits)

lemma read_mode_set: "read_mode_annotation ip file path = Inr m \<Longrightarrow> m \<in> modes_set"
  by (auto simp: read_mode_annotation_def dest: scan_mode_set split: sum.splits)


section \<open>Paths below the component directory\<close>

text \<open>An element of a path that \<open>Clean\<close> keeps.\<close>

definition simple_name :: "string \<Rightarrow> bool" where
  "simple_name x \<longleftrightarrow> x \<noteq> [] \<and> slash \<notin> set x \<and> x \<noteq> ''.'' \<and> x \<noteq> ''..''"

lemma split_slash_nonempty: "split_slash s \<noteq> []"
  by (induction s) (auto split: list.splits)

lemma split_slash_plain: "slash \<notin> set x \<Longrightarrow> split_slash x = [x]"
  by (induction x) auto

lemma split_slash_app: "slash \<notin> set x \<Longrightarrow> split_slash (x @ slash # s) = x # split_slash s"
  by (induction x) auto

lemma slash_lit: "CHR ''/'' = slash"
  by (simp add: slash_def)

lemma join_slash_Cons: "xs \<noteq> [] \<Longrightarrow> join (x # xs) ''/'' = x @ slash # join xs ''/''"
  by (cases xs) (auto simp: slash_lit)

lemma split_join:
  "xs \<noteq> [] \<Longrightarrow> \<forall>x \<in> set xs. slash \<notin> set x \<Longrightarrow> split_slash (join xs ''/'') = xs"
proof (induction xs)
  case (Cons x xs)
  then show ?case
    by (cases "xs = []") (auto simp: split_slash_plain split_slash_app join_slash_Cons)
qed simp

lemma clean_simple:
  "\<forall>x \<in> set xs. simple_name x \<Longrightarrow> foldl (clean_step rooted) st xs = rev xs @ st"
  by (induction xs arbitrary: st) (auto simp: simple_name_def)

lemma join_nonempty: "xs \<noteq> [] \<Longrightarrow> \<forall>x \<in> set xs. simple_name x \<Longrightarrow> join xs ''/'' \<noteq> []"
  by (cases "tl xs") (auto simp: simple_name_def neq_Nil_conv)

lemma not_rooted_join:
  assumes "xs \<noteq> []" "\<forall>x \<in> set xs. simple_name x"
  shows "\<not> is_rooted (join xs ''/'')"
proof -
  obtain x ys where xs: "xs = x # ys" using assms(1) by (cases xs) auto
  with assms(2) obtain c cs where "x = c # cs" "c \<noteq> slash" by (cases x) (auto simp: simple_name_def)
  with xs show ?thesis by (cases ys) (auto simp: is_rooted_def)
qed

lemma clean_join:
  assumes "xs \<noteq> []" "\<forall>x \<in> set xs. simple_name x"
  shows "path_clean (join xs ''/'') = join xs ''/''"
proof -
  have "\<forall>x \<in> set xs. slash \<notin> set x" using assms(2) by (auto simp: simple_name_def)
  with split_join [OF assms(1)] clean_simple [OF assms(2), of _ "[]"] join_nonempty [OF assms]
    not_rooted_join [OF assms]
  show ?thesis by (simp add: path_clean_def)
qed

lemma join_append: "xs \<noteq> [] \<Longrightarrow> ys \<noteq> [] \<Longrightarrow> join (xs @ ys) ''/'' = join xs ''/'' @ slash # join ys ''/''"
proof (induction xs)
  case (Cons x xs)
  then show ?case
    by (cases "xs = []") (simp_all add: join_slash_Cons)
qed simp

lemma path_join_below:
  assumes "xs \<noteq> []" "\<forall>x \<in> set xs. simple_name x" "simple_name n"
  shows "path_join [join xs ''/'', n] = join (xs @ [n]) ''/''"
  using clean_join [of "xs @ [n]"] join_append [OF assms(1), of "[n]"] join_nonempty [OF assms(1,2)] assms
  by (auto simp: path_join_def Let_def simple_name_def slash_lit)

lemma path_rel_below:
  assumes "rs \<noteq> []" "ds \<noteq> []" "\<forall>x \<in> set rs. simple_name x"
  shows "path_rel (join rs ''/'') (join (rs @ ds) ''/'') = join ds ''/''"
proof -
  have "join rs ''/'' \<noteq> ''.''"
  proof (cases "tl rs")
    case Nil
    with assms(1,3) show ?thesis by (cases rs) (auto simp: simple_name_def)
  next
    case (Cons y ys)
    then have rs: "rs = hd rs # y # ys" using assms(1) by (cases rs) auto
    then have "join rs ''/'' = hd rs @ slash # join (y # ys) ''/''"
      by (metis join_slash_Cons list.distinct(1))
    then have "slash \<in> set (join rs ''/'')" by simp
    then show ?thesis by (auto simp: slash_def)
  qed
  with join_append [OF assms(1,2)] show ?thesis by (simp add: path_rel_def)
qed


section \<open>Discovery\<close>

text \<open>
  The specification: the component files of a tree with the path \<open>ds\<close> of each relative to
  the component directory \<open>rs\<close>, in the order of the walk. An entry is a name and a mode, or
  the error of a file or directory that cannot be read.
\<close>

definition file_entry ::
  "(rune \<Rightarrow> bool) \<Rightarrow> string list \<Rightarrow> string list \<Rightarrow> (string \<times> goerr option) go \<Rightarrow> (string \<times> string) go list" where
  "file_entry ip rs ds file =
     (if path_ext (last ds) \<notin> component_extensions then []
      else case read_mode_annotation ip file (join (rs @ ds) ''/'') of
          Inl e \<Rightarrow> [Inl (GWrap (''reading annotation for '' @ go_quote ip (join (rs @ ds) ''/'')) e)]
        | Inr m \<Rightarrow> [Inr (trim_suffix (join ds ''/'') (path_ext (last ds)), m)])"

definition dir_error :: "bool \<Rightarrow> goerr option \<Rightarrow> (string \<times> string) go list" where
  "dir_error is_root err =
     (case err of Some e \<Rightarrow> (if is_root \<and> err_is e err_not_exist then [] else [Inl e]) | None \<Rightarrow> [])"

fun entries :: "(rune \<Rightarrow> bool) \<Rightarrow> string list \<Rightarrow> string list \<Rightarrow> fsnode \<Rightarrow> (string \<times> string) go list" where
  "entries ip rs ds (FFile file) = file_entry ip rs ds file"
| "entries ip rs ds (FDir es err) =
     dir_error (ds = []) err @ concat (map (\<lambda>(n, node). entries ip rs (ds @ [n]) node) es)"

fun names_ok :: "fsnode \<Rightarrow> bool" where
  "names_ok (FFile file) = True"
| "names_ok (FDir es err) = (\<forall>e \<in> set es. case e of (n, node) \<Rightarrow> simple_name n \<and> names_ok node)"

definition add_entries :: "(string \<rightharpoonup> string) \<Rightarrow> (string \<times> string) go list \<Rightarrow> (string \<rightharpoonup> string) go" where
  "add_entries modes rs = map_go (\<lambda>kvs. modes ++ map_of (rev kvs)) (seq_go rs)"

lemma seq_go_append:
  "seq_go (xs @ ys) =
     (case seq_go xs of Inl e \<Rightarrow> Inl e | Inr vs \<Rightarrow> map_go (\<lambda>us. vs @ us) (seq_go ys))"
  by (induction xs rule: seq_go.induct) (auto simp: map_go_def split: sum.splits)

lemma add_entries_append:
  "add_entries modes (xs @ ys) =
     (case add_entries modes xs of Inl e \<Rightarrow> Inl e | Inr modes' \<Rightarrow> add_entries modes' ys)"
  by (auto simp: add_entries_def seq_go_append map_go_def split: sum.splits)

lemma add_entries_Nil [simp]: "add_entries modes [] = Inr modes"
  by (simp add: add_entries_def)

lemma add_entries_Inl [simp]: "add_entries modes (Inl e # rs) = Inl e"
  by (simp add: add_entries_def)

lemma join_inj_root:
  assumes "rs \<noteq> []" "ds \<noteq> []"
  shows "join (rs @ ds) ''/'' \<noteq> join rs ''/''"
  using join_append [OF assms] by simp

lemma walk_list_entries:
  assumes "\<And>n t m. (n, t) \<in> set es \<Longrightarrow> walk ip root (path_join [path, n]) n t m = add_entries m (f n t)"
  shows "walk_list ip root path es modes = add_entries modes (concat (map (\<lambda>(n, t). f n t) es))"
  using assms
proof (induction es arbitrary: modes)
  case (Cons e es)
  obtain n t where e: "e = (n, t)" by fastforce
  have "walk ip root (path_join [path, n]) n t modes = add_entries modes (f n t)"
    using Cons.prems [of n t] e by simp
  with Cons.IH Cons.prems e show ?case by (auto simp: add_entries_append split: sum.splits)
qed simp

lemma walk_entries:
  assumes "rs \<noteq> []" "\<forall>x \<in> set rs. simple_name x"
  shows "\<forall>x \<in> set ds. simple_name x \<Longrightarrow> names_ok node \<Longrightarrow> ds \<noteq> [] \<and> name = last ds \<or>
        ds = [] \<and> (\<exists>es err. node = FDir es err) \<Longrightarrow>
      walk ip (join rs ''/'') (join (rs @ ds) ''/'') name node modes = add_entries modes (entries ip rs ds node)"
proof (induction node arbitrary: ds name modes)
  case (FFile content)
  then have ds: "ds \<noteq> []" "name = last ds" by auto
  then show ?case using path_rel_below [OF assms(1) ds(1) assms(2)]
    by (auto simp: visit_file_def file_entry_def add_entries_def Let_def split: sum.splits)
next
  case (FDir es err)
  have root: "join (rs @ ds) ''/'' = join rs ''/'' \<longleftrightarrow> ds = []"
    using join_inj_root [OF assms(1), of ds] by (cases "ds = []") auto
  have xs: "rs @ ds \<noteq> []" "\<forall>x \<in> set (rs @ ds). simple_name x" using assms FDir.prems(1) by auto
  have "walk ip (join rs ''/'') (path_join [join (rs @ ds) ''/'', n]) n t m =
      add_entries m (entries ip rs (ds @ [n]) t)" if nt: "(n, t) \<in> set es" for n t m
  proof -
    have n: "simple_name n" "names_ok t" using FDir.prems(2) nt by auto
    have p: "path_join [join (rs @ ds) ''/'', n] = join (rs @ (ds @ [n])) ''/''"
      using path_join_below [OF xs n(1)] by simp
    show ?thesis unfolding p using FDir.prems(1) n
      by (intro FDir.IH [OF nt]) auto
  qed
  then have l: "walk_list ip (join rs ''/'') (join (rs @ ds) ''/'') es m =
      add_entries m (concat (map (\<lambda>(n, t). entries ip rs (ds @ [n]) t) es))" for m
    by (rule walk_list_entries)
  show ?case using l root
    by (cases err; cases "ds = []") (auto simp: add_entries_append visit_error_def dir_error_def)
qed

text \<open>
  C21: discovery finds every component once. Walking a component directory (given by a path with
  no special elements) registers exactly the files of the tree with a component extension, at
  any depth, each under its path relative to the directory without its extension and with the
  mode of its own annotation; where two files share that name the later of the walk wins. The
  first file or directory that cannot be read is the error, except that a component directory
  that does not exist gives no component.
\<close>

theorem discover_component_modes_spec:
  assumes "rs \<noteq> []" "\<forall>x \<in> set rs. simple_name x" "\<And>n t. fs (join rs ''/'') = Inr (n, t) \<Longrightarrow>
    names_ok t \<and> (\<exists>es err. t = FDir es err)"
  shows "discover_component_modes ip fs (join rs ''/'') =
     (case fs (join rs ''/'') of
        Inl e \<Rightarrow> (if err_is e err_not_exist then Inr (\<lambda>_. None) else Inl e)
      | Inr (_, tree) \<Rightarrow> map_go (\<lambda>kvs. map_of (rev kvs)) (seq_go (entries ip rs [] tree)))"
proof (cases "fs (join rs ''/'')")
  case (Inl e)
  then show ?thesis by (simp add: discover_component_modes_def visit_error_def)
next
  case (Inr nt)
  obtain n t where nt: "nt = (n, t)" by fastforce
  with assms(3) Inr have "names_ok t" "\<exists>es err. t = FDir es err" by auto
  with walk_entries [OF assms(1,2), of "[]" t n ip "\<lambda>_. None"]
  have "walk ip (join rs ''/'') (join rs ''/'') n t (\<lambda>_. None) = add_entries (\<lambda>_. None) (entries ip rs [] t)"
    by simp
  with Inr nt show ?thesis by (simp add: discover_component_modes_def add_entries_def)
qed

definition demo_fs :: sys_fs where
  "demo_fs = (\<lambda>root.
     if root = ''front/src'' then Inr (''src'', FDir
       [(''Home.tsx'', FFile (Inr (''//'', None))), (''README.md'', FFile (Inl (GErr ''denied''))),
        (''admin'', FDir [(''Chart.svelte'', FFile (Inr (''//@mode ssr'', None)))] None)] None)
     else Inl err_not_exist)"

lemma demo_modes:
  "read_mode_annotation (\<lambda>_. True) (Inr (''//'', None)) path = Inr ModeHydrate"
  "read_mode_annotation (\<lambda>_. True) (Inr (''//@mode ssr'', None)) path = Inr ModeSSR"
proof -
  have "trim_space '' ssr'' = ''ssr''" by (simp add: trim_space_blank [simplified] trim_space_visible visible_def)
  then have m: "extract_mode ''//'' = None" "extract_mode ''//@mode ssr'' = Some ModeSSR"
    by (simp_all add: extract_mode_def cut.simps has_prefix_def mode_defs)
  have l: "go_lines ''//'' = [''//'']" "go_lines ''//@mode ssr'' = [''//@mode ssr'']"
    by (simp_all add: go_lines.simps cut.simps newline_def)
  show "read_mode_annotation (\<lambda>_. True) (Inr (''//'', None)) path = Inr ModeHydrate"
    "read_mode_annotation (\<lambda>_. True) (Inr (''//@mode ssr'', None)) path = Inr ModeSSR"
    by (simp_all add: read_mode_annotation_def scan_mode_lines l max_token_def first_mode_simps drop_cr_def m)
qed

lemma demo_entries:
  "entries (\<lambda>_. True) [''front'', ''src''] [] (snd (projr (demo_fs ''front/src''))) =
     [Inr (''Home'', ModeHydrate), Inr (''admin/Chart'', ModeSSR)]"
  by (simp add: demo_fs_def dir_error_def file_entry_def component_extensions_def slash_def
      demo_modes trim_suffix_def suffix_to_prefix)

lemma demo_root: "[''front'', ''src''] \<noteq> [] \<and> (\<forall>x \<in> set [''front'', ''src'']. simple_name x) \<and>
    (demo_fs (join [''front'', ''src''] ''/'') = Inr (n, t) \<longrightarrow> names_ok t \<and> (\<exists>es err. t = FDir es err))"
  by (auto simp: demo_fs_def simple_name_def slash_def)

theorem discover_component_modes_spec_witness:
  "discover_component_modes (\<lambda>_. True) demo_fs ''front/src'' =
     Inr (map_of [(''admin/Chart'', ModeSSR), (''Home'', ModeHydrate)])"
  using discover_component_modes_spec [of "[''front'', ''src'']" demo_fs "\<lambda>_. True"] demo_root demo_entries
  by (auto simp: demo_fs_def)

section \<open>Loading\<close>

lemma visit_file_modes:
  "visit_file ip root path name content m = Inr m' \<Longrightarrow> ran m \<subseteq> modes_set \<Longrightarrow> ran m' \<subseteq> modes_set"
  by (auto simp: visit_file_def Let_def ran_def split: if_splits sum.splits) (auto dest: read_mode_set)

lemma walk_modes:
  "walk ip root path name node m = Inr m' \<Longrightarrow> ran m \<subseteq> modes_set \<Longrightarrow> ran m' \<subseteq> modes_set"
  "walk_list ip root path es m = Inr m' \<Longrightarrow> ran m \<subseteq> modes_set \<Longrightarrow> ran m' \<subseteq> modes_set"
proof (induction ip root path name node m and ip root path es m arbitrary: m' and m'
    rule: walk_walk_list.induct)
  case (1 ip root path name content modes)
  then show ?case by (auto dest: visit_file_modes)
next
  case (2 ip root path name es err modes)
  from 2(2) obtain m where m: "walk_list ip root path es m = Inr m'"
    "(case err of None \<Rightarrow> Inr modes | Some e \<Rightarrow> visit_error root path e modes) = Inr m"
    by (auto split: sum.splits)
  then have "m = modes" by (auto simp: visit_error_def split: option.splits if_splits)
  with 2(1) [OF m(2) m(1)] 2(3) show ?case by simp
next
  case (4 ip root path name node es modes)
  from 4(3) obtain m where m: "walk ip root (path_join [path, name]) name node modes = Inr m"
    "walk_list ip root path es m = Inr m'" by (auto split: sum.splits)
  from 4(2) [OF m(1) m(2) 4(1) [OF m(1) 4(4)]] show ?case .
qed simp

text \<open>
  A loaded configuration is complete. Whatever the file leaves out, the configuration that
  LoadConfig returns has directories, a static prefix, a positive number of workers and a
  positive port, keeps every setting the file gives, and knows its components only with one of
  the four modes.
\<close>

theorem load_config_complete:
  assumes "load_config ip unmarshal fs file = Inr c" "file = Inr data" "unmarshal data = Inr c0"
  shows "0 < pc_workers c \<and> 0 < port c \<and> source_dir c \<noteq> [] \<and> out_dir c \<noteq> [] \<and> static_prefix c \<noteq> [] \<and>
     component_dir c \<noteq> [] \<and> ran (component_modes c) \<subseteq> modes_set \<and>
     framework c = framework c0 \<and> timeout_ms c = timeout_ms c0 \<and> go_build_cmd c = go_build_cmd c0 \<and>
     (0 < pc_workers c0 \<longrightarrow> pc_workers c = pc_workers c0) \<and> (0 < port c0 \<longrightarrow> port c = port c0) \<and>
     (source_dir c0 \<noteq> [] \<longrightarrow> source_dir c = source_dir c0) \<and> (out_dir c0 \<noteq> [] \<longrightarrow> out_dir c = out_dir c0) \<and>
     (static_prefix c0 \<noteq> [] \<longrightarrow> static_prefix c = static_prefix c0) \<and>
     (component_dir c0 \<noteq> [] \<longrightarrow> component_dir c = component_dir c0)"
proof -
  from assms obtain modes where c: "c = (with_defaults c0)\<lparr>component_modes := modes\<rparr>"
    "discover_component_modes ip fs (component_root (with_defaults c0)) = Inr modes"
    by (auto simp: load_config_def load_config_from_fs_def Let_def split: sum.splits)
  from c(2) have "ran modes \<subseteq> modes_set"
    by (auto simp: discover_component_modes_def visit_error_def split: sum.splits if_splits prod.splits
        dest!: walk_modes(1))
  with c(1) show ?thesis by (simp add: with_defaults_def)
qed

lemma demo_discovered: "\<exists>m. discover_component_modes (\<lambda>_. True) demo_fs ''front/src'' = Inr m"
proof -
  have "walk (\<lambda>_. True) (join [''front'', ''src''] ''/'') (join ([''front'', ''src''] @ []) ''/'') ''src''
      (snd (projr (demo_fs ''front/src''))) (\<lambda>_. None) = add_entries (\<lambda>_. None)
      [Inr (''Home'', ModeHydrate), Inr (''admin/Chart'', ModeSSR)]"
    unfolding demo_entries [symmetric]
    by (rule walk_entries) (simp_all add: demo_fs_def simple_name_def slash_def)
  then show ?thesis by (simp add: discover_component_modes_def demo_fs_def add_entries_def)
qed

definition demo_json :: project_config where
  "demo_json = \<lparr>framework = ''react'', source_dir = ''front'', out_dir = [],
     pc_workers = 0, timeout_ms = 0, port = 0, static_prefix = [],
     component_dir = ''src'', go_build_cmd = [], component_modes = (\<lambda>_. None)\<rparr>"

theorem load_config_complete_witness:
  "\<exists>c. load_config (\<lambda>_. True) (\<lambda>_. Inr (demo_json))
     demo_fs (Inr ''{}'') = Inr c \<and> 0 < port c \<and> ran (component_modes c) \<subseteq> modes_set"
proof -
  let ?c0 = "demo_json"
  have "component_root (with_defaults ?c0) = ''front/src''"
    by (simp add: component_root_def with_defaults_def demo_json_def path_join_def path_clean_def is_rooted_def slash_def
        trim_prefix_def)
  moreover obtain m where "discover_component_modes (\<lambda>_. True) demo_fs ''front/src'' = Inr m"
    using demo_discovered by blast
  ultimately obtain c where c: "load_config (\<lambda>_. True) (\<lambda>_. Inr ?c0) demo_fs (Inr ''{}'') = Inr c"
    by (auto simp: load_config_def load_config_from_fs_def Let_def)
  from load_config_complete [OF c refl refl] c show ?thesis by blast
qed

end
