(* ===== verification/Http.thy ===== *)
theory Http
  imports Utf8 Json
begin

text \<open>
  The response writer and the handlers of the program. A connection is net/http's response:
  live headers, the status and headers once they are sent, the body. A writer is a connection
  under a stack of wrappers, one constructor per wrapper type of the repository; its methods
  \<open>Header\<close>, \<open>WriteHeader\<close>, \<open>Write\<close> recurse through the stack as the methods of the
  wrappers call the writer they embed. A handler is a function on requests and writers, with
  the error or panic it ends with; a middleware is a function on handlers.
\<close>

section \<open>Headers\<close>

text \<open>\<open>http.Header\<close>, keyed by the lower-case name (names are compared without case).\<close>

type_synonym headers = "string \<Rightarrow> string list"

definition hget :: "headers \<Rightarrow> string \<Rightarrow> string" where
  "hget hs k = (case hs (to_lower k) of [] \<Rightarrow> [] | v # _ \<Rightarrow> v)"

definition hset :: "string \<Rightarrow> string \<Rightarrow> headers \<Rightarrow> headers" where
  "hset k v hs = hs(to_lower k := [v])"

definition hadd :: "string \<Rightarrow> string \<Rightarrow> headers \<Rightarrow> headers" where
  "hadd k v hs = hs(to_lower k := hs (to_lower k) @ [v])"

definition hdel :: "string \<Rightarrow> headers \<Rightarrow> headers" where
  "hdel k hs = hs(to_lower k := [])"

lemma hget_hset [simp]: "hget (hset k v hs) j = (if to_lower j = to_lower k then v else hget hs j)"
  by (simp add: hget_def hset_def)

lemma hget_hdel [simp]: "hget (hdel k hs) j = (if to_lower j = to_lower k then [] else hget hs j)"
  by (simp add: hget_def hdel_def)

section \<open>Requests\<close>

text \<open>
  What the program reads of a request. \<open>rq_basic\<close> is \<open>BasicAuth()\<close>, \<open>rq_cookies\<close> the
  cookies by name, \<open>rq_form\<close> the parsed form and query values, \<open>rq_ctx\<close> the values on
  the request context.
\<close>

datatype ctx_value =
    CtxStr string
  | CtxBool bool
  | CtxFlash string string
  | CtxState json

record request =
  rq_method :: string
  rq_path :: string
  rq_hdrs :: headers
  rq_remote :: string
  rq_basic :: "(string \<times> string) option"
  rq_cookies :: "string \<rightharpoonup> string"
  rq_form :: "string \<Rightarrow> string"
  rq_ctx :: "string \<rightharpoonup> ctx_value"

section \<open>Writers\<close>

record conn =
  c_hdrs :: headers
  c_sent :: "(nat \<times> headers) option"
  c_body :: string
  c_fail :: "goerr option"

definition err_body_not_allowed :: goerr where
  "err_body_not_allowed = GErr ''http: request method or response status code does not allow body''"

definition no_body :: "nat \<Rightarrow> bool" where
  "no_body code \<longleftrightarrow> code < 200 \<or> code = 204 \<or> code = 304"

definition conn_write_header :: "nat \<Rightarrow> conn \<Rightarrow> conn" where
  "conn_write_header code c =
     (if c_sent c \<noteq> None \<or> (code < 200 \<and> code \<noteq> 101) then c
      else c\<lparr>c_sent := Some (code, c_hdrs c)\<rparr>)"

definition conn_write :: "string \<Rightarrow> conn \<Rightarrow> conn \<times> goerr option" where
  "conn_write p c =
     (let c' = conn_write_header 200 c in
      if p = [] then (c', None)
      else if no_body (fst (the (c_sent c'))) then (c', Some err_body_not_allowed)
      else case c_fail c' of
          Some e \<Rightarrow> (c', Some e)
        | None \<Rightarrow> (c'\<lparr>c_body := c_body c' @ p\<rparr>, None))"

text \<open>
  A compressor (\<open>compress/gzip\<close>, the Brotli package) by what it puts out: \<open>zemit h\<close> the
  bytes emitted by the last operation of the history \<open>h\<close>, \<open>zfin h\<close> those emitted by
  closing after \<open>h\<close>. \<open>z_sha1\<close> is the hexadecimal SHA-1 of a body.
\<close>

datatype zop = ZWrite string | ZFlush

fun zwritten :: "zop list \<Rightarrow> string" where
  "zwritten [] = []"
| "zwritten (ZWrite p # h) = p @ zwritten h"
| "zwritten (ZFlush # h) = zwritten h"

lemma zwritten_append [simp]: "zwritten (h @ h') = zwritten h @ zwritten h'"
  by (induction h rule: zwritten.induct) auto

record zcodec =
  zemit :: "zop list \<Rightarrow> string"
  zfin :: "zop list \<Rightarrow> string"

record codecs =
  z_gzip :: zcodec
  z_brotli :: zcodec
  z_sha1 :: "string \<Rightarrow> string"

text \<open>
  The state of \<open>gzipWriter\<close> and \<open>brotliWriter\<close>, of \<open>etagResponseWriter\<close>, of
  \<open>statusCapturingWriter\<close>, and of the static handler's \<open>gzipResponseWriter\<close>.
\<close>

record zstate =
  z_hist :: "zop list"
  z_status :: nat
  z_written :: bool

record estate =
  e_buf :: string
  e_status :: nat
  e_wrote :: bool

record sstate =
  s_status :: nat
  s_wrote :: bool

record bstate =
  b_buf :: string
  b_status :: nat

datatype rw =
    Conn conn
  | GzipW rw zstate
  | BrotliW rw zstate
  | EtagW rw estate
  | StatusW rw sstate
  | BufW rw bstate

text \<open>\<open>Header()\<close>: every wrapper hands out the headers of the writer it embeds.\<close>

fun rw_hdrs :: "rw \<Rightarrow> headers" where
  "rw_hdrs (Conn c) = c_hdrs c"
| "rw_hdrs (GzipW w s) = rw_hdrs w"
| "rw_hdrs (BrotliW w s) = rw_hdrs w"
| "rw_hdrs (EtagW w s) = rw_hdrs w"
| "rw_hdrs (StatusW w s) = rw_hdrs w"
| "rw_hdrs (BufW w s) = rw_hdrs w"

fun upd_hdrs :: "(headers \<Rightarrow> headers) \<Rightarrow> rw \<Rightarrow> rw" where
  "upd_hdrs f (Conn c) = Conn (c\<lparr>c_hdrs := f (c_hdrs c)\<rparr>)"
| "upd_hdrs f (GzipW w s) = GzipW (upd_hdrs f w) s"
| "upd_hdrs f (BrotliW w s) = BrotliW (upd_hdrs f w) s"
| "upd_hdrs f (EtagW w s) = EtagW (upd_hdrs f w) s"
| "upd_hdrs f (StatusW w s) = StatusW (upd_hdrs f w) s"
| "upd_hdrs f (BufW w s) = BufW (upd_hdrs f w) s"

definition compressed_hdrs :: "string \<Rightarrow> nat \<Rightarrow> rw \<Rightarrow> rw" where
  "compressed_hdrs coding code w =
     (if code \<noteq> 204 \<and> code \<noteq> 304
      then upd_hdrs (hdel ''Content-Length'') (upd_hdrs (hset ''Content-Encoding'' coding) w) else w)"

text \<open>How deep the stack is; header updates and \<open>WriteHeader\<close> keep it.\<close>

fun depth :: "rw \<Rightarrow> nat" where
  "depth (Conn c) = 0"
| "depth (GzipW w s) = Suc (depth w)"
| "depth (BrotliW w s) = Suc (depth w)"
| "depth (EtagW w s) = Suc (depth w)"
| "depth (StatusW w s) = Suc (depth w)"
| "depth (BufW w s) = Suc (depth w)"

lemma depth_upd [simp]: "depth (upd_hdrs f w) = depth w"
  by (induction w) auto

lemma depth_compressed [simp]: "depth (compressed_hdrs coding code w) = depth w"
  by (simp add: compressed_hdrs_def)

text \<open>
  \<open>WriteHeader\<close> of each wrapper: the embedded writer, if the method goes on to call
  \<open>WriteHeader\<close> on it with the same code, and the wrapper's own state afterwards.
\<close>

definition gzip_header :: "nat \<Rightarrow> rw \<Rightarrow> zstate \<Rightarrow> rw option \<times> zstate" where
  "gzip_header code w s =
     (if z_written s then (None, s)
      else (Some (compressed_hdrs ''gzip'' code w), s\<lparr>z_status := code, z_written := True\<rparr>))"

definition brotli_header :: "nat \<Rightarrow> rw \<Rightarrow> zstate \<Rightarrow> rw option \<times> zstate" where
  "brotli_header code w s =
     (if z_written s then (None, s)
      else (Some (compressed_hdrs ''br'' code w), s\<lparr>z_status := code, z_written := True\<rparr>))"

definition etag_header :: "nat \<Rightarrow> rw \<Rightarrow> estate \<Rightarrow> rw option \<times> estate" where
  "etag_header code w s =
     (if e_wrote s then (None, s)
      else (if code \<noteq> 200 then Some w else None, s\<lparr>e_wrote := True, e_status := code\<rparr>))"

definition status_header :: "nat \<Rightarrow> rw \<Rightarrow> sstate \<Rightarrow> rw option \<times> sstate" where
  "status_header code w s =
     (if s_wrote s then (None, s) else (Some w, s\<lparr>s_wrote := True, s_status := code\<rparr>))"

definition static_header :: "nat \<Rightarrow> bstate \<Rightarrow> bstate" where
  "static_header code s = s\<lparr>b_status := code\<rparr>"

lemmas header_defs = gzip_header_def brotli_header_def etag_header_def status_header_def static_header_def

lemma header_depth:
  "gzip_header code w s = (Some w', s') \<Longrightarrow> depth w' = depth w"
  "brotli_header code w s = (Some w', s') \<Longrightarrow> depth w' = depth w"
  "etag_header code w t = (Some w', t') \<Longrightarrow> depth w' = depth w"
  "status_header code w u = (Some w', u') \<Longrightarrow> depth w' = depth w"
  by (auto simp: header_defs split: if_splits)

function write_header :: "nat \<Rightarrow> rw \<Rightarrow> rw" where
  "write_header code (Conn c) = Conn (conn_write_header code c)"
| "write_header code (GzipW w s) =
     (case gzip_header code w s of
        (Some w', s') \<Rightarrow> GzipW (write_header code w') s' | (None, s') \<Rightarrow> GzipW w s')"
| "write_header code (BrotliW w s) =
     (case brotli_header code w s of
        (Some w', s') \<Rightarrow> BrotliW (write_header code w') s' | (None, s') \<Rightarrow> BrotliW w s')"
| "write_header code (EtagW w s) =
     (case etag_header code w s of
        (Some w', s') \<Rightarrow> EtagW (write_header code w') s' | (None, s') \<Rightarrow> EtagW w s')"
| "write_header code (StatusW w s) =
     (case status_header code w s of
        (Some w', s') \<Rightarrow> StatusW (write_header code w') s' | (None, s') \<Rightarrow> StatusW w s')"
| "write_header code (BufW w s) = BufW w (static_header code s)"
  by pat_completeness auto
termination
  by (relation "measure (depth \<circ> snd)") (auto dest: header_depth [OF sym])

declare write_header.simps [simp del]

text \<open>The same, one equation per wrapper.\<close>

lemma write_header_simps [simp]:
  "write_header code (Conn c) = Conn (conn_write_header code c)"
  "write_header code (GzipW w s) =
     (if z_written s then GzipW w s
      else GzipW (write_header code (compressed_hdrs ''gzip'' code w))
             (s\<lparr>z_status := code, z_written := True\<rparr>))"
  "write_header code (BrotliW w s) =
     (if z_written s then BrotliW w s
      else BrotliW (write_header code (compressed_hdrs ''br'' code w))
             (s\<lparr>z_status := code, z_written := True\<rparr>))"
  "write_header code (EtagW w t) =
     (if e_wrote t then EtagW w t
      else EtagW (if code \<noteq> 200 then write_header code w else w)
             (t\<lparr>e_wrote := True, e_status := code\<rparr>))"
  "write_header code (StatusW w u) =
     (if s_wrote u then StatusW w u
      else StatusW (write_header code w) (u\<lparr>s_wrote := True, s_status := code\<rparr>))"
  "write_header code (BufW w v) = BufW w (v\<lparr>b_status := code\<rparr>)"
  by (simp_all add: write_header.simps header_defs)

lemma depth_write_header [simp]: "depth (write_header code w) = depth w"
proof (induction "depth w" arbitrary: w)
  case 0
  then show ?case by (cases w) auto
next
  case (Suc n)
  then show ?case by (cases w) auto
qed

definition wrap_err :: "string \<Rightarrow> goerr option \<Rightarrow> goerr option" where
  "wrap_err p e = map_option (GWrap p) e"

text \<open>
  The first lines of the \<open>Write\<close> methods: the wrapper commits a status by its own
  \<open>WriteHeader\<close> when none is committed yet.
\<close>

definition gzip_commit :: "rw \<Rightarrow> zstate \<Rightarrow> rw \<times> zstate" where
  "gzip_commit w s =
     (if z_written s then (w, s)
      else (let code = (if z_status s = 0 then 200 else z_status s) in
            case gzip_header code w s of
              (Some w', s') \<Rightarrow> (write_header code w', s') | (None, s') \<Rightarrow> (w, s')))"

definition brotli_commit :: "rw \<Rightarrow> zstate \<Rightarrow> rw \<times> zstate" where
  "brotli_commit w s =
     (if z_written s then (w, s)
      else (let code = (if z_status s = 0 then 200 else z_status s) in
            case brotli_header code w s of
              (Some w', s') \<Rightarrow> (write_header code w', s') | (None, s') \<Rightarrow> (w, s')))"

definition etag_commit :: "estate \<Rightarrow> estate" where
  "etag_commit s = (if e_wrote s then s else s\<lparr>e_wrote := True, e_status := 200\<rparr>)"

definition status_commit :: "rw \<Rightarrow> sstate \<Rightarrow> rw \<times> sstate" where
  "status_commit w s =
     (if s_wrote s then (w, s)
      else case status_header 200 w s of
             (Some w', s') \<Rightarrow> (write_header 200 w', s') | (None, s') \<Rightarrow> (w, s'))"

definition static_write :: "string \<Rightarrow> bstate \<Rightarrow> bstate" where
  "static_write p s = s\<lparr>b_buf := b_buf s @ p\<rparr>"

lemmas commit_defs = gzip_commit_def brotli_commit_def etag_commit_def status_commit_def static_write_def

lemma commit_depth:
  "gzip_commit w s = (w', s') \<Longrightarrow> depth w' = depth w"
  "brotli_commit w s = (w', s') \<Longrightarrow> depth w' = depth w"
  "status_commit w u = (w', u') \<Longrightarrow> depth w' = depth w"
  by (auto simp: commit_defs header_defs Let_def split: if_splits)

function rw_write :: "codecs \<Rightarrow> string \<Rightarrow> rw \<Rightarrow> rw \<times> goerr option" where
  "rw_write Z p (Conn c) = apfst Conn (conn_write p c)"
| "rw_write Z p (GzipW w s) =
     (let (w1, s1) = gzip_commit w s;
          h = z_hist s1 @ [ZWrite p]; out = zemit (z_gzip Z) h;
          (w2, e) = (if out = [] then (w1, None) else rw_write Z out w1)
      in (GzipW w2 (s1\<lparr>z_hist := h\<rparr>), wrap_err ''gzip: writing compressed body'' e))"
| "rw_write Z p (BrotliW w s) =
     (let (w1, s1) = brotli_commit w s;
          h = z_hist s1 @ [ZWrite p]; out = zemit (z_brotli Z) h;
          (w2, e) = (if out = [] then (w1, None) else rw_write Z out w1)
      in (BrotliW w2 (s1\<lparr>z_hist := h\<rparr>), wrap_err ''brotli: writing compressed body'' e))"
| "rw_write Z p (EtagW w s) =
     (let s1 = etag_commit s in
      if e_status s1 \<noteq> 200
      then (let (w2, e) = rw_write Z p w
            in (EtagW w2 s1, wrap_err ''etag: writing passthrough body'' e))
      else (EtagW w (s1\<lparr>e_buf := e_buf s1 @ p\<rparr>), None))"
| "rw_write Z p (StatusW w s) =
     (let (w1, s1) = status_commit w s; (w2, e) = rw_write Z p w1 in (StatusW w2 s1, e))"
| "rw_write Z p (BufW w s) = (BufW w (static_write p s), None)"
  by pat_completeness auto
termination
  by (relation "measure (depth \<circ> snd \<circ> snd)") (auto dest: commit_depth [OF sym])

declare rw_write.simps [simp del]

lemma rw_write_simps [simp]:
  "rw_write Z p (Conn c) = apfst Conn (conn_write p c)"
  "rw_write Z p (GzipW w s) =
     (let (w1, s1) = (if z_written s then (w, s)
              else (let code = (if z_status s = 0 then 200 else z_status s)
                    in (write_header code (compressed_hdrs ''gzip'' code w),
                        s\<lparr>z_status := code, z_written := True\<rparr>)));
          h = z_hist s1 @ [ZWrite p]; out = zemit (z_gzip Z) h;
          (w2, e) = (if out = [] then (w1, None) else rw_write Z out w1)
      in (GzipW w2 (s1\<lparr>z_hist := h\<rparr>), wrap_err ''gzip: writing compressed body'' e))"
  "rw_write Z p (BrotliW w s) =
     (let (w1, s1) = (if z_written s then (w, s)
              else (let code = (if z_status s = 0 then 200 else z_status s)
                    in (write_header code (compressed_hdrs ''br'' code w),
                        s\<lparr>z_status := code, z_written := True\<rparr>)));
          h = z_hist s1 @ [ZWrite p]; out = zemit (z_brotli Z) h;
          (w2, e) = (if out = [] then (w1, None) else rw_write Z out w1)
      in (BrotliW w2 (s1\<lparr>z_hist := h\<rparr>), wrap_err ''brotli: writing compressed body'' e))"
  "rw_write Z p (EtagW w t) =
     (let s1 = (if e_wrote t then t else t\<lparr>e_wrote := True, e_status := 200\<rparr>) in
      if e_status s1 \<noteq> 200
      then (let (w2, e) = rw_write Z p w
            in (EtagW w2 s1, wrap_err ''etag: writing passthrough body'' e))
      else (EtagW w (s1\<lparr>e_buf := e_buf s1 @ p\<rparr>), None))"
  "rw_write Z p (StatusW w u) =
     (let (w1, s1) = (if s_wrote u then (w, u)
              else (write_header 200 w, u\<lparr>s_wrote := True, s_status := 200\<rparr>));
          (w2, e) = rw_write Z p w1
      in (StatusW w2 s1, e))"
  "rw_write Z p (BufW w v) = (BufW w (v\<lparr>b_buf := b_buf v @ p\<rparr>), None)"
  by (simp_all add: rw_write.simps commit_defs header_defs Let_def)

fun conn_of :: "rw \<Rightarrow> conn" where
  "conn_of (Conn c) = c"
| "conn_of (GzipW w s) = conn_of w"
| "conn_of (BrotliW w s) = conn_of w"
| "conn_of (EtagW w s) = conn_of w"
| "conn_of (StatusW w s) = conn_of w"
| "conn_of (BufW w s) = conn_of w"

text \<open>The writer a wrapper embeds.\<close>

fun inner :: "rw \<Rightarrow> rw" where
  "inner (Conn c) = Conn c"
| "inner (GzipW w s) = w"
| "inner (BrotliW w s) = w"
| "inner (EtagW w s) = w"
| "inner (StatusW w s) = w"
| "inner (BufW w s) = w"

section \<open>Optional methods of writers\<close>

text \<open>
  The type assertion \<open>w.(http.Flusher)\<close>: which writers have a \<open>Flush\<close> method. Embedding
  the interface \<open>http.ResponseWriter\<close> does not promote one, so the writers of the logger and
  of the static handler have none. The connection of net/http has one.
\<close>

fun is_flusher :: "rw \<Rightarrow> bool" where
  "is_flusher (Conn c) = True"
| "is_flusher (GzipW w s) = True"
| "is_flusher (BrotliW w s) = True"
| "is_flusher (EtagW w s) = True"
| "is_flusher (StatusW w s) = False"
| "is_flusher (BufW w s) = False"

text \<open>\<open>Flush\<close> on the connection commits 200 when nothing is committed.\<close>

definition conn_flush :: "conn \<Rightarrow> conn" where
  "conn_flush c = conn_write_header 200 c"

text \<open>What \<open>gzip.Writer.Flush\<close> writes to the writer below, an error being dropped.\<close>

definition gzip_sync :: "codecs \<Rightarrow> rw \<Rightarrow> zstate \<Rightarrow> rw \<times> zstate" where
  "gzip_sync Z w s =
     (let h = z_hist s @ [ZFlush]; out = zemit (z_gzip Z) h
      in (if out = [] then w else fst (rw_write Z out w), s\<lparr>z_hist := h\<rparr>))"

lemma depth_rw_write [simp]: "depth (fst (rw_write Z p w)) = depth w"
proof (induction "depth w" arbitrary: p w)
  case 0
  then show ?case by (cases w) (auto simp: apfst_def map_prod_def split: prod.splits)
next
  case (Suc n)
  then show ?case by (cases w) (auto simp: Let_def case_prod_beta split: if_splits)
qed

lemma gzip_sync_depth: "depth (fst (gzip_sync Z w s)) = depth w"
  by (simp add: gzip_sync_def Let_def)

text \<open>\<open>Flush\<close> of each wrapper: the embedded writer, if it is flushed in turn.\<close>

definition gzip_flush :: "codecs \<Rightarrow> rw \<Rightarrow> zstate \<Rightarrow> rw option \<times> rw \<times> zstate" where
  "gzip_flush Z w s =
     (let (w1, s1) = gzip_sync Z w s in (if is_flusher w1 then Some w1 else None, w1, s1))"

definition brotli_flush :: "rw \<Rightarrow> rw option" where
  "brotli_flush w = (if is_flusher w then Some w else None)"

definition etag_flush :: "rw \<Rightarrow> rw option" where
  "etag_flush w = (if is_flusher w then Some w else None)"

lemmas flush_defs = gzip_flush_def brotli_flush_def etag_flush_def

function rw_flush :: "codecs \<Rightarrow> rw \<Rightarrow> rw" where
  "rw_flush Z (Conn c) = Conn (conn_flush c)"
| "rw_flush Z (GzipW w s) =
     (case gzip_flush Z w s of
        (Some v, w1, s1) \<Rightarrow> GzipW (rw_flush Z v) s1 | (None, w1, s1) \<Rightarrow> GzipW w1 s1)"
| "rw_flush Z (BrotliW w s) = (case brotli_flush w of Some v \<Rightarrow> BrotliW (rw_flush Z v) s | None \<Rightarrow> BrotliW w s)"
| "rw_flush Z (EtagW w s) = (case etag_flush w of Some v \<Rightarrow> EtagW (rw_flush Z v) s | None \<Rightarrow> EtagW w s)"
| "rw_flush Z (StatusW w s) = StatusW w s"
| "rw_flush Z (BufW w s) = BufW w s"
  by pat_completeness auto
termination
  by (relation "measure (depth \<circ> snd)") (auto simp: flush_defs gzip_sync_def Let_def split: if_splits)

declare rw_flush.simps [simp del]

lemma rw_flush_simps [simp]:
  "rw_flush Z (Conn c) = Conn (conn_flush c)"
  "rw_flush Z (GzipW w s) =
     (let (w1, s1) = gzip_sync Z w s in GzipW (if is_flusher w1 then rw_flush Z w1 else w1) s1)"
  "rw_flush Z (BrotliW w s) = BrotliW (if is_flusher w then rw_flush Z w else w) s"
  "rw_flush Z (EtagW w t) = EtagW (if is_flusher w then rw_flush Z w else w) t"
  "rw_flush Z (StatusW w u) = StatusW w u"
  "rw_flush Z (BufW w v) = BufW w v"
  by (simp_all add: rw_flush.simps flush_defs Let_def split: prod.split)

text \<open>
  \<open>Hijack\<close>: the connection taken over, or the error. \<open>can_hijack\<close> is whether the server's
  writer implements \<open>http.Hijacker\<close> (it does not under HTTP/2).
\<close>

fun is_hijacker :: "bool \<Rightarrow> rw \<Rightarrow> bool" where
  "is_hijacker can_hijack (Conn c) = can_hijack"
| "is_hijacker can_hijack (GzipW w s) = True"
| "is_hijacker can_hijack (BrotliW w s) = True"
| "is_hijacker can_hijack (EtagW w s) = True"
| "is_hijacker can_hijack (StatusW w s) = False"
| "is_hijacker can_hijack (BufW w s) = False"

definition gzip_hijack :: "bool \<Rightarrow> rw \<Rightarrow> rw go" where
  "gzip_hijack can_hijack w =
     (if is_hijacker can_hijack w then Inr w
      else Inl (GErr ''gzip: http.Hijacker interface is not supported''))"

definition brotli_hijack :: "bool \<Rightarrow> rw \<Rightarrow> rw go" where
  "brotli_hijack can_hijack w =
     (if is_hijacker can_hijack w then Inr w
      else Inl (GErr ''brotli: http.Hijacker interface is not supported''))"

definition etag_hijack :: "bool \<Rightarrow> rw \<Rightarrow> rw go" where
  "etag_hijack can_hijack w =
     (if is_hijacker can_hijack w then Inr w else Inl (GErr ''feature not supported''))"

fun rw_hijack :: "bool \<Rightarrow> rw \<Rightarrow> conn go" where
  "rw_hijack can_hijack (Conn c) = Inr c"
| "rw_hijack can_hijack (GzipW w s) =
     (case gzip_hijack can_hijack w of Inl e \<Rightarrow> Inl e | Inr _ \<Rightarrow> rw_hijack can_hijack w)"
| "rw_hijack can_hijack (BrotliW w s) =
     (case brotli_hijack can_hijack w of Inl e \<Rightarrow> Inl e | Inr _ \<Rightarrow> rw_hijack can_hijack w)"
| "rw_hijack can_hijack (EtagW w s) =
     (case etag_hijack can_hijack w of Inl e \<Rightarrow> Inl e | Inr _ \<Rightarrow> rw_hijack can_hijack w)"
| "rw_hijack can_hijack w = Inl (GErr ''feature not supported'')"

text \<open>\<open>Unwrap\<close>, which the ETag and status writers have.\<close>

fun rw_unwrap :: "rw \<Rightarrow> rw option" where
  "rw_unwrap (EtagW w s) = Some w"
| "rw_unwrap (StatusW w s) = Some w"
| "rw_unwrap w = None"

section \<open>Handlers\<close>

text \<open>The value of a panic, by the cases of \<open>recovery.convertPanicToError\<close>.\<close>

datatype panic_value = PvError goerr | PvString string | PvStringer string | PvOther string

datatype hresult = HNil | HErr goerr | HPanic panic_value

type_synonym handler = "request \<Rightarrow> rw \<Rightarrow> rw \<times> hresult"

type_synonym middleware = "handler \<Rightarrow> handler"

text \<open>
  The body of a handler as the calls it makes on its writer: each \<open>Write\<close> may go on by the
  error it returned, and headers may be read back. \<open>PFlush\<close> tests for \<open>http.Flusher\<close>,
  flushes if the writer is one, and goes on by the answer.
\<close>

datatype hprog =
    PRet hresult
  | PSet string string hprog
  | PDel string hprog
  | PGet string "string \<Rightarrow> hprog"
  | PStatus nat hprog
  | PWrite string "goerr option \<Rightarrow> hprog"
  | PFlush "bool \<Rightarrow> hprog"

primrec run_prog :: "codecs \<Rightarrow> hprog \<Rightarrow> rw \<Rightarrow> rw \<times> hresult" where
  "run_prog Z (PRet res) w = (w, res)"
| "run_prog Z (PSet k v p) w = run_prog Z p (upd_hdrs (hset k v) w)"
| "run_prog Z (PDel k p) w = run_prog Z p (upd_hdrs (hdel k) w)"
| "run_prog Z (PGet k f) w = run_prog Z (f (hget (rw_hdrs w) k)) w"
| "run_prog Z (PStatus code p) w = run_prog Z p (write_header code w)"
| "run_prog Z (PWrite s f) w = (let (w', e) = rw_write Z s w in run_prog Z (f e) w')"
| "run_prog Z (PFlush f) w = run_prog Z (f (is_flusher w)) (if is_flusher w then rw_flush Z w else w)"

text \<open>\<open>http.Error\<close>, \<open>Adapt\<close> and \<open>DefaultErrorHandler\<close>.\<close>

text \<open>Where log lines go: the process's standard log, or a logger the caller supplies.\<close>

datatype log_sink = StdLog | OwnLog string

definition http_error :: "codecs \<Rightarrow> rw \<Rightarrow> string \<Rightarrow> nat \<Rightarrow> rw" where
  "http_error Z w msg code =
     (let w1 = upd_hdrs (hset ''X-Content-Type-Options'' ''nosniff''
              \<circ> hset ''Content-Type'' ''text/plain; charset=utf-8'' \<circ> hdel ''Content-Length'') w
      in fst (rw_write Z (msg @ [CHR 0x0A]) (write_header code w1)))"

definition default_error_handler :: "codecs \<Rightarrow> rw \<Rightarrow> goerr \<Rightarrow> rw" where
  "default_error_handler Z w e = http_error Z w ''Internal Server Error'' 500"

definition adapt :: "handler \<Rightarrow> (request \<Rightarrow> rw \<Rightarrow> goerr \<Rightarrow> rw) \<Rightarrow> request \<Rightarrow> rw \<Rightarrow> rw \<times> hresult" where
  "adapt fn err_handler r w =
     (case fn r w of
        (w', HErr e) \<Rightarrow> (err_handler r w' e, HNil)
      | (w', HNil) \<Rightarrow> (w', HNil)
      | (w', HPanic m) \<Rightarrow> (w', HPanic m))"

text \<open>The chain \<open>App.Run\<close> builds: the first middleware declared is the outermost.\<close>

fun build_chain :: "('h \<Rightarrow> 'h) list \<Rightarrow> nat \<Rightarrow> 'h \<Rightarrow> 'h" where
  "build_chain mws 0 root = root"
| "build_chain mws (Suc i) root = build_chain mws i ((mws ! i) root)"

definition app_root :: "('h \<Rightarrow> 'h) list \<Rightarrow> 'h \<Rightarrow> 'h" where
  "app_root mws mux = build_chain mws (length mws) mux"

end
