(* ===== verification/Compress.thy ===== *)
theory Compress
  imports Http
begin

text \<open>
  The middlewares that wrap the response writer: gzip (\<open>middleware/gzip\<close>), Brotli
  (\<open>middleware/brotli\<close>), ETag (\<open>middleware/etag\<close>), the status capture of the logger
  (\<open>middleware/logger\<close>), and the static asset handler of \<open>app.go\<close> with its buffering
  gzip writer.
\<close>

section \<open>gzip and Brotli\<close>

definition zstate0 :: zstate where
  "zstate0 = \<lparr>z_hist = [], z_status = 0, z_written = False\<rparr>"

text \<open>The deferred close, which hands the embedded writer back.\<close>

definition z_close :: "codecs \<Rightarrow> zcodec \<Rightarrow> zstate \<Rightarrow> rw \<Rightarrow> rw" where
  "z_close Z z s w =
     (if z_written s \<and> (z_status s = 204 \<or> z_status s = 304) then w
      else if zfin z (z_hist s) = [] then w else fst (rw_write Z (zfin z (z_hist s)) w))"

definition gzip_mw :: "codecs \<Rightarrow> string list \<Rightarrow> middleware" where
  "gzip_mw Z skip_paths next r w =
     (if \<exists>p \<in> set skip_paths. has_prefix (rq_path r) p then next r w
      else if hget (rw_hdrs w) ''Content-Encoding'' \<noteq> [] then next r w
      else if \<not> contains (hget (rq_hdrs r) ''Accept-Encoding'') ''gzip'' then next r w
      else case next r (GzipW w zstate0) of
          (GzipW w' s, res) \<Rightarrow> (z_close Z (z_gzip Z) s w', res)
        | (w', res) \<Rightarrow> (w', res))"

text \<open>\<open>GzipLevel\<close> panics when the middleware is built with a level out of range.\<close>

definition gzip_level :: "codecs \<Rightarrow> int \<Rightarrow> string list \<Rightarrow> middleware outcome" where
  "gzip_level Z level skip_paths =
     (if level < -2 \<or> 9 < level
      then Panicked (''gzip: invalid compression level: '' @ show_int level)
      else Done (gzip_mw Z skip_paths))"

text \<open>\<open>Gzip\<close>: the default level, which is -1.\<close>

definition gzip_default :: "codecs \<Rightarrow> string list \<Rightarrow> middleware outcome" where
  "gzip_default Z skip_paths = gzip_level Z (-1) skip_paths"

lemma gzip_default_builds: "gzip_default Z skip_paths = Done (gzip_mw Z skip_paths)"
  by (simp add: gzip_default_def gzip_level_def)

definition brotli_mw :: "codecs \<Rightarrow> string list \<Rightarrow> middleware" where
  "brotli_mw Z skip_paths next r w =
     (if \<exists>p \<in> set skip_paths. has_prefix (rq_path r) p then next r w
      else if \<not> contains (hget (rq_hdrs r) ''Accept-Encoding'') ''br'' then next r w
      else case next r (BrotliW w zstate0) of
          (BrotliW w' s, res) \<Rightarrow> (z_close Z (z_brotli Z) s w', res)
        | (w', res) \<Rightarrow> (w', res))"

section \<open>ETag\<close>

text \<open>
  \<open>strings.EqualFold\<close> against an ASCII string: besides the ASCII letters, the long s and the
  Kelvin sign fold to \<open>s\<close> and \<open>k\<close>.
\<close>

definition fold_rune :: "rune \<Rightarrow> rune" where
  "fold_rune r =
     (if 65 \<le> r \<and> r \<le> 90 then r + 32 else if r = 0x17F then 0x73 else if r = 0x212A then 0x6B else r)"

definition equal_fold :: "string \<Rightarrow> string \<Rightarrow> bool" where
  "equal_fold s t \<longleftrightarrow> map fold_rune (range_runes s) = map fold_rune (range_runes t)"

definition is_cacheable :: "request \<Rightarrow> (request \<Rightarrow> bool) list \<Rightarrow> bool" where
  "is_cacheable r skip =
     (if rq_method r \<noteq> ''GET'' \<and> rq_method r \<noteq> ''HEAD'' then False
      else if equal_fold (hget (rq_hdrs r) ''Upgrade'') ''websocket'' then False
      else if contains (hget (rq_hdrs r) ''Accept'') ''text/event-stream'' then False
      else \<not> list_ex (\<lambda>s. s r) skip)"

definition estate0 :: estate where
  "estate0 = \<lparr>e_buf = [], e_status = 200, e_wrote = False\<rparr>"

definition etag_value :: "codecs \<Rightarrow> string \<Rightarrow> string" where
  "etag_value Z body = [CHR 0x22] @ z_sha1 Z body @ [CHR 0x22]"

definition etag_finish :: "codecs \<Rightarrow> request \<Rightarrow> rw \<Rightarrow> string \<Rightarrow> rw \<times> hresult" where
  "etag_finish Z r w body =
     (let etag = etag_value Z body; if_match = hget (rq_hdrs r) ''If-Match'' in
      if hget (rq_hdrs r) ''If-None-Match'' = etag then (write_header 304 w, HNil)
      else if if_match \<noteq> [] \<and> if_match \<noteq> etag then (write_header 412 w, HNil)
      else
        (let (w', e) = rw_write Z body (write_header 200 (upd_hdrs (hset ''ETag'' etag) w))
         in (w', case e of Some e' \<Rightarrow> HErr (GWrap ''etag: writing committed body'' e') | None \<Rightarrow> HNil)))"

definition etag_mw :: "codecs \<Rightarrow> (request \<Rightarrow> bool) list \<Rightarrow> middleware" where
  "etag_mw Z skip next r w =
     (if \<not> is_cacheable r skip then next r w
      else case next r (EtagW w estate0) of
          (EtagW w' s, res) \<Rightarrow>
            (case res of
               HPanic m \<Rightarrow> (w', HPanic m)
             | HErr e \<Rightarrow> (w', HErr e)
             | HNil \<Rightarrow> if e_status s \<noteq> 200 then (w', HNil) else etag_finish Z r w' (e_buf s))
        | (w', res) \<Rightarrow> (w', res))"

section \<open>Status capture\<close>

definition sstate0 :: sstate where
  "sstate0 = \<lparr>s_status = 0, s_wrote = False\<rparr>"

section \<open>Static assets\<close>

definition bstate0 :: bstate where
  "bstate0 = \<lparr>b_buf = [], b_status = 0\<rparr>"

text \<open>One year, for assets whose name carries a hash of their content.\<close>

definition immutable_max_age :: int where
  "immutable_max_age = 31536000"

definition static_headers :: "string \<Rightarrow> rw \<Rightarrow> rw" where
  "static_headers path w =
     upd_hdrs (hset ''Cache-Control''
       (if has_prefix path ''chunks/'' then ''public, max-age='' @ show_int immutable_max_age @ '', immutable'' else ''no-cache'')) w"

definition accepts_gzip :: "request \<Rightarrow> bool" where
  "accepts_gzip r = contains (hget (rq_hdrs r) ''Accept-Encoding'') ''gzip''"

text \<open>\<open>gzipResponseWriter.flush\<close>; the error is logged by the caller.\<close>

definition static_flush :: "codecs \<Rightarrow> rw \<Rightarrow> bstate \<Rightarrow> rw \<times> goerr option" where
  "static_flush Z w s =
     (let w1 = upd_hdrs (hdel ''Content-Length'') (upd_hdrs (hset ''Content-Encoding'' ''gzip'') w);
          w2 = (if b_status s \<noteq> 0 then write_header (b_status s) w1 else w1);
          h = (if b_buf s = [] then [] else [ZWrite (b_buf s)]);
          (w3, e) = (if h = [] \<or> zemit (z_gzip Z) h = [] then (w2, None) else rw_write Z (zemit (z_gzip Z) h) w2);
          w4 = (if zfin (z_gzip Z) h = [] then w3 else fst (rw_write Z (zfin (z_gzip Z) h) w3))
      in (w4, e))"

text \<open>
  The handler of \<open>registerStaticHandler\<close>; \<open>base\<close> is the file server under
  \<open>StripPrefix\<close>.
\<close>

definition static_handler :: "codecs \<Rightarrow> bool \<Rightarrow> string \<Rightarrow> handler \<Rightarrow> handler" where
  "static_handler Z disable_compression static_pfx base r w =
     (let path = trim_prefix (rq_path r) static_pfx; w1 = static_headers path w in
      if \<not> disable_compression \<and> accepts_gzip r then
        (case base r (BufW w1 bstate0) of
           (BufW w2 s, HPanic m) \<Rightarrow> (w2, HPanic m)
         | (BufW w2 s, res) \<Rightarrow> (fst (static_flush Z w2 s), HNil)
         | (w2, res) \<Rightarrow> (w2, res))
      else base r w1)"

end
