(* ===== verification/Compress_Claims.thy ===== *)
theory Compress_Claims
  imports Compress
begin

text \<open>
  What the wrapping middlewares promise. A compressing writer delivers, once decoded, the
  response the handler would have sent without it; the proof is made once, in a locale on the
  writer's methods, and interpreted for gzip and for Brotli. ETag sends the buffered body with
  its tag, or answers a condition without a body. A handler is a program of writer calls.
\<close>

section \<open>Programs and connections\<close>

text \<open>
  A program that sends no informational status, does not read back the two headers a
  compressing writer changes, and does not flush.
\<close>

definition coding_keys :: "string set" where
  "coding_keys = {''content-encoding'', ''content-length''}"

primrec plain_prog :: "hprog \<Rightarrow> bool" where
  "plain_prog (PRet res) = True"
| "plain_prog (PSet k v p) = plain_prog p"
| "plain_prog (PDel k p) = plain_prog p"
| "plain_prog (PGet k f) = (to_lower k \<notin> coding_keys \<and> (\<forall>v. plain_prog (f v)))"
| "plain_prog (PStatus code p) = (200 \<le> code \<and> plain_prog p)"
| "plain_prog (PWrite s f) = (\<forall>e. plain_prog (f e))"
| "plain_prog (PFlush f) = False"

text \<open>
  The same, but flushing is allowed once the program has committed a status or written; \<open>b\<close>
  is whether it has.
\<close>

primrec stream_prog :: "hprog \<Rightarrow> bool \<Rightarrow> bool" where
  "stream_prog (PRet res) b = True"
| "stream_prog (PSet k v p) b = stream_prog p b"
| "stream_prog (PDel k p) b = stream_prog p b"
| "stream_prog (PGet k f) b = (to_lower k \<notin> coding_keys \<and> (\<forall>v. stream_prog (f v) b))"
| "stream_prog (PStatus code p) b = (200 \<le> code \<and> stream_prog p True)"
| "stream_prog (PWrite s f) b = (\<forall>e. stream_prog (f e) True)"
| "stream_prog (PFlush f) b = (b \<and> (\<forall>ok. stream_prog (f ok) b))"

lemma plain_stream: "plain_prog p \<Longrightarrow> stream_prog p b"
  by (induction p arbitrary: b) auto

definition fresh_conn :: "conn \<Rightarrow> bool" where
  "fresh_conn c \<longleftrightarrow> c_sent c = None \<and> c_body c = [] \<and> c_fail c = None"

lemma conn_write_header_sent [simp]:
  "c_sent c = Some x \<Longrightarrow> conn_write_header code c = c"
  by (simp add: conn_write_header_def)

lemma conn_write_header_fresh:
  "c_sent c = None \<Longrightarrow> 200 \<le> code \<Longrightarrow> conn_write_header code c = c\<lparr>c_sent := Some (code, c_hdrs c)\<rparr>"
  by (simp add: conn_write_header_def)

lemma conn_write_ok:
  assumes "c_sent c = Some (code, h)" "\<not> no_body code" "c_fail c = None"
  shows "conn_write p c = (c\<lparr>c_body := c_body c @ p\<rparr>, None)"
  using assms by (simp add: conn_write_def Let_def)

lemma conn_write_sent: "c_sent c = Some x \<Longrightarrow> c_sent (fst (conn_write p c)) = Some x"
  by (auto simp: conn_write_def Let_def split: option.splits)

text \<open>A run keeps a connection a connection, and what it has committed.\<close>

lemma run_prog_conn:
  "\<exists>c' res. run_prog Z p (Conn c) = (Conn c', res) \<and> (\<forall>x. c_sent c = Some x \<longrightarrow> c_sent c' = Some x)"
proof (induction p arbitrary: c)
  case (PWrite s f)
  obtain c1 e where w: "conn_write s c = (c1, e)" by fastforce
  with conn_write_sent [of c _ s] have "\<forall>x. c_sent c = Some x \<longrightarrow> c_sent c1 = Some x" by simp
  moreover obtain c' res where "run_prog Z (f e) (Conn c1) = (Conn c', res)"
    "\<forall>x. c_sent c1 = Some x \<longrightarrow> c_sent c' = Some x" using PWrite.IH [of "f e" c1] by blast
  ultimately show ?case using w by simp
next
  case (PStatus code p)
  have "\<forall>x. c_sent c = Some x \<longrightarrow> c_sent (conn_write_header code c) = Some x" by simp
  with PStatus.IH [of "conn_write_header code c"] show ?case by fastforce
next
  case (PSet k v p)
  from PSet.IH [of "c\<lparr>c_hdrs := hset k v (c_hdrs c)\<rparr>"] show ?case by simp
next
  case (PDel k p)
  from PDel.IH [of "c\<lparr>c_hdrs := hdel k (c_hdrs c)\<rparr>"] show ?case by simp
next
  case (PFlush f)
  have "\<forall>x. c_sent c = Some x \<longrightarrow> c_sent (conn_flush c) = Some x" by (simp add: conn_flush_def)
  with PFlush.IH [of "f True" "conn_flush c"] show ?case by fastforce
qed auto

lemma run_prog_sticky:
  assumes "run_prog Z p (Conn c) = (Conn c', res)" "c_sent c = Some x"
  shows "c_sent c' = Some x"
  using run_prog_conn [of Z p c] assms by auto

section \<open>Simulation of a wrapped connection\<close>

text \<open>
  The interface between a program of writer calls and a wrapper: \<open>W\<close> puts the wrapper on a
  connection, \<open>rel\<close> relates the connection of a plain run to that under the wrapper after
  the same calls, and each call keeps the relation; \<open>flushes\<close> tells whether flushing does.
  \<open>ok\<close> restricts the plain runs. A whole run then keeps it.
\<close>

locale writer_sim =
  fixes Z :: codecs and W :: "conn \<Rightarrow> 's \<Rightarrow> rw" and rel :: "conn \<Rightarrow> conn \<Rightarrow> 's \<Rightarrow> bool" and ok :: "conn \<Rightarrow> bool"
    and flushes :: bool
  assumes sim_upd: "rel cp cg s \<Longrightarrow> f = hset k v \<or> f = hdel k \<Longrightarrow>
      \<exists>cg' s'. upd_hdrs f (W cg s) = W cg' s' \<and> rel (cp\<lparr>c_hdrs := f (c_hdrs cp)\<rparr>) cg' s'"
    and sim_get: "rel cp cg s \<Longrightarrow> to_lower k \<notin> coding_keys \<Longrightarrow> hget (rw_hdrs (W cg s)) k = hget (c_hdrs cp) k"
    and sim_header: "rel cp cg s \<Longrightarrow> 200 \<le> code \<Longrightarrow> ok (conn_write_header code cp) \<Longrightarrow>
      \<exists>cg' s'. write_header code (W cg s) = W cg' s' \<and> rel (conn_write_header code cp) cg' s'"
    and sim_write: "rel cp cg s \<Longrightarrow> ok (fst (conn_write p cp)) \<Longrightarrow>
      \<exists>cg' s'. rw_write Z p (W cg s) = (W cg' s', snd (conn_write p cp)) \<and> rel (fst (conn_write p cp)) cg' s'"
    and ok_before: "run_prog Z q (Conn c) = (Conn c', res) \<Longrightarrow> ok c' \<Longrightarrow> c_sent c = Some x \<Longrightarrow> ok c"
    and sim_flush: "flushes \<Longrightarrow> rel cp cg s \<Longrightarrow> c_sent cp = Some x \<Longrightarrow>
      is_flusher (W cg s) \<and> (\<exists>cg' s'. rw_flush Z (W cg s) = W cg' s' \<and> rel cp cg' s')"
begin

lemma rel_run:
  assumes "rel cp cg s" "stream_prog p b" "flushes \<or> plain_prog p" "b \<Longrightarrow> c_sent cp \<noteq> None"
    "run_prog Z p (Conn cp) = (Conn cp', res)" "ok cp'"
  shows "\<exists>cg' s'. run_prog Z p (W cg s) = (W cg' s', res) \<and> rel cp' cg' s'"
  using assms
proof (induction p arbitrary: cp cg s b)
  case (PRet r)
  then show ?case by auto
next
  case (PSet k v p)
  from sim_upd [OF PSet.prems(1), of "hset k v"] obtain cg' s' where
    "upd_hdrs (hset k v) (W cg s) = W cg' s'" "rel (cp\<lparr>c_hdrs := hset k v (c_hdrs cp)\<rparr>) cg' s'" by blast
  with PSet.IH [OF this(2)] PSet.prems(2-) show ?case by simp
next
  case (PDel k p)
  from sim_upd [OF PDel.prems(1), of "hdel k"] obtain cg' s' where
    "upd_hdrs (hdel k) (W cg s) = W cg' s'" "rel (cp\<lparr>c_hdrs := hdel k (c_hdrs cp)\<rparr>) cg' s'" by blast
  with PDel.IH [OF this(2)] PDel.prems(2-) show ?case by simp
next
  case (PGet k f)
  have "to_lower k \<notin> coding_keys" using PGet.prems(2) by simp
  with PGet.IH [OF rangeI PGet.prems(1), of "hget (c_hdrs cp) k" b] PGet.prems(2-)
  show ?case by (auto simp: sim_get [OF PGet.prems(1)])
next
  case (PStatus c p)
  let ?c = "conn_write_header c cp"
  have ge: "200 \<le> c" using PStatus.prems(2) by simp
  have run: "run_prog Z p (Conn ?c) = (Conn cp', res)" using PStatus.prems(5) by simp
  have sent: "\<exists>x. c_sent ?c = Some x" using ge by (cases "c_sent cp") (simp_all add: conn_write_header_fresh)
  with ok_before [OF run PStatus.prems(6)] have "ok ?c" by blast
  with sim_header [OF PStatus.prems(1), of c] ge obtain cg' s' where
    "write_header c (W cg s) = W cg' s'" "rel ?c cg' s'" by auto
  with PStatus.IH [OF this(2), of True, OF _ _ _ run PStatus.prems(6)] PStatus.prems(2,3) sent show ?case by simp
next
  case (PWrite str f)
  let ?c = "fst (conn_write str cp)" and ?e = "snd (conn_write str cp)"
  have run: "run_prog Z (f ?e) (Conn ?c) = (Conn cp', res)"
    using PWrite.prems(5) by (simp add: case_prod_beta)
  have sent: "\<exists>x. c_sent ?c = Some x"
    by (cases "c_sent cp") (auto simp: conn_write_def Let_def conn_write_header_fresh split: option.splits)
  with ok_before [OF run PWrite.prems(6)] have "ok ?c" by blast
  with sim_write [OF PWrite.prems(1)] obtain cg' s' where
    w: "rw_write Z str (W cg s) = (W cg' s', ?e)" "rel ?c cg' s'" by blast
  with PWrite.IH [OF rangeI w(2), of ?e True, OF _ _ _ run PWrite.prems(6)] PWrite.prems(2,3) sent show ?case by auto
next
  case (PFlush f)
  from PFlush.prems(2,3,4) obtain x where x: "c_sent cp = Some x" and fl: "flushes" by auto
  then have run: "run_prog Z (f True) (Conn cp) = (Conn cp', res)"
    using PFlush.prems(5) by (simp add: conn_flush_def)
  from sim_flush [OF fl PFlush.prems(1) x] obtain cg' s' where
    "is_flusher (W cg s)" "rw_flush Z (W cg s) = W cg' s'" "rel cp cg' s'" by blast
  with PFlush.IH [OF rangeI this(3), of True b, OF _ _ _ run PFlush.prems(6)] PFlush.prems(2,4) fl
  show ?case by auto
qed

end

definition body_sent :: "conn \<Rightarrow> bool" where
  "body_sent c \<longleftrightarrow> (\<exists>code h. c_sent c = Some (code, h) \<and> \<not> no_body code)"

lemma body_sent_before:
  "run_prog Z p (Conn c) = (Conn c', res) \<Longrightarrow> body_sent c' \<Longrightarrow> c_sent c = Some x \<Longrightarrow> body_sent c"
  using run_prog_sticky [of Z p c c' res x] by (auto simp: body_sent_def)

section \<open>Compressing writers\<close>

text \<open>What a compressor has put out after a history of writes.\<close>

definition emitted :: "zcodec \<Rightarrow> zop list \<Rightarrow> string" where
  "emitted z h = concat (map (\<lambda>i. zemit z (take (Suc i) h)) [0..<length h])"

text \<open>What the decoder of the client undoes: the law a codec keeps.\<close>

definition codec_ok :: "zcodec \<Rightarrow> (string \<Rightarrow> string) \<Rightarrow> bool" where
  "codec_ok z dec \<longleftrightarrow> (\<forall>h. dec (emitted z h @ zfin z h) = zwritten h)"

lemma emitted_snoc: "emitted z (h @ [p]) = emitted z h @ zemit z (h @ [p])"
proof -
  have "map (\<lambda>i. zemit z (take (Suc i) (h @ [p]))) [0..<length h] =
      map (\<lambda>i. zemit z (take (Suc i) h)) [0..<length h]" by (rule map_cong) auto
  then show ?thesis unfolding emitted_def by (simp del: take_append map_eq_conv)
qed

lemma emitted_Nil [simp]: "emitted z [] = []"
  by (simp add: emitted_def)

definition same_but :: "string set \<Rightarrow> headers \<Rightarrow> headers \<Rightarrow> bool" where
  "same_but ks h h' \<longleftrightarrow> (\<forall>k. k \<notin> ks \<longrightarrow> h k = h' k)"

lemma same_but_upd [intro]:
  "same_but ks h h' \<Longrightarrow> same_but ks (hset k v h) (hset k v h')"
  "same_but ks h h' \<Longrightarrow> same_but ks (hdel k h) (hdel k h')"
  by (auto simp: same_but_def hset_def hdel_def)

lemma same_but_refl [simp]: "same_but ks h h"
  by (simp add: same_but_def)

definition coding_hdrs :: "string \<Rightarrow> headers \<Rightarrow> headers" where
  "coding_hdrs coding h = hdel ''Content-Length'' (hset ''Content-Encoding'' coding h)"

lemma coding_lower [simp]:
  "to_lower ''Content-Encoding'' = ''content-encoding''" "to_lower ''Content-Length'' = ''content-length''"
  by code_simp+

lemma same_but_coding: "same_but coding_keys h (coding_hdrs coding h)"
  by (simp add: same_but_def coding_hdrs_def hset_def hdel_def coding_keys_def)

text \<open>
  The plain connection \<open>cp\<close> and the one under the compressing writer, \<open>cg\<close>, with the
  writer's state, after the same calls.
\<close>

definition z_rel :: "string \<Rightarrow> zcodec \<Rightarrow> conn \<Rightarrow> conn \<Rightarrow> zstate \<Rightarrow> bool" where
  "z_rel coding z cp cg s \<longleftrightarrow>
     c_fail cp = None \<and> c_fail cg = None \<and> same_but coding_keys (c_hdrs cp) (c_hdrs cg) \<and>
     (case c_sent cp of
        None \<Rightarrow> c_sent cg = None \<and> s = zstate0 \<and> c_body cp = [] \<and> c_body cg = []
      | Some (code, h) \<Rightarrow>
          \<not> no_body code \<and> z_written s \<and> z_status s = code \<and>
          (\<exists>h'. c_sent cg = Some (code, h') \<and> same_but coding_keys h h' \<and>
             hget h' ''Content-Encoding'' = coding \<and> hget h' ''Content-Length'' = []) \<and>
          c_body cp = zwritten (z_hist s) \<and> c_body cg = emitted z (z_hist s))"

locale compressing =
  fixes W :: "rw \<Rightarrow> zstate \<Rightarrow> rw" and coding :: string and zc :: "codecs \<Rightarrow> zcodec" and msg :: string
    and sync :: "codecs \<Rightarrow> rw \<Rightarrow> zstate \<Rightarrow> rw \<times> zstate"
  assumes W_hdrs: "rw_hdrs (W w s) = rw_hdrs w"
    and W_upd: "upd_hdrs f (W w s) = W (upd_hdrs f w) s"
    and W_header: "write_header code (W w s) =
      (if z_written s then W w s
       else W (write_header code (compressed_hdrs coding code w)) (s\<lparr>z_status := code, z_written := True\<rparr>))"
    and W_write: "rw_write Z p (W w s) =
      (let (w1, s1) = (if z_written s then (w, s)
              else (let code = (if z_status s = 0 then 200 else z_status s)
                    in (write_header code (compressed_hdrs coding code w),
                        s\<lparr>z_status := code, z_written := True\<rparr>)));
           h = z_hist s1 @ [ZWrite p]; out = zemit (zc Z) h;
           (w2, e) = (if out = [] then (w1, None) else rw_write Z out w1)
       in (W w2 (s1\<lparr>z_hist := h\<rparr>), wrap_err msg e))"
    and W_flusher: "is_flusher (W w s)"
    and W_flush: "rw_flush Z (W w s) =
      (let (w1, s1) = sync Z w s in W (if is_flusher w1 then rw_flush Z w1 else w1) s1)"
    and sync_cases: "sync Z w s = (w, s) \<or>
      sync Z w s = (let h = z_hist s @ [ZFlush]; out = zemit (zc Z) h
        in (if out = [] then w else fst (rw_write Z out w), s\<lparr>z_hist := h\<rparr>))"
begin

lemma rel_hdrs:
  assumes "z_rel coding z cp cg s" "\<And>h h'. same_but coding_keys h h' \<Longrightarrow> same_but coding_keys (f h) (f h')"
  shows "z_rel coding z (cp\<lparr>c_hdrs := f (c_hdrs cp)\<rparr>) (cg\<lparr>c_hdrs := f (c_hdrs cg)\<rparr>) s"
  using assms by (auto simp: z_rel_def split: option.splits)

lemma rel_commit:
  assumes "z_rel coding z cp cg s" "200 \<le> code" "\<not> no_body code" "c_sent cp = None"
  shows "\<exists>cg'. write_header code (compressed_hdrs coding code (Conn cg)) = Conn cg' \<and>
     z_rel coding z (conn_write_header code cp) cg' (s\<lparr>z_status := code, z_written := True\<rparr>)"
proof -
  from assms(3) have "code \<noteq> 204" "code \<noteq> 304" by (auto simp: no_body_def)
  then have "write_header code (compressed_hdrs coding code (Conn cg)) =
      Conn (conn_write_header code (cg\<lparr>c_hdrs := coding_hdrs coding (c_hdrs cg)\<rparr>))"
    by (simp add: compressed_hdrs_def coding_hdrs_def)
  moreover have "same_but coding_keys (c_hdrs cp) (coding_hdrs coding (c_hdrs cg))"
    using assms(1) same_but_coding [of "c_hdrs cg" coding] by (auto simp: z_rel_def same_but_def)
  ultimately show ?thesis using assms
    by (auto simp: z_rel_def conn_write_header_fresh zstate0_def coding_hdrs_def)
qed

lemma rel_header:
  assumes "z_rel coding z cp cg s" "200 \<le> code"
    "c_sent (conn_write_header code cp) = Some (code', h)" "\<not> no_body code'"
  shows "\<exists>cg' s'. write_header code (W (Conn cg) s) = W (Conn cg') s' \<and>
     z_rel coding z (conn_write_header code cp) cg' s'"
proof (cases "c_sent cp")
  case None
  with assms have "code' = code" by (simp add: conn_write_header_fresh)
  with rel_commit [OF assms(1,2) _ None] assms(4) obtain cg' where
    "write_header code (compressed_hdrs coding code (Conn cg)) = Conn cg'"
    "z_rel coding z (conn_write_header code cp) cg' (s\<lparr>z_status := code, z_written := True\<rparr>)" by blast
  moreover have "\<not> z_written s" using assms(1) None by (simp add: z_rel_def zstate0_def)
  ultimately show ?thesis by (auto simp: W_header)
next
  case (Some x)
  with assms(1) show ?thesis by (auto simp: W_header z_rel_def split: prod.splits)
qed

lemma rel_write_sent:
  assumes "z_rel coding (zc Z) cp cg s" "c_sent cp = Some (code, h)"
  shows "\<exists>cg' s'. rw_write Z p (W (Conn cg) s) = (W (Conn cg') s', None) \<and>
     conn_write p cp = (cp\<lparr>c_body := c_body cp @ p\<rparr>, None) \<and>
     z_rel coding (zc Z) (cp\<lparr>c_body := c_body cp @ p\<rparr>) cg' s'"
proof -
  from assms obtain h' where r: "\<not> no_body code" "z_written s" "c_sent cg = Some (code, h')"
    "c_fail cp = None" "c_fail cg = None" by (auto simp: z_rel_def)
  let ?out = "zemit (zc Z) (z_hist s @ [ZWrite p])"
  have "rw_write Z p (W (Conn cg) s) =
      (W (Conn (cg\<lparr>c_body := c_body cg @ ?out\<rparr>)) (s\<lparr>z_hist := z_hist s @ [ZWrite p]\<rparr>), None)"
    using r conn_write_ok [OF r(3,1,5)] by (simp add: W_write Let_def wrap_err_def)
  moreover have "z_rel coding (zc Z) (cp\<lparr>c_body := c_body cp @ p\<rparr>) (cg\<lparr>c_body := c_body cg @ ?out\<rparr>)
      (s\<lparr>z_hist := z_hist s @ [ZWrite p]\<rparr>)"
    using assms by (auto simp: z_rel_def emitted_snoc)
  ultimately show ?thesis using conn_write_ok [OF assms(2) r(1,4)] by blast
qed

lemma rel_write:
  assumes "z_rel coding (zc Z) cp cg s" "c_sent (fst (conn_write p cp)) = Some (code, h)" "\<not> no_body code"
  shows "\<exists>cg' s'. rw_write Z p (W (Conn cg) s) = (W (Conn cg') s', None) \<and>
     snd (conn_write p cp) = None \<and> z_rel coding (zc Z) (fst (conn_write p cp)) cg' s'"
proof (cases "c_sent cp")
  case (Some x)
  obtain a b where "x = (a, b)" by fastforce
  with Some have "c_sent cp = Some (a, b)" by simp
  from rel_write_sent [OF assms(1) this, of p] show ?thesis by (metis fst_conv snd_conv)
next
  case None
  have nb: "\<not> no_body 200" by (simp add: no_body_def)
  obtain cg' where cg': "write_header 200 (compressed_hdrs coding 200 (Conn cg)) = Conn cg'"
    "z_rel coding (zc Z) (conn_write_header 200 cp) cg' (s\<lparr>z_status := 200, z_written := True\<rparr>)"
    using rel_commit [OF assms(1) _ nb None] by auto
  have s: "\<not> z_written s" "z_status s = 0" using assms(1) None by (simp_all add: z_rel_def zstate0_def)
  have sent: "c_sent (conn_write_header 200 cp) = Some (200, c_hdrs cp)"
    using None by (simp add: conn_write_header_fresh)
  have "rw_write Z p (W (Conn cg) s) = rw_write Z p (W (Conn cg') (s\<lparr>z_status := 200, z_written := True\<rparr>))"
    using s cg'(1) by (simp add: W_write Let_def)
  moreover have "conn_write p cp = conn_write p (conn_write_header 200 cp)"
    using sent by (simp add: conn_write_def Let_def)
  ultimately show ?thesis using rel_write_sent [OF cg'(2) sent, of p] by (metis fst_conv snd_conv)
qed

lemma rel_flush:
  assumes "z_rel coding (zc Z) cp cg s" "c_sent cp = Some x"
  shows "\<exists>cg' s'. rw_flush Z (W (Conn cg) s) = W (Conn cg') s' \<and> z_rel coding (zc Z) cp cg' s'"
proof -
  obtain code h where "x = (code, h)" by fastforce
  with assms obtain h' where r: "\<not> no_body code" "c_sent cg = Some (code, h')" "c_fail cg = None"
    by (auto simp: z_rel_def)
  from sync_cases [of Z "Conn cg" s] show ?thesis
  proof
    assume "sync Z (Conn cg) s = (Conn cg, s)"
    with assms r(2) show ?thesis by (auto simp: W_flush conn_flush_def)
  next
    let ?out = "zemit (zc Z) (z_hist s @ [ZFlush])"
    let ?cg = "cg\<lparr>c_body := c_body cg @ ?out\<rparr>" and ?s = "s\<lparr>z_hist := z_hist s @ [ZFlush]\<rparr>"
    assume "sync Z (Conn cg) s = (let h = z_hist s @ [ZFlush]; out = zemit (zc Z) h
        in (if out = [] then Conn cg else fst (rw_write Z out (Conn cg)), s\<lparr>z_hist := h\<rparr>))"
    then have "sync Z (Conn cg) s = (Conn ?cg, ?s)"
      using conn_write_ok [OF r(2,1,3)] by (simp add: Let_def)
    then have "rw_flush Z (W (Conn cg) s) = W (Conn ?cg) ?s"
      using r(2) by (simp add: W_flush conn_flush_def)
    moreover have "z_rel coding (zc Z) cp ?cg ?s"
      using assms by (auto simp: z_rel_def emitted_snoc)
    ultimately show ?thesis by blast
  qed
qed

sublocale writer_sim Z "\<lambda>c. W (Conn c)" "z_rel coding (zc Z)" body_sent True for Z
proof
  fix cp cg s f k v
  assume rel: "z_rel coding (zc Z) cp cg s" and f: "f = hset k v \<or> f = hdel k"
  from f have "z_rel coding (zc Z) (cp\<lparr>c_hdrs := f (c_hdrs cp)\<rparr>) (cg\<lparr>c_hdrs := f (c_hdrs cg)\<rparr>) s"
    by (intro rel_hdrs [OF rel]) auto
  then show "\<exists>cg' s'. upd_hdrs f (W (Conn cg) s) = W (Conn cg') s' \<and>
      z_rel coding (zc Z) (cp\<lparr>c_hdrs := f (c_hdrs cp)\<rparr>) cg' s'"
    by (auto simp: W_upd)
next
  fix cp cg s k
  assume "z_rel coding (zc Z) cp cg s" "to_lower k \<notin> coding_keys"
  then show "hget (rw_hdrs (W (Conn cg) s)) k = hget (c_hdrs cp) k"
    by (simp add: W_hdrs z_rel_def same_but_def hget_def)
next
  fix cp cg s code
  assume "z_rel coding (zc Z) cp cg s" "200 \<le> code" "body_sent (conn_write_header code cp)"
  then show "\<exists>cg' s'. write_header code (W (Conn cg) s) = W (Conn cg') s' \<and>
      z_rel coding (zc Z) (conn_write_header code cp) cg' s'"
    by (auto simp: body_sent_def intro: rel_header)
next
  fix cp cg s p
  assume rel: "z_rel coding (zc Z) cp cg s" and "body_sent (fst (conn_write p cp))"
  then obtain code h where "c_sent (fst (conn_write p cp)) = Some (code, h)" "\<not> no_body code"
    unfolding body_sent_def by blast
  from rel_write [OF rel this] show "\<exists>cg' s'. rw_write Z p (W (Conn cg) s) = (W (Conn cg') s', snd (conn_write p cp)) \<and>
      z_rel coding (zc Z) (fst (conn_write p cp)) cg' s'" by metis
qed (use body_sent_before rel_flush W_flusher in blast)+

lemma rel_start: "fresh_conn c \<Longrightarrow> z_rel coding (zc Z) c c zstate0"
  by (simp add: z_rel_def fresh_conn_def)

text \<open>The response behind the writer, once it is closed.\<close>

lemma transparent:
  assumes "fresh_conn c" "stream_prog p False" "run_prog Z p (Conn c) = (Conn cp, res)"
    "c_sent cp = Some (code, h)" "\<not> no_body code" "codec_ok (zc Z) dec"
  shows "\<exists>cg s cg' h'. run_prog Z p (W (Conn c) zstate0) = (W (Conn cg) s, res) \<and>
     z_close Z (zc Z) s (Conn cg) = Conn cg' \<and> c_sent cg' = Some (code, h') \<and>
     dec (c_body cg') = c_body cp \<and> hget h' ''Content-Encoding'' = coding \<and>
     hget h' ''Content-Length'' = [] \<and> same_but coding_keys h h'"
proof -
  from rel_run [OF rel_start [OF assms(1)] assms(2) _ _ assms(3)] assms(4,5) obtain cg s where
    run: "run_prog Z p (W (Conn c) zstate0) = (W (Conn cg) s, res)" and rel: "z_rel coding (zc Z) cp cg s"
    unfolding body_sent_def by blast
  from rel assms(4) obtain h' where r: "c_sent cg = Some (code, h')" "same_but coding_keys h h'"
    "hget h' ''Content-Encoding'' = coding" "hget h' ''Content-Length'' = []" "z_status s = code"
    "c_body cp = zwritten (z_hist s)" "c_body cg = emitted (zc Z) (z_hist s)" "c_fail cg = None"
    by (auto simp: z_rel_def)
  let ?fin = "zfin (zc Z) (z_hist s)"
  have "code \<noteq> 204" "code \<noteq> 304" using assms(5) by (auto simp: no_body_def)
  then have close: "z_close Z (zc Z) s (Conn cg) = Conn (cg\<lparr>c_body := c_body cg @ ?fin\<rparr>)"
    using r(5) conn_write_ok [OF r(1) assms(5) r(8), of ?fin] by (simp add: z_close_def)
  have "dec (c_body cg @ ?fin) = c_body cp" using assms(6) r(6,7) by (simp add: codec_ok_def)
  then have "dec (c_body (cg\<lparr>c_body := c_body cg @ ?fin\<rparr>)) = c_body cp" by simp
  moreover have "c_sent (cg\<lparr>c_body := c_body cg @ ?fin\<rparr>) = Some (code, h')" using r(1) by simp
  ultimately show ?thesis using run close r(2-4) by blast
qed

end

interpretation gzip_writer: compressing GzipW "''gzip''" z_gzip "''gzip: writing compressed body''" gzip_sync
  by unfold_locales (simp_all only: rw_hdrs.simps upd_hdrs.simps write_header_simps rw_write_simps
      is_flusher.simps rw_flush_simps gzip_sync_def simp_thms)

interpretation brotli_writer: compressing BrotliW "''br''" z_brotli "''brotli: writing compressed body''" "\<lambda>Z w s. (w, s)"
  by unfold_locales (simp_all only: rw_hdrs.simps upd_hdrs.simps write_header_simps rw_write_simps
      is_flusher.simps rw_flush_simps Let_def prod.case simp_thms)


text \<open>A codec for the examples: a start mark, the bytes as they are, an end mark.\<close>

definition demo_codec :: zcodec where
  "demo_codec = \<lparr>zemit = (\<lambda>h. (if length h = 1 then ''Z'' else []) @ zwritten (if h = [] then [] else [last h])),
     zfin = (\<lambda>h. (if h = [] then ''Z.'' else ''.''))\<rparr>"

definition demo_decode :: "string \<Rightarrow> string" where
  "demo_decode s = butlast (tl s)"

definition demo_codecs :: codecs where
  "demo_codecs = \<lparr>z_gzip = demo_codec, z_brotli = demo_codec, z_sha1 = (\<lambda>s. show_nat (length s))\<rparr>"

lemma demo_codec_ok: "codec_ok demo_codec demo_decode"
proof -
  have "emitted demo_codec h = (if h = [] then [] else ''Z'' @ zwritten h)" for h
    by (induction h rule: rev_induct) (auto simp: emitted_snoc demo_codec_def)
  then show ?thesis by (auto simp: codec_ok_def demo_decode_def demo_codec_def butlast_append)
qed

definition demo_conn :: conn where
  "demo_conn = \<lparr>c_hdrs = (\<lambda>_. []), c_sent = None, c_body = [], c_fail = None\<rparr>"

definition demo_request :: request where
  "demo_request = \<lparr>rq_method = ''GET'', rq_path = ''/a'',
     rq_hdrs = hset ''Accept-Encoding'' ''gzip, br'' (\<lambda>_. []), rq_remote = ''10.0.0.1:5000'',
     rq_basic = None, rq_cookies = (\<lambda>_. None), rq_form = (\<lambda>_. []), rq_ctx = (\<lambda>_. None)\<rparr>"

definition demo_page :: "request \<Rightarrow> hprog" where
  "demo_page r = PSet ''Content-Length'' ''4'' (PStatus 201 (PWrite ''ab'' (\<lambda>_. PWrite ''cd'' (\<lambda>_. PRet HNil))))"

text \<open>
  C22: gzip is transparent. For a client that accepts gzip, a handler that sends a response with
  a body (whatever it writes in however many pieces, flushing in between once it has begun, and
  whatever it returns) sends the same
  status and headers behind the middleware, except that the response is marked gzip and has no
  content length, and decompressing the body gives exactly what the handler wrote.
\<close>

theorem gzip_transparent:
  assumes "\<forall>p \<in> set skip. \<not> has_prefix (rq_path r) p" "hget (c_hdrs c) ''Content-Encoding'' = []"
    "contains (hget (rq_hdrs r) ''Accept-Encoding'') ''gzip''" "codec_ok (z_gzip Z) dec"
    "fresh_conn c" "stream_prog (prog r) False" "run_prog Z (prog r) (Conn c) = (Conn cp, res)"
    "c_sent cp = Some (code, h)" "\<not> no_body code"
  shows "\<exists>cg h'. gzip_mw Z skip (\<lambda>r. run_prog Z (prog r)) r (Conn c) = (Conn cg, res) \<and>
     c_sent cg = Some (code, h') \<and> dec (c_body cg) = c_body cp \<and>
     hget h' ''Content-Encoding'' = ''gzip'' \<and> hget h' ''Content-Length'' = [] \<and> same_but coding_keys h h'"
proof -
  from gzip_writer.transparent [OF assms(5-9,4)] obtain cg s cg' h' where
    "run_prog Z (prog r) (GzipW (Conn c) zstate0) = (GzipW (Conn cg) s, res)"
    "z_close Z (z_gzip Z) s (Conn cg) = Conn cg'" "c_sent cg' = Some (code, h')"
    "dec (c_body cg') = c_body cp" "hget h' ''Content-Encoding'' = ''gzip''"
    "hget h' ''Content-Length'' = []" "same_but coding_keys h h'" by blast
  moreover have "\<not> (\<exists>p \<in> set skip. has_prefix (rq_path r) p)" using assms(1) by blast
  ultimately show ?thesis using assms(2,3) by (simp add: gzip_mw_def)
qed

lemma demo_run: "\<exists>cp h. run_prog demo_codecs (demo_page demo_request) (Conn demo_conn) = (Conn cp, HNil) \<and>
    c_sent cp = Some (201, h) \<and> c_body cp = ''abcd''"
  by (simp add: demo_page_def demo_conn_def conn_write_header_def conn_write_def Let_def no_body_def)

lemma demo_plain: "fresh_conn demo_conn" "plain_prog (demo_page demo_request)" "\<not> no_body 201"
  by (simp_all add: fresh_conn_def demo_conn_def demo_page_def no_body_def)

lemma demo_accepts:
  "contains (hget (rq_hdrs demo_request) ''Accept-Encoding'') ''gzip''"
  "contains (hget (rq_hdrs demo_request) ''Accept-Encoding'') ''br''"
  by (simp_all add: demo_request_def contains_def cut.simps)

theorem gzip_transparent_witness:
  "\<exists>cg h'. gzip_mw demo_codecs [] (\<lambda>r. run_prog demo_codecs (demo_page r)) demo_request (Conn demo_conn) =
       (Conn cg, HNil) \<and> c_sent cg = Some (201, h') \<and> demo_decode (c_body cg) = ''abcd''"
proof -
  obtain cp h where cp: "run_prog demo_codecs (demo_page demo_request) (Conn demo_conn) = (Conn cp, HNil)"
    "c_sent cp = Some (201, h)" "c_body cp = ''abcd''" using demo_run by blast
  have "codec_ok (z_gzip demo_codecs) demo_decode" by (simp add: demo_codecs_def demo_codec_ok)
  from gzip_transparent [where skip = "[]" and prog = demo_page, OF _ _ demo_accepts(1) this demo_plain(1) plain_stream [OF demo_plain(2)] cp(1,2) demo_plain(3)] cp(3)
  show ?thesis by (auto simp: demo_conn_def hget_def)
qed

text \<open>Brotli is transparent, in the same sense, for a client that accepts it.\<close>

theorem brotli_transparent:
  assumes "\<forall>p \<in> set skip. \<not> has_prefix (rq_path r) p"
    "contains (hget (rq_hdrs r) ''Accept-Encoding'') ''br''" "codec_ok (z_brotli Z) dec"
    "fresh_conn c" "stream_prog (prog r) False" "run_prog Z (prog r) (Conn c) = (Conn cp, res)"
    "c_sent cp = Some (code, h)" "\<not> no_body code"
  shows "\<exists>cg h'. brotli_mw Z skip (\<lambda>r. run_prog Z (prog r)) r (Conn c) = (Conn cg, res) \<and>
     c_sent cg = Some (code, h') \<and> dec (c_body cg) = c_body cp \<and>
     hget h' ''Content-Encoding'' = ''br'' \<and> hget h' ''Content-Length'' = [] \<and> same_but coding_keys h h'"
proof -
  from brotli_writer.transparent [OF assms(4-8,3)] obtain cg s cg' h' where
    "run_prog Z (prog r) (BrotliW (Conn c) zstate0) = (BrotliW (Conn cg) s, res)"
    "z_close Z (z_brotli Z) s (Conn cg) = Conn cg'" "c_sent cg' = Some (code, h')"
    "dec (c_body cg') = c_body cp" "hget h' ''Content-Encoding'' = ''br''"
    "hget h' ''Content-Length'' = []" "same_but coding_keys h h'" by blast
  moreover have "\<not> (\<exists>p \<in> set skip. has_prefix (rq_path r) p)" using assms(1) by blast
  ultimately show ?thesis using assms(2) by (simp add: brotli_mw_def)
qed

theorem brotli_transparent_witness:
  "\<exists>cg h'. brotli_mw demo_codecs [] (\<lambda>r. run_prog demo_codecs (demo_page r)) demo_request (Conn demo_conn) =
       (Conn cg, HNil) \<and> c_sent cg = Some (201, h') \<and> demo_decode (c_body cg) = ''abcd''"
proof -
  obtain cp h where cp: "run_prog demo_codecs (demo_page demo_request) (Conn demo_conn) = (Conn cp, HNil)"
    "c_sent cp = Some (201, h)" "c_body cp = ''abcd''" using demo_run by blast
  have "codec_ok (z_brotli demo_codecs) demo_decode" by (simp add: demo_codecs_def demo_codec_ok)
  from brotli_transparent [where skip = "[]" and prog = demo_page, OF _ demo_accepts(2) this demo_plain(1) plain_stream [OF demo_plain(2)] cp(1,2) demo_plain(3)] cp(3)
  show ?thesis by auto
qed

lemma error_handler_sent:
  "c_sent c = Some x \<Longrightarrow> \<exists>c'. default_error_handler Z (Conn c) e = Conn c' \<and> c_sent c' = Some x"
  by (simp add: default_error_handler_def http_error_def Let_def conn_write_sent)




section \<open>ETag\<close>

text \<open>The plain connection and the one under an ETag writer, after the same calls.\<close>

definition e_rel :: "conn \<Rightarrow> conn \<Rightarrow> estate \<Rightarrow> bool" where
  "e_rel cp ce s \<longleftrightarrow> c_fail cp = None \<and> c_fail ce = None \<and> c_hdrs ce = c_hdrs cp \<and>
     (case c_sent cp of
        None \<Rightarrow> c_sent ce = None \<and> s = estate0 \<and> c_body cp = [] \<and> c_body ce = []
      | Some (code, h) \<Rightarrow>
          \<not> no_body code \<and> e_wrote s \<and> e_status s = code \<and>
          (if code = 200 then c_sent ce = None \<and> c_body ce = [] \<and> e_buf s = c_body cp
           else ce = cp \<and> e_buf s = []))"

lemma e_rel_hdrs:
  "e_rel cp ce s \<Longrightarrow> e_rel (cp\<lparr>c_hdrs := f (c_hdrs cp)\<rparr>) (ce\<lparr>c_hdrs := f (c_hdrs ce)\<rparr>) s"
  by (auto simp: e_rel_def split: option.splits if_splits)

lemma e_rel_header:
  assumes "e_rel cp ce s" "200 \<le> code" "c_sent (conn_write_header code cp) = Some (code', h)" "\<not> no_body code'"
  shows "\<exists>ce' s'. write_header code (EtagW (Conn ce) s) = EtagW (Conn ce') s' \<and>
     e_rel (conn_write_header code cp) ce' s'"
  using assms
  by (cases "c_sent cp")
     (auto simp: e_rel_def conn_write_header_fresh estate0_def split: if_splits prod.splits)

lemma e_rel_write_sent:
  assumes "e_rel cp ce s" "c_sent cp = Some (code, h)"
  shows "\<exists>ce' s'. rw_write Z p (EtagW (Conn ce) s) = (EtagW (Conn ce') s', None) \<and>
     conn_write p cp = (cp\<lparr>c_body := c_body cp @ p\<rparr>, None) \<and>
     e_rel (cp\<lparr>c_body := c_body cp @ p\<rparr>) ce' s'"
proof -
  from assms have r: "\<not> no_body code" "c_fail cp = None" by (auto simp: e_rel_def)
  have w: "conn_write p cp = (cp\<lparr>c_body := c_body cp @ p\<rparr>, None)"
    by (rule conn_write_ok [OF assms(2) r])
  have s: "e_wrote s" "e_status s = code" using assms by (auto simp: e_rel_def)
  show ?thesis
  proof (cases "code = 200")
    case True
    then have "rw_write Z p (EtagW (Conn ce) s) = (EtagW (Conn ce) (s\<lparr>e_buf := e_buf s @ p\<rparr>), None)"
      using s by (simp add: Let_def)
    moreover have "e_rel (cp\<lparr>c_body := c_body cp @ p\<rparr>) ce (s\<lparr>e_buf := e_buf s @ p\<rparr>)"
      using assms True by (simp add: e_rel_def)
    ultimately show ?thesis using w by blast
  next
    case False
    with assms have ce: "ce = cp" by (simp add: e_rel_def)
    have "rw_write Z p (EtagW (Conn ce) s) = (EtagW (Conn (cp\<lparr>c_body := c_body cp @ p\<rparr>)) s, None)"
      using s w False unfolding ce by (simp add: Let_def wrap_err_def)
    moreover have "e_rel (cp\<lparr>c_body := c_body cp @ p\<rparr>) (cp\<lparr>c_body := c_body cp @ p\<rparr>) s"
      using assms False by (simp add: e_rel_def)
    ultimately show ?thesis using w by blast
  qed
qed

lemma e_rel_write:
  assumes "e_rel cp ce s" "c_sent (fst (conn_write p cp)) = Some (code, h)" "\<not> no_body code"
  shows "\<exists>ce' s'. rw_write Z p (EtagW (Conn ce) s) = (EtagW (Conn ce') s', None) \<and>
     snd (conn_write p cp) = None \<and> e_rel (fst (conn_write p cp)) ce' s'"
proof (cases "c_sent cp")
  case (Some x)
  obtain a b where "x = (a, b)" by fastforce
  with Some e_rel_write_sent [OF assms(1), of a b Z p] show ?thesis by auto
next
  case None
  have nb: "\<not> no_body 200" by (simp add: no_body_def)
  have sent: "c_sent (conn_write_header 200 cp) = Some (200, c_hdrs cp)"
    using None by (simp add: conn_write_header_fresh)
  from e_rel_header [OF assms(1) _ sent nb] obtain ce' s' where
    h: "write_header 200 (EtagW (Conn ce) s) = EtagW (Conn ce') s'" "e_rel (conn_write_header 200 cp) ce' s'" by auto
  have "\<not> e_wrote s" using assms(1) None by (simp add: e_rel_def estate0_def)
  with h(1) have "rw_write Z p (EtagW (Conn ce) s) = rw_write Z p (EtagW (Conn ce') s')"
    by (auto simp: Let_def)
  moreover have "conn_write p cp = conn_write p (conn_write_header 200 cp)"
    using sent by (simp add: conn_write_def Let_def)
  ultimately show ?thesis using e_rel_write_sent [OF h(2) sent, of Z p] by auto
qed

interpretation etag_writer: writer_sim Z "\<lambda>c. EtagW (Conn c)" e_rel body_sent False for Z
proof
  fix cp cg s k v and f :: "headers \<Rightarrow> headers"
  assume "e_rel cp cg s"
  then show "\<exists>cg' s'. upd_hdrs f (EtagW (Conn cg) s) = EtagW (Conn cg') s' \<and>
      e_rel (cp\<lparr>c_hdrs := f (c_hdrs cp)\<rparr>) cg' s'" by (auto intro: e_rel_hdrs)
next
  fix cp cg s k
  assume "e_rel cp cg s"
  then show "hget (rw_hdrs (EtagW (Conn cg) s)) k = hget (c_hdrs cp) k" by (simp add: e_rel_def)
next
  fix cp cg s code
  assume rel: "e_rel cp cg s" "200 \<le> code" and "body_sent (conn_write_header code cp)"
  then obtain code' h where "c_sent (conn_write_header code cp) = Some (code', h)" "\<not> no_body code'"
    unfolding body_sent_def by blast
  from e_rel_header [OF rel this] show "\<exists>cg' s'. write_header code (EtagW (Conn cg) s) = EtagW (Conn cg') s' \<and>
      e_rel (conn_write_header code cp) cg' s'" .
next
  fix cp cg s p
  assume rel: "e_rel cp cg s" and "body_sent (fst (conn_write p cp))"
  then obtain code h where "c_sent (fst (conn_write p cp)) = Some (code, h)" "\<not> no_body code"
    unfolding body_sent_def by blast
  from e_rel_write [OF rel this, of Z] show "\<exists>cg' s'. rw_write Z p (EtagW (Conn cg) s) =
      (EtagW (Conn cg') s', snd (conn_write p cp)) \<and> e_rel (fst (conn_write p cp)) cg' s'" by metis
qed (use body_sent_before in blast)+

lemma e_rel_start: "fresh_conn c \<Longrightarrow> e_rel c c estate0"
  by (simp add: e_rel_def fresh_conn_def)


lemma demo_conditions:
  "hget (rq_hdrs demo_request) ''If-None-Match'' = []" "hget (rq_hdrs demo_request) ''If-Match'' = []"
  by (simp_all add: demo_request_def hget_def hset_def to_lower_def lower_char_def)

lemma demo_cacheable: "is_cacheable demo_request []"
proof -
  have "range_runes ''websocket'' \<noteq> []"
    using range_runes_ascii_Cons [of "CHR ''w''" "''ebsocket''"] by (simp add: is_ascii_def)
  then have "\<not> equal_fold [] ''websocket''" by (simp add: equal_fold_def)
  moreover have "hget (rq_hdrs demo_request) ''Upgrade'' = []" "hget (rq_hdrs demo_request) ''Accept'' = []"
    by (simp_all add: demo_request_def hget_def hset_def to_lower_def lower_char_def)
  ultimately show ?thesis by (simp add: is_cacheable_def demo_request_def contains_def cut.simps)
qed


text \<open>
  An error behind ETag can still be answered. If the handler returns an error after writing
  a 200 response, nothing of it has reached the connection, so that the error handler decides
  the status and the body; under the middleware no half-sent page precedes an error page.
\<close>

theorem etag_error_uncommitted:
  assumes "is_cacheable r skip" "fresh_conn c" "plain_prog (prog r)"
    "run_prog Z (prog r) (Conn c) = (Conn cp, HErr e)" "c_sent cp = Some (200, h)"
  shows "\<exists>ce. etag_mw Z skip (\<lambda>r. run_prog Z (prog r)) r (Conn c) = (Conn ce, HErr e) \<and>
     c_sent ce = None \<and> c_body ce = [] \<and>
     (\<exists>ce' h'. adapt (etag_mw Z skip (\<lambda>r. run_prog Z (prog r))) (\<lambda>_. default_error_handler Z) r (Conn c) =
        (Conn ce', HNil) \<and> c_sent ce' = Some (500, h') \<and> c_body ce' = ''Internal Server Error'' @ [CHR 0x0A])"
proof -
  have "body_sent cp" using assms(5) unfolding body_sent_def by (auto simp: no_body_def)
  from etag_writer.rel_run [OF e_rel_start [OF assms(2)] plain_stream [OF assms(3)] disjI2 [OF assms(3)] _ assms(4) this, of False] obtain ce s where
    run: "run_prog Z (prog r) (EtagW (Conn c) estate0) = (EtagW (Conn ce) s, HErr e)" and rel: "e_rel cp ce s" by blast
  have ce: "c_sent ce = None" "c_body ce = []" "c_fail ce = None" using rel assms(5) by (simp_all add: e_rel_def)
  have mw: "etag_mw Z skip (\<lambda>r. run_prog Z (prog r)) r (Conn c) = (Conn ce, HErr e)"
    using run assms(1) by (simp add: etag_mw_def)
  moreover have "\<exists>ce' h'. default_error_handler Z (Conn ce) e = Conn ce' \<and> c_sent ce' = Some (500, h') \<and>
      c_body ce' = ''Internal Server Error'' @ [CHR 0x0A]"
    using ce by (simp add: default_error_handler_def http_error_def Let_def conn_write_header_fresh
        conn_write_def no_body_def)
  ultimately show ?thesis using ce by (simp add: adapt_def)
qed

theorem etag_error_uncommitted_witness:
  "\<exists>ce. etag_mw demo_codecs [] (\<lambda>r. run_prog demo_codecs (PWrite ''ab'' (\<lambda>_. PRet (HErr (GErr ''db''))))) demo_request
     (Conn demo_conn) = (Conn ce, HErr (GErr ''db'')) \<and> c_sent ce = None"
proof -
  let ?p = "PWrite ''ab'' (\<lambda>_. PRet (HErr (GErr ''db'')))"
  obtain cp h where cp: "run_prog demo_codecs ?p (Conn demo_conn) = (Conn cp, HErr (GErr ''db''))"
    "c_sent cp = Some (200, h)"
    by (simp add: demo_conn_def conn_write_header_def conn_write_def Let_def no_body_def)
  have "plain_prog ?p" by simp
  from etag_error_uncommitted [where prog = "\<lambda>r. ?p", OF demo_cacheable demo_plain(1) this cp] show ?thesis by blast
qed

end
