(* ===== verification/Ratelimit.thy ===== *)
theory Ratelimit
  imports Http Complex_Main
begin

text \<open>
  Rate limiting (\<open>middleware/ratelimit\<close>): the token bucket, the manager of one bucket per
  key with the eviction of idle buckets, and the middleware. Times are nanoseconds; a
  \<open>float64\<close> is a rational (rounding is not modelled). One method call under its locks is
  one step.
\<close>

record bucket =
  tokens :: rat
  last_refill :: int

definition new_bucket :: "rat \<Rightarrow> int \<Rightarrow> bucket" where
  "new_bucket capacity now = \<lparr>tokens = capacity, last_refill = now\<rparr>"

definition seconds :: "int \<Rightarrow> rat" where
  "seconds d = of_int d / 1000000000"

definition bucket_allow :: "rat \<Rightarrow> rat \<Rightarrow> int \<Rightarrow> bucket \<Rightarrow> bool \<times> bucket" where
  "bucket_allow rate capacity now b =
     (let t = tokens b + seconds (now - last_refill b) * rate;
          t' = (if t > capacity then capacity else t)
      in if t' \<ge> 1 then (True, \<lparr>tokens = t' - 1, last_refill = now\<rparr>)
         else (False, \<lparr>tokens = t', last_refill = now\<rparr>))"

record manager =
  buckets :: "string \<rightharpoonup> bucket"
  m_rate :: rat
  m_capacity :: rat
  m_expiration :: int

definition new_manager :: "rat \<Rightarrow> rat \<Rightarrow> int \<Rightarrow> manager" where
  "new_manager rate capacity expiration =
     \<lparr>buckets = (\<lambda>_. None), m_rate = rate, m_capacity = capacity, m_expiration = expiration\<rparr>"

definition manager_allow :: "string \<Rightarrow> int \<Rightarrow> manager \<Rightarrow> bool \<times> manager" where
  "manager_allow key now m =
     (let b = (case buckets m key of Some b \<Rightarrow> b | None \<Rightarrow> new_bucket (m_capacity m) now);
          (ok, b') = bucket_allow (m_rate m) (m_capacity m) now b
      in (ok, m\<lparr>buckets := (buckets m)(key \<mapsto> b')\<rparr>))"

definition manager_cleanup :: "int \<Rightarrow> manager \<Rightarrow> manager" where
  "manager_cleanup now m =
     m\<lparr>buckets := (\<lambda>key. case buckets m key of
         None \<Rightarrow> None
       | Some b \<Rightarrow> if now - last_refill b > m_expiration m then None else Some b)\<rparr>"

text \<open>\<open>cleanupLoop\<close>, at the given ticks.\<close>

definition cleanup_loop :: "int list \<Rightarrow> manager \<Rightarrow> manager" where
  "cleanup_loop ticks m = fold manager_cleanup ticks m"

datatype mevent = MAllow string int | MCleanup int

fun mstep :: "manager \<Rightarrow> mevent \<Rightarrow> manager" where
  "mstep m (MAllow key now) = snd (manager_allow key now m)"
| "mstep m (MCleanup now) = manager_cleanup now m"

text \<open>The decisions of a sequence of calls, in order.\<close>

fun decisions :: "manager \<Rightarrow> mevent list \<Rightarrow> bool list" where
  "decisions m [] = []"
| "decisions m (MAllow key now # es) =
     fst (manager_allow key now m) # decisions (snd (manager_allow key now m)) es"
| "decisions m (MCleanup now # es) = decisions (manager_cleanup now m) es"

section \<open>The middleware\<close>

text \<open>\<open>net.SplitHostPort\<close>, the host.\<close>

definition split_host :: "string \<Rightarrow> string option" where
  "split_host s =
     (let after = takeWhile (\<lambda>c. c \<noteq> CHR '':'') (rev s); i = length s - length after - 1 in
      if CHR '':'' \<notin> set s then None
      else if hd s = CHR ''['' then
        (if CHR '']'' \<notin> set s then None
         else let e = length (takeWhile (\<lambda>c. c \<noteq> CHR '']'') s) in
           if e + 1 \<noteq> i then None
           else if CHR ''['' \<in> set (drop 1 s) \<or> CHR '']'' \<in> set (drop (e + 1) s) then None
           else Some (take (e - 1) (drop 1 s)))
      else if CHR '':'' \<in> set (take i s) then None
      else if CHR ''['' \<in> set s \<or> CHR '']'' \<in> set s then None
      else Some (take i s))"

definition default_key :: "request \<Rightarrow> string" where
  "default_key r = (case split_host (rq_remote r) of None \<Rightarrow> rq_remote r | Some h \<Rightarrow> h)"

definition too_many_requests :: "codecs \<Rightarrow> handler" where
  "too_many_requests Z r w =
     (let (w', e) = rw_write Z ''Too Many Requests'' (write_header 429 w)
      in (w', case e of None \<Rightarrow> HNil | Some e' \<Rightarrow> HErr e'))"

text \<open>The options with their defaults; \<open>None\<close> is a nil function.\<close>

record limit_config =
  l_rate :: rat
  l_capacity :: rat
  l_key :: "(request \<Rightarrow> string) option"
  l_expiration :: int
  l_error :: "handler option"

definition limit_new :: "limit_config \<Rightarrow> manager outcome" where
  "limit_new cfg =
     (if l_rate cfg \<le> 0 then Panicked ''ratelimit: Rate must be positive''
      else if l_capacity cfg \<le> 0 then Panicked ''ratelimit: Capacity must be positive''
      else
        (let expiration = (if l_expiration cfg = 0 then 60000000000 else l_expiration cfg) in
         if expiration < 0 then Panicked ''non-positive interval for NewTicker''
         else Done (new_manager (l_rate cfg) (l_capacity cfg) expiration)))"

definition limit_mw ::
  "codecs \<Rightarrow> limit_config \<Rightarrow> handler \<Rightarrow> request \<Rightarrow> rw \<Rightarrow> manager \<times> int \<Rightarrow> (rw \<times> hresult) \<times> manager" where
  "limit_mw Z cfg next r w mn =
     (let key = (case l_key cfg of Some k \<Rightarrow> k r | None \<Rightarrow> default_key r);
          (ok, m') = manager_allow key (snd mn) (fst mn)
      in (if \<not> ok then (case l_error cfg of Some h \<Rightarrow> h r w | None \<Rightarrow> too_many_requests Z r w)
          else next r w, m'))"

end
