(* ===== verification/Ratelimit_Claims.thy ===== *)
theory Ratelimit_Claims
  imports Ratelimit
begin

text \<open>
  What rate limiting promises. The tokens a key could spend at a time, \<open>eff\<close>, determine every
  decision; evicting an idle bucket does not change them when the bucket would have refilled,
  and they bound the number of requests that pass in any period.
\<close>

definition cap :: "rat \<Rightarrow> rat \<Rightarrow> rat" where
  "cap c x = (if x > c then c else x)"

definition eff :: "manager \<Rightarrow> string \<Rightarrow> int \<Rightarrow> rat" where
  "eff m key now =
     (case buckets m key of
        None \<Rightarrow> m_capacity m
      | Some b \<Rightarrow> cap (m_capacity m) (tokens b + seconds (now - last_refill b) * m_rate m))"

fun event_time :: "mevent \<Rightarrow> int" where
  "event_time (MAllow key now) = now"
| "event_time (MCleanup now) = now"

fun is_allow :: "mevent \<Rightarrow> bool" where
  "is_allow (MAllow key now) = True"
| "is_allow (MCleanup now) = False"

text \<open>How many requests of a key pass.\<close>

definition passed :: "string \<Rightarrow> manager \<Rightarrow> mevent \<Rightarrow> bool" where
  "passed key m e =
     (case e of MAllow k now \<Rightarrow> k = key \<and> fst (manager_allow k now m) | MCleanup now \<Rightarrow> False)"

fun grants :: "string \<Rightarrow> manager \<Rightarrow> mevent list \<Rightarrow> nat" where
  "grants key m [] = 0"
| "grants key m (e # es) =
     (if passed key m e then 1 else 0) + grants key (mstep m e) es"

definition limit_inv :: "int \<Rightarrow> manager \<Rightarrow> bool" where
  "limit_inv t m \<longleftrightarrow> 0 < m_rate m \<and> 0 < m_capacity m \<and>
     (\<forall>key b. buckets m key = Some b \<longrightarrow> 0 \<le> tokens b \<and> last_refill b \<le> t)"

definition lasting :: "manager \<Rightarrow> bool" where
  "lasting m \<longleftrightarrow> m_capacity m \<le> seconds (m_expiration m) * m_rate m"

lemma seconds_simps [simp]: "seconds 0 = 0"
  by (simp add: seconds_def)

lemma seconds_add: "seconds (a + b) = seconds a + seconds b"
  by (simp add: seconds_def add_divide_distrib)

lemma seconds_diff: "seconds (c - a) = seconds (b - a) + seconds (c - b)"
  using seconds_add [of "b - a" "c - b"] by simp

lemma seconds_mono: "a \<le> b \<Longrightarrow> seconds a \<le> seconds b"
  by (simp add: seconds_def divide_right_mono)

lemma seconds_nonneg: "0 \<le> d \<Longrightarrow> 0 \<le> seconds d"
  using seconds_mono [of 0 d] by simp

lemma mstep_params [simp]:
  "m_rate (mstep m e) = m_rate m" "m_capacity (mstep m e) = m_capacity m"
  "m_expiration (mstep m e) = m_expiration m" "lasting (mstep m e) = lasting m"
  by (cases e; simp add: manager_allow_def manager_cleanup_def lasting_def split: prod.splits)+

declare mstep.simps(1) [simp del]

lemma allow_eff:
  shows "fst (manager_allow key now m) = (eff m key now \<ge> 1)"
    and "buckets (mstep m (MAllow key now)) = (buckets m)
      (key \<mapsto> \<lparr>tokens = eff m key now - (if eff m key now \<ge> 1 then 1 else 0), last_refill = now\<rparr>)"
  by (auto simp: mstep.simps(1) manager_allow_def eff_def bucket_allow_def new_bucket_def cap_def Let_def split: option.splits)

lemma eff_nonneg: "limit_inv t m \<Longrightarrow> t \<le> now \<Longrightarrow> 0 \<le> eff m key now"
proof -
  assume a: "limit_inv t m" "t \<le> now"
  show ?thesis
  proof (cases "buckets m key")
    case (Some b)
    with a have "0 \<le> tokens b" "last_refill b \<le> t" "0 < m_rate m" "0 < m_capacity m"
      by (auto simp: limit_inv_def)
    with a(2) have "0 \<le> tokens b" "last_refill b \<le> now" "0 < m_rate m" "0 < m_capacity m" by auto
    moreover from this have "0 \<le> seconds (now - last_refill b) * m_rate m"
      by (intro mult_nonneg_nonneg seconds_nonneg) auto
    ultimately show ?thesis using Some by (simp add: eff_def cap_def)
  qed (use a in \<open>simp add: eff_def limit_inv_def\<close>)
qed

lemma eff_cap: "eff m key now \<le> m_capacity m"
  by (simp add: eff_def cap_def split: option.splits)

lemma limit_inv_step:
  assumes "limit_inv t m" "t \<le> event_time e"
  shows "limit_inv (event_time e) (mstep m e)"
proof (cases e)
  case (MAllow key now)
  have "0 \<le> eff m key now" using eff_nonneg [OF assms(1)] assms(2) MAllow by simp
  moreover have "last_refill b \<le> now" if "buckets m k = Some b" for k b
    using assms MAllow that by (fastforce simp: limit_inv_def)
  ultimately show ?thesis using assms MAllow allow_eff(2) [of m key now]
    by (auto simp: limit_inv_def)
next
  case (MCleanup now)
  have "last_refill b \<le> now" if "buckets m k = Some b" for k b
    using assms MCleanup that by (fastforce simp: limit_inv_def)
  with assms MCleanup show ?thesis
    by (auto simp: limit_inv_def manager_cleanup_def split: option.splits if_splits)
qed

lemma limit_inv_new: "0 < rate \<Longrightarrow> 0 < capacity \<Longrightarrow> limit_inv t (new_manager rate capacity expiration)"
  by (simp add: limit_inv_def new_manager_def)

lemma cap_add: "0 \<le> y \<Longrightarrow> cap c (cap c x + y) = cap c (x + y)"
  by (simp add: cap_def)

text \<open>Between two calls tokens arrive at the rate, up to the capacity.\<close>

lemma eff_later:
  assumes "0 < m_rate m" "now \<le> t"
  shows "eff m key t = cap (m_capacity m) (eff m key now + seconds (t - now) * m_rate m)"
proof -
  have nn: "0 \<le> seconds (t - now) * m_rate m"
    using assms by (intro mult_nonneg_nonneg seconds_nonneg) auto
  show ?thesis
  proof (cases "buckets m key")
    case None
    with nn show ?thesis by (simp add: eff_def cap_def)
  next
    case (Some b)
    have "seconds (t - last_refill b) * m_rate m =
        seconds (now - last_refill b) * m_rate m + seconds (t - now) * m_rate m"
      by (simp add: seconds_diff [of t "last_refill b" now] distrib_right)
    with Some cap_add [OF nn] show ?thesis by (simp add: eff_def add.assoc)
  qed
qed

lemma eff_allow:
  "eff (mstep m (MAllow key now)) k now = (if k = key \<and> eff m key now \<ge> 1 then eff m key now - 1 else eff m k now)"
proof -
  have "eff m key now \<le> m_capacity m" by (rule eff_cap)
  then show ?thesis
    unfolding eff_def [of "mstep m (MAllow key now)"] allow_eff(2) mstep_params
    by (auto simp: cap_def eff_def split: option.splits)
qed

lemma eff_cleanup:
  assumes "limit_inv t m" "t \<le> now" "lasting m"
  shows "eff (manager_cleanup now m) key now = eff m key now"
proof (cases "buckets m key")
  case (Some b)
  show ?thesis
  proof (cases "now - last_refill b > m_expiration m")
    case True
    have "0 \<le> tokens b" "0 < m_rate m" using assms(1) Some by (auto simp: limit_inv_def)
    moreover have "seconds (m_expiration m) * m_rate m \<le> seconds (now - last_refill b) * m_rate m"
      using True \<open>0 < m_rate m\<close> by (intro mult_right_mono seconds_mono) auto
    ultimately have "m_capacity m \<le> tokens b + seconds (now - last_refill b) * m_rate m"
      using assms(3) unfolding lasting_def by linarith
    with Some True show ?thesis by (simp add: eff_def manager_cleanup_def cap_def)
  qed (use Some in \<open>simp add: eff_def manager_cleanup_def\<close>)
qed (simp add: eff_def manager_cleanup_def)

lemma eff_other:
  assumes "limit_inv t m" "t \<le> event_time e" "lasting m"
  shows "eff (mstep m e) key (event_time e) =
     eff m key (event_time e) - (if passed key m e then 1 else 0)"
  using eff_cleanup [OF assms(1) _ assms(3)] assms(2)
  by (cases e) (auto simp: passed_def eff_allow allow_eff(1))

lemma grants_bound:
  assumes "limit_inv t m" "lasting m" "sorted (t # map event_time es)" "\<forall>e \<in> set es. event_time e \<le> T" "t \<le> T"
  shows "rat_of_nat (grants key m es) \<le> eff m key t + seconds (T - t) * m_rate m"
  using assms
proof (induction es arbitrary: t m)
  case Nil
  have "0 \<le> seconds (T - t) * m_rate m" using Nil by (intro mult_nonneg_nonneg seconds_nonneg) (auto simp: limit_inv_def)
  with eff_nonneg [OF Nil(1)] show ?case by (simp add: add_nonneg_nonneg)
next
  case (Cons e es)
  let ?now = "event_time e" and ?m = "mstep m e"
  let ?g = "if passed key m e then 1 else (0 :: rat)"
  have t: "t \<le> ?now" "?now \<le> T" using Cons.prems by auto
  have ih: "rat_of_nat (grants key ?m es) \<le> eff ?m key ?now + seconds (T - ?now) * m_rate m"
    using Cons.IH [OF limit_inv_step [OF Cons.prems(1) t(1)]] Cons.prems t(2) by simp
  have "rat_of_nat (grants key m (e # es)) = ?g + rat_of_nat (grants key ?m es)"
    by simp
  moreover have "eff ?m key ?now = eff m key ?now - ?g"
    by (rule eff_other [OF Cons.prems(1) t(1) Cons.prems(2)])
  moreover have "eff m key ?now \<le> eff m key t + seconds (?now - t) * m_rate m"
    using eff_later [of m t ?now key] Cons.prems(1) t(1) by (simp add: limit_inv_def cap_def)
  moreover have "seconds (T - t) * m_rate m = seconds (?now - t) * m_rate m + seconds (T - ?now) * m_rate m"
    by (simp add: seconds_diff [of T t ?now] distrib_right)
  ultimately show ?case using ih by linarith
qed



lemma decisions_allow:
  "decisions m (MAllow key now # es) = (eff m key now \<ge> 1) # decisions (mstep m (MAllow key now)) es"
  by (simp add: allow_eff(1) mstep.simps(1))

lemma decisions_eff:
  assumes "limit_inv t m" "limit_inv t m'" "lasting m" "m_rate m' = m_rate m" "m_capacity m' = m_capacity m"
    "\<forall>key. eff m' key t = eff m key t" "sorted (t # map event_time es)"
  shows "decisions m es = decisions m' (filter is_allow es)"
  using assms
proof (induction es arbitrary: t m m')
  case (Cons e es)
  have t: "t \<le> event_time e" using Cons.prems by auto
  have r: "0 < m_rate m" using Cons.prems(1) by (simp add: limit_inv_def)
  have now: "eff m' key (event_time e) = eff m key (event_time e)" for key
    using eff_later [OF r t, of key] eff_later [of m' t "event_time e" key] r t Cons.prems(4,5,6) by simp
  note inv = limit_inv_step [OF Cons.prems(1) t]
  show ?case
  proof (cases e)
    case (MAllow key tm)
    have "decisions (mstep m e) es = decisions (mstep m' e) (filter is_allow es)"
      using limit_inv_step [OF Cons.prems(2) t] Cons.prems(3-5,7) now MAllow
      by (intro Cons.IH [OF inv]) (auto simp: eff_allow)
    with MAllow now show ?thesis by (simp add: decisions_allow del: decisions.simps(2))
  next
    case (MCleanup tm)
    have inv': "limit_inv tm m'" using Cons.prems(2) t MCleanup by (auto simp: limit_inv_def) force
    have "decisions (mstep m e) es = decisions m' (filter is_allow es)"
      using inv' Cons.prems(3-5,7) now MCleanup eff_cleanup [OF Cons.prems(1) _ Cons.prems(3), of tm] t
      by (intro Cons.IH [OF inv]) (auto simp: lasting_def manager_cleanup_def)
    with MCleanup show ?thesis by simp
  qed
qed simp


text \<open>
  C26: eviction cannot be observed. Under the same proviso every decision of the manager is the
  one it would have made if it had never evicted a bucket.
\<close>

theorem eviction_unobservable:
  assumes "0 < rate" "0 < capacity" "capacity \<le> seconds expiration * rate"
    "sorted (map event_time es)"
  shows "decisions (new_manager rate capacity expiration) es =
     decisions (new_manager rate capacity expiration) (filter is_allow es)"
proof (cases es)
  case (Cons e es')
  have l: "lasting (new_manager rate capacity expiration)"
    using assms(3) by (simp add: lasting_def new_manager_def)
  have "sorted (event_time e # map event_time es)" using assms(4) Cons by auto
  with limit_inv_new [OF assms(1,2)] l show ?thesis
    by (intro decisions_eff [where t = "event_time e"]) auto
qed simp

theorem eviction_unobservable_witness:
  "decisions (new_manager 1 2 3000000000)
     [MAllow ''a'' 0, MAllow ''a'' 1, MCleanup 4000000000, MAllow ''a'' 4000000000] =
   decisions (new_manager 1 2 3000000000) [MAllow ''a'' 0, MAllow ''a'' 1, MAllow ''a'' 4000000000]"
proof -
  have "decisions (new_manager 1 2 3000000000)
     [MAllow ''a'' 0, MAllow ''a'' 1, MCleanup 4000000000, MAllow ''a'' 4000000000] =
   decisions (new_manager 1 2 3000000000)
     (filter is_allow [MAllow ''a'' 0, MAllow ''a'' 1, MCleanup 4000000000, MAllow ''a'' 4000000000])"
    by (rule eviction_unobservable) (auto simp: seconds_def)
  then show ?thesis by simp
qed

end
