(* ===== verification/Middleware.thy ===== *)
theory Middleware
  imports Http Ratelimit Compress
begin

unbundle bit_operations_syntax

text \<open>
  The middlewares that decide on a request or set headers: CORS (\<open>middleware/cors\<close>), security
  headers (\<open>middleware/security\<close>), request IDs (\<open>middleware/requestid\<close>), Basic and JWT
  authentication (\<open>middleware/auth\<close>), CSRF tokens (\<open>middleware/csrf\<close>), panic recovery
  (\<open>middleware/recovery\<close>) and logging (\<open>middleware/logger\<close>).
\<close>

section \<open>CORS\<close>

record cors_options =
  allowed_origins :: "string list"
  allowed_methods :: "string list"
  allowed_headers :: "string list"
  exposed_headers :: "string list"
  allow_credentials :: bool
  max_age :: int
  allow_websockets :: bool

definition cors_defaults :: cors_options where
  "cors_defaults = \<lparr>allowed_origins = [''*''],
     allowed_methods = [''GET'', ''OPTIONS'', ''POST'', ''PUT'', ''DELETE''], allowed_headers = [''*''],
     exposed_headers = [], allow_credentials = False, max_age = 5, allow_websockets = False\<rparr>"

definition cors_allowed :: "cors_options \<Rightarrow> string \<Rightarrow> bool" where
  "cors_allowed opts origin \<longleftrightarrow>
     allowed_origins opts = [] \<or> list_ex (\<lambda>v. v = origin \<or> v = ''*'') (allowed_origins opts)"

definition set_if :: "bool \<Rightarrow> string \<Rightarrow> string \<Rightarrow> headers \<Rightarrow> headers" where
  "set_if b k v hs = (if b then hset k v hs else hs)"

definition cors_headers :: "cors_options \<Rightarrow> string \<Rightarrow> headers \<Rightarrow> headers" where
  "cors_headers opts origin =
     set_if (allow_websockets opts) ''Access-Control-Allow-Websocket'' ''true''
     \<circ> set_if (max_age opts > 0) ''Access-Control-Max-Age'' (show_int (max_age opts))
     \<circ> set_if (allow_credentials opts) ''Access-Control-Allow-Credentials'' ''true''
     \<circ> set_if (exposed_headers opts \<noteq> []) ''Access-Control-Expose-Headers'' (join (exposed_headers opts) '', '')
     \<circ> set_if (allowed_headers opts \<noteq> []) ''Access-Control-Allow-Headers'' (join (allowed_headers opts) '', '')
     \<circ> set_if (allowed_methods opts \<noteq> []) ''Access-Control-Allow-Methods'' (join (allowed_methods opts) '', '')
     \<circ> hset ''Access-Control-Allow-Origin'' origin"

definition cors_mw :: "cors_options \<Rightarrow> middleware" where
  "cors_mw opts next r w =
     (let origin = hget (rq_hdrs r) ''Origin'' in
      if \<not> cors_allowed opts origin then (write_header 403 w, HNil)
      else (let w1 = upd_hdrs (cors_headers opts origin) w in
            if rq_method r = ''OPTIONS'' then (write_header 204 w1, HNil) else next r w1))"

section \<open>Security headers\<close>

record security_config =
  xss_protection :: string
  content_type_nosniff :: string
  x_frame_options :: string
  hsts_max_age :: int
  hsts_exclude_subdomains :: bool
  hsts_preload :: bool
  content_security_policy :: string
  referrer_policy :: string

definition security_normalize :: "security_config \<Rightarrow> security_config" where
  "security_normalize c =
     c\<lparr>xss_protection := (if xss_protection c = [] then ''1; mode=block'' else xss_protection c),
       content_type_nosniff := (if content_type_nosniff c = [] then ''nosniff'' else content_type_nosniff c),
       x_frame_options := (if x_frame_options c = [] then ''SAMEORIGIN'' else x_frame_options c)\<rparr>"

definition hsts_value :: "security_config \<Rightarrow> string" where
  "hsts_value c =
     ''max-age='' @ show_int (hsts_max_age c)
     @ (if \<not> hsts_exclude_subdomains c then ''; includeSubDomains'' else [])
     @ (if hsts_preload c then ''; preload'' else [])"

definition security_headers :: "security_config \<Rightarrow> headers \<Rightarrow> headers" where
  "security_headers c =
     set_if (referrer_policy c \<noteq> []) ''Referrer-Policy'' (referrer_policy c)
     \<circ> set_if (content_security_policy c \<noteq> []) ''Content-Security-Policy'' (content_security_policy c)
     \<circ> set_if (hsts_max_age c > 0) ''Strict-Transport-Security'' (hsts_value c)
     \<circ> set_if (x_frame_options c \<noteq> []) ''X-Frame-Options'' (x_frame_options c)
     \<circ> set_if (content_type_nosniff c \<noteq> []) ''X-Content-Type-Options'' (content_type_nosniff c)
     \<circ> set_if (xss_protection c \<noteq> []) ''X-XSS-Protection'' (xss_protection c)"

definition security_mw :: "security_config \<Rightarrow> middleware" where
  "security_mw config next r w = next r (upd_hdrs (security_headers (security_normalize config)) w)"

text \<open>\<open>DefaultConfig\<close> and \<open>New\<close>.\<close>

definition security_default :: security_config where
  "security_default = \<lparr>xss_protection = ''1; mode=block'', content_type_nosniff = ''nosniff'',
     x_frame_options = ''SAMEORIGIN'', hsts_max_age = 0, hsts_exclude_subdomains = False, hsts_preload = False,
     content_security_policy = [], referrer_policy = []\<rparr>"

definition security_new :: middleware where
  "security_new = security_mw security_default"

section \<open>Request IDs\<close>

definition hex_encode :: "nat list \<Rightarrow> string" where
  "hex_encode bs = concat (map (\<lambda>b. [lower_hex (b div 16), lower_hex (b mod 16)]) bs)"

text \<open>
  \<open>randomID\<close>: \<open>rand\<close> is what \<open>rand.Read\<close> put into the 16 bytes; the code encodes them
  whether it failed or not.
\<close>

definition random_id :: "nat list \<Rightarrow> string" where
  "random_id rand = hex_encode rand"

text \<open>\<open>gen\<close> is what the configured generator returns, \<open>hdr\<close> the configured header.\<close>

definition requestid_mw :: "string \<Rightarrow> string \<Rightarrow> middleware" where
  "requestid_mw hdr gen next r w =
     (let key = (if hdr = [] then ''X-Request-ID'' else hdr); old = hget (rq_hdrs r) key;
          rid = (if old = [] then gen else old);
          r' = (if old = [] then r\<lparr>rq_hdrs := hset key rid (rq_hdrs r)\<rparr> else r)
      in next r' (upd_hdrs (hset key rid) w))"

text \<open>The configuration (with what a generator returns, \<open>None\<close> for nil), \<open>WithConfig\<close>, \<open>New\<close>.\<close>

record requestid_config =
  ri_generator :: "string option"
  ri_header :: string

definition requestid_with_config :: "requestid_config \<Rightarrow> nat list \<Rightarrow> middleware" where
  "requestid_with_config cfg rand =
     requestid_mw (ri_header cfg) (case ri_generator cfg of None \<Rightarrow> random_id rand | Some g \<Rightarrow> g)"

definition requestid_new :: "nat list \<Rightarrow> middleware" where
  "requestid_new = requestid_with_config \<lparr>ri_generator = None, ri_header = []\<rparr>"

section \<open>Comparing secrets\<close>

text \<open>
  \<open>subtle.ConstantTimeCompare\<close>: 0 for different lengths, else whether the disjunction of the
  differences of all bytes is 0, which takes the same time wherever the strings differ.
\<close>

definition byte_of :: "char \<Rightarrow> 8 word" where
  "byte_of c = word_of_nat (of_char c)"

fun differences :: "string \<Rightarrow> string \<Rightarrow> 8 word" where
  "differences (x # xs) (y # ys) = (byte_of x XOR byte_of y) OR differences xs ys"
| "differences _ _ = 0"

definition constant_time_compare :: "string \<Rightarrow> string \<Rightarrow> int" where
  "constant_time_compare a b = (if length a = length b \<and> differences a b = 0 then 1 else 0)"

definition subtle_compare :: "string \<Rightarrow> string \<Rightarrow> bool" where
  "subtle_compare a b \<longleftrightarrow> constant_time_compare a b = 1"

lemma byte_of_inj: "byte_of x = byte_of y \<longleftrightarrow> x = y"
proof -
  have "unat (byte_of c) = of_char c" for c
    using unat_of_nat [where 'a = 8, of "of_char c"] by (simp add: byte_of_def take_bit_nat_eq_self)
  then show ?thesis by (metis of_char_eq_iff)
qed

lemma xor_zero: "(x :: 8 word) XOR y = 0 \<longleftrightarrow> x = y"
proof
  assume "x XOR y = 0"
  then have "(x XOR y) XOR y = y" by simp
  then show "x = y" by (simp add: xor.assoc)
qed simp

lemma differences_zero: "length a = length b \<Longrightarrow> differences a b = 0 \<longleftrightarrow> a = b"
  by (induction a b rule: differences.induct) (auto simp: or_eq_0_iff xor_zero byte_of_inj)

lemma constant_time_compare_eq [simp]: "constant_time_compare a b = (if a = b then 1 else 0)"
  by (auto simp: constant_time_compare_def differences_zero)

lemma subtle_compare_eq [simp]: "subtle_compare a b \<longleftrightarrow> a = b"
  by (simp add: subtle_compare_def)

section \<open>Basic authentication\<close>

definition basic_auth_mw :: "string \<Rightarrow> string \<Rightarrow> string list \<Rightarrow> middleware" where
  "basic_auth_mw username password realm next r w =
     (let default_realm = (case realm of [] \<Rightarrow> ''Restricted'' | x # _ \<Rightarrow> x) in
      case rq_basic r of
        Some (user, pass) \<Rightarrow>
          if constant_time_compare user username \<noteq> 1 \<or> constant_time_compare pass password \<noteq> 1
          then (write_header 401 (upd_hdrs (hset ''WWW-Authenticate''
                  (''Basic realm='' @ [CHR 0x22] @ default_realm @ [CHR 0x22])) w), HNil)
          else next r w
      | None \<Rightarrow> (write_header 401 (upd_hdrs (hset ''WWW-Authenticate''
                  (''Basic realm='' @ [CHR 0x22] @ default_realm @ [CHR 0x22])) w), HNil))"

section \<open>JWT\<close>

text \<open>
  \<open>jwt_parse tok keyfunc\<close> stands for \<open>jwt.Parse\<close> of the JWT library: it gives the key
  function the signing method of the token (whether it is an HMAC, and its \<open>alg\<close>) and returns
  the claims and \<open>token.Valid\<close>.
\<close>

type_synonym jwt_parse = "string \<Rightarrow> (bool \<Rightarrow> string \<Rightarrow> string go) \<Rightarrow> (json \<times> bool) go"

definition jwt_key :: "string \<Rightarrow> bool \<Rightarrow> string \<Rightarrow> string go" where
  "jwt_key secret is_hmac alg =
     (if \<not> is_hmac then Inl (GErr (''unexpected signing method: '' @ alg)) else Inr secret)"

definition verify_jwt :: "jwt_parse \<Rightarrow> string \<Rightarrow> string \<Rightarrow> json go" where
  "verify_jwt parse secret tok =
     (case parse tok (jwt_key secret) of
        Inl e \<Rightarrow> Inl (GWrap ''auth: parsing JWT'' e)
      | Inr (claims, valid) \<Rightarrow>
          (if \<not> valid then Inl (GErr ''auth: invalid or expired token'') else Inr claims))"

definition bearer_token :: "request \<Rightarrow> string" where
  "bearer_token r = trim_space (trim_prefix (hget (rq_hdrs r) ''Authorization'') ''Bearer '')"

definition with_ctx :: "string \<Rightarrow> ctx_value \<Rightarrow> request \<Rightarrow> request" where
  "with_ctx k v r = r\<lparr>rq_ctx := (rq_ctx r)(k \<mapsto> v)\<rparr>"

definition jwt_mw :: "jwt_parse \<Rightarrow> string \<Rightarrow> (request \<Rightarrow> bool) option \<Rightarrow> middleware" where
  "jwt_mw parse secret skip next r w =
     (if (case skip of Some f \<Rightarrow> f r | None \<Rightarrow> False)
      then next (with_ctx ''jwt_auth_skipped'' (CtxBool True) r) w
      else if bearer_token r = [] then (write_header 401 w, HNil)
      else case verify_jwt parse secret (bearer_token r) of
          Inl e \<Rightarrow> (write_header 401 w, HNil)
        | Inr claims \<Rightarrow> next (with_ctx ''jwt_claims_key'' (CtxState claims) r) w)"

definition jwt_claims :: "request \<Rightarrow> json go" where
  "jwt_claims r =
     (case rq_ctx r ''jwt_claims_key'' of
        Some (CtxState c) \<Rightarrow> Inr c
      | _ \<Rightarrow> Inl (GErr ''auth: invalid or missing JWT claims''))"

definition jwt_auth_skipped :: "request \<Rightarrow> bool" where
  "jwt_auth_skipped r = (case rq_ctx r ''jwt_auth_skipped'' of Some (CtxBool b) \<Rightarrow> b | _ \<Rightarrow> False)"


text \<open>
  \<open>CreateJWTToken\<close>: \<open>sign\<close> is the library's HS256 signature of the claims under a
  secret, \<open>now\<close> and \<open>expiry\<close> are nanoseconds.
\<close>

definition create_jwt :: "(json \<Rightarrow> string \<Rightarrow> string go) \<Rightarrow> string \<Rightarrow> json \<Rightarrow> int \<Rightarrow> int \<Rightarrow> string go" where
  "create_jwt sign secret payload now expiry =
     (if secret = [] then Inl (GErr ''auth: secret key must not be empty'')
      else case sign (JObj [(''payload'', payload), (''exp'', JInt ((now + expiry) div 1000000000))]) secret of
          Inl e \<Rightarrow> Inl (GWrap ''auth: signing JWT'' e)
        | Inr t \<Rightarrow> Inr t)"

section \<open>CSRF\<close>

text \<open>\<open>base64.StdEncoding\<close>.\<close>

definition b64_char :: "nat \<Rightarrow> char" where
  "b64_char v =
     (if v < 26 then char_of (65 + v) else if v < 52 then char_of (71 + v)
      else if v < 62 then char_of (v - 4) else if v = 62 then CHR ''+'' else CHR ''/'')"

fun base64 :: "nat list \<Rightarrow> string" where
  "base64 [] = []"
| "base64 [a] = [b64_char (a div 4), b64_char (a mod 4 * 16), CHR ''='', CHR ''='']"
| "base64 [a, b] = [b64_char (a div 4), b64_char (a mod 4 * 16 + b div 16), b64_char (b mod 16 * 4), CHR ''='']"
| "base64 (a # b # c # bs) =
     [b64_char (a div 4), b64_char (a mod 4 * 16 + b div 16), b64_char (b mod 16 * 4 + c div 64), b64_char (c mod 64)]
     @ base64 bs"

definition create_token :: "nat list go \<Rightarrow> string go" where
  "create_token rand =
     (case rand of
        Inl e \<Rightarrow> Inl (GWrap ''csrf: generating random token'' e)
      | Inr bs \<Rightarrow> Inr (base64 bs))"

definition is_safe_method :: "string \<Rightarrow> bool" where
  "is_safe_method m \<longleftrightarrow> m = ''GET'' \<or> m = ''HEAD'' \<or> m = ''OPTIONS'' \<or> m = ''TRACE''"

definition csrf_cookie :: "string \<Rightarrow> bool \<Rightarrow> string" where
  "csrf_cookie token secure =
     ''csrf_token='' @ token @ ''; Path=/; HttpOnly'' @ (if secure then ''; Secure'' else []) @ ''; SameSite=Lax''"

definition get_or_create_token :: "nat list go \<Rightarrow> bool \<Rightarrow> request \<Rightarrow> rw \<Rightarrow> string go \<times> rw" where
  "get_or_create_token rand secure r w =
     (case rq_cookies r ''csrf_token'' of
        Some v \<Rightarrow> (Inr v, w)
      | None \<Rightarrow>
          (case create_token rand of
             Inl e \<Rightarrow> (Inl e, w)
           | Inr t \<Rightarrow> (Inr t, upd_hdrs (hadd ''Set-Cookie'' (csrf_cookie t secure)) w)))"

definition validate_csrf :: "request \<Rightarrow> bool" where
  "validate_csrf r =
     (case rq_cookies r ''csrf_token'' of
        None \<Rightarrow> False
      | Some c \<Rightarrow>
          (let form = rq_form r ''csrf_token'';
               token = (if form = [] then hget (rq_hdrs r) ''X-CSRF-Token'' else form)
           in if token = [] then False else subtle_compare token c))"

definition csrf_mw :: "codecs \<Rightarrow> nat list go \<Rightarrow> bool \<Rightarrow> middleware" where
  "csrf_mw Z rand secure next r w =
     (case get_or_create_token rand secure r w of
        (Inl e, w1) \<Rightarrow> (w1, HErr (GWrap ''csrf: unable to create CSRF token'' e))
      | (Inr token, w1) \<Rightarrow>
          (let r1 = with_ctx ''csrf_token_ctx'' (CtxStr token) r in
           if is_safe_method (rq_method r1) then next r1 w1
           else if \<not> validate_csrf r1
           then (http_error Z w1 ''Forbidden: CSRF token validation failed'' 403, HNil)
           else next r1 w1))"

definition csrf_token :: "request \<Rightarrow> string" where
  "csrf_token r = (case rq_ctx r ''csrf_token_ctx'' of Some (CtxStr t) \<Rightarrow> t | _ \<Rightarrow> [])"

section \<open>Recovery\<close>

fun convert_panic :: "panic_value \<Rightarrow> goerr" where
  "convert_panic (PvError e) = e"
| "convert_panic (PvString s) = GErr s"
| "convert_panic (PvStringer s) = GErr s"
| "convert_panic (PvOther s) = GErr (''panic: '' @ s)"

record recovery_config =
  stack_trace :: bool
  rec_logger :: log_sink
  rec_handler :: "(request \<Rightarrow> rw \<Rightarrow> goerr \<Rightarrow> rw) option"
  expose_errors :: bool
  production_message :: string

datatype recovery_option =
    WithStackTrace bool
  | WithRecoveryHandler "request \<Rightarrow> rw \<Rightarrow> goerr \<Rightarrow> rw"
  | WithRecoveryLogger log_sink
  | WithExposeErrors bool
  | WithProductionMessage string

fun apply_recovery_option :: "recovery_option \<Rightarrow> recovery_config \<Rightarrow> recovery_config" where
  "apply_recovery_option (WithStackTrace b) c = c\<lparr>stack_trace := b\<rparr>"
| "apply_recovery_option (WithRecoveryHandler h) c = c\<lparr>rec_handler := Some h\<rparr>"
| "apply_recovery_option (WithRecoveryLogger l) c = c\<lparr>rec_logger := l\<rparr>"
| "apply_recovery_option (WithExposeErrors b) c = c\<lparr>expose_errors := b\<rparr>"
| "apply_recovery_option (WithProductionMessage m) c = c\<lparr>production_message := m\<rparr>"

definition recovery_new :: "recovery_option list \<Rightarrow> recovery_config" where
  "recovery_new opts = fold apply_recovery_option opts
     \<lparr>stack_trace = False, rec_logger = StdLog, rec_handler = None, expose_errors = False,
      production_message = ''Internal Server Error''\<rparr>"

text \<open>What is logged of a panic, with the stack \<open>debug.Stack\<close> returns.\<close>

definition log_error :: "recovery_config \<Rightarrow> string \<Rightarrow> goerr \<Rightarrow> log_sink \<times> string" where
  "log_error cfg stack e =
     (rec_logger cfg,
      if stack_trace cfg
      then ''Panic recovered: '' @ err_msg e @ [newline] @ ''Stack trace:'' @ [newline] @ stack
      else ''Panic recovered: '' @ err_msg e @ [newline])"

definition send_error_response :: "codecs \<Rightarrow> recovery_config \<Rightarrow> request \<Rightarrow> rw \<Rightarrow> goerr \<Rightarrow> rw" where
  "send_error_response Z cfg r w e =
     (let message = (if expose_errors cfg then err_msg e else production_message cfg);
          wants_json = (hget (rq_hdrs r) ''Content-Type'' = ''application/json''
                        \<or> hget (rq_hdrs r) ''Accept'' = ''application/json'');
          w1 = write_header 500 w
      in if wants_json
         then (let w2 = upd_hdrs (hset ''Content-Type'' ''application/json'') w1 in
               case marshal (JObj [(''error'', JStr message)]) of
                 Inl _ \<Rightarrow> fst (rw_write Z message w2)
               | Inr d \<Rightarrow> fst (rw_write Z d w2))
         else fst (rw_write Z message (upd_hdrs (hset ''Content-Type'' ''text/plain'') w1)))"

text \<open>The middleware with what it logs.\<close>

definition recovery_run ::
    "codecs \<Rightarrow> recovery_config \<Rightarrow> string \<Rightarrow> handler \<Rightarrow> request \<Rightarrow> rw \<Rightarrow> (rw \<times> hresult) \<times> (log_sink \<times> string) option" where
  "recovery_run Z cfg stack next r w =
     (case next r w of
        (w1, HPanic v) \<Rightarrow>
          (let e = convert_panic v in
           ((case rec_handler cfg of
               Some h \<Rightarrow> h r w1 e
             | None \<Rightarrow> send_error_response Z cfg r w1 e, HNil), Some (log_error cfg stack e)))
      | (w1, res) \<Rightarrow> ((w1, res), None))"

definition recovery_mw :: "codecs \<Rightarrow> recovery_config \<Rightarrow> middleware" where
  "recovery_mw Z cfg next r w = fst (recovery_run Z cfg [] next r w)"

lemma recovery_mw_eq:
  "recovery_mw Z cfg next r w =
     (case next r w of
        (w1, HPanic v) \<Rightarrow>
          (let e = convert_panic v in
           (case rec_handler cfg of
              Some h \<Rightarrow> h r w1 e
            | None \<Rightarrow> send_error_response Z cfg r w1 e, HNil))
      | (w1, res) \<Rightarrow> (w1, res))"
  by (simp add: recovery_mw_def recovery_run_def Let_def split: prod.split hresult.split)

section \<open>Logging\<close>

text \<open>
  Formats and flags are the integers of the code; \<open>log_options\<close> are the level and whether the
  source position is added.
\<close>

definition TextFormat :: int where "TextFormat = 1"

definition JSONFormat :: int where "JSONFormat = 2"

definition LogIP :: "8 word" where "LogIP = 1"

definition LogLatency :: "8 word" where "LogLatency = 2"

definition LogUserAgent :: "8 word" where "LogUserAgent = 4"

record log_config =
  log_output :: "log_sink option"
  log_format :: int
  log_flags :: "8 word"
  log_skip :: "string list"
  log_skip_if :: "(request \<Rightarrow> bool) option"
  log_options :: "(int \<times> bool) option"
  log_callback :: "(request \<Rightarrow> json list \<Rightarrow> json list) option"

definition std_log_flags :: "8 word" where
  "std_log_flags = LogLatency OR LogIP"

definition default_log_config :: log_config where
  "default_log_config = \<lparr>log_output = Some StdLog, log_format = TextFormat, log_flags = std_log_flags,
     log_skip = [], log_skip_if = None, log_options = Some (0, False), log_callback = None\<rparr>"

text \<open>What \<open>New\<close> completes in the configuration it is given (\<open>None\<close> for nil).\<close>

definition logger_new :: "log_config option \<Rightarrow> log_config" where
  "logger_new config =
     (let c = (case config of None \<Rightarrow> default_log_config | Some c \<Rightarrow> c);
          c1 = (if log_output c = None then c\<lparr>log_output := Some StdLog\<rparr> else c);
          c2 = (if log_format c1 = 0 then c1\<lparr>log_format := TextFormat\<rparr> else c1)
      in if log_options c2 = None then c2\<lparr>log_options := Some (0, False)\<rparr> else c2)"

datatype log_handler =
    JSONHandler "log_sink option" "(int \<times> bool) option"
  | TextHandler "log_sink option" "(int \<times> bool) option"

definition new_log_handler :: "log_config \<Rightarrow> log_handler" where
  "new_log_handler c =
     (if log_format c = JSONFormat then JSONHandler (log_output c) (log_options c)
      else TextHandler (log_output c) (log_options c))"

definition client_ip :: "request \<Rightarrow> string" where
  "client_ip r =
     (let real = hget (rq_hdrs r) ''X-Real-Ip''; fwd = hget (rq_hdrs r) ''X-Forwarded-For'' in
      if real \<noteq> [] then real
      else if fwd \<noteq> [] then (case cut fwd '','' of Some (before, _) \<Rightarrow> trim_space before | None \<Rightarrow> fwd)
      else case split_host (rq_remote r) of None \<Rightarrow> rq_remote r | Some h \<Rightarrow> h)"

definition log_args :: "log_config \<Rightarrow> request \<Rightarrow> nat \<Rightarrow> string \<Rightarrow> json list" where
  "log_args cfg r status latency =
     [JStr ''status'', JInt (int status)]
     @ (if log_flags cfg AND LogLatency \<noteq> 0 then [JStr ''latency'', JStr latency] else [])
     @ [JStr ''method'', JStr (rq_method r), JStr ''path'', JStr (rq_path r)]
     @ (if log_flags cfg AND LogIP \<noteq> 0 then [JStr ''ip'', JStr (client_ip r)] else [])
     @ (if log_flags cfg AND LogUserAgent \<noteq> 0 then [JStr ''user_agent'', JStr (hget (rq_hdrs r) ''User-Agent'')] else [])"

text \<open>
  The logger with what it logs, if anything; \<open>latency\<close> is the measured time as printed. A
  panic passes it without a log line.
\<close>

definition logger_run :: "log_config \<Rightarrow> string \<Rightarrow> handler \<Rightarrow> request \<Rightarrow> rw \<Rightarrow> (rw \<times> hresult) \<times> (log_handler \<times> json list) option" where
  "logger_run cfg latency next r w =
     (if rq_path r \<in> set (log_skip cfg) then (next r w, None)
      else if (case log_skip_if cfg of Some f \<Rightarrow> f r | None \<Rightarrow> False) then (next r w, None)
      else case next r (StatusW w sstate0) of
          (StatusW w1 s, HPanic v) \<Rightarrow> ((w1, HPanic v), None)
        | (StatusW w1 s, res) \<Rightarrow>
            (let status = (if s_status s = 0 then 200 else s_status s);
                 args = log_args cfg r status latency;
                 args' = (case log_callback cfg of Some f \<Rightarrow> f r args | None \<Rightarrow> args)
             in if length args' mod 2 \<noteq> 0 \<and> log_callback cfg \<noteq> None
                then ((w1, HErr (GErr ''logger: Callback must return an even number of arguments'')), None)
                else ((w1, res), Some (new_log_handler cfg, args')))
        | (w1, res) \<Rightarrow> ((w1, res), None))"

definition logger_mw :: "log_config \<Rightarrow> string \<Rightarrow> middleware" where
  "logger_mw cfg latency next r w = fst (logger_run cfg latency next r w)"

end
