(* ===== verification/Middleware_Claims.thy ===== *)
theory Middleware_Claims
  imports Middleware Compress_Claims
begin

text \<open>
  What the middlewares promise together and one by one. The contract they share, a locale, is
  that a handler behind them never takes back what it has sent: the committed status and
  headers stay, the body only grows. It is interpreted for every middleware and carries to any
  chain of them. Then: logging changes nothing, recovery lets no panic out, and CSRF and JWT
  let a request through only with what they ask for.
\<close>

section \<open>Commit safety\<close>

definition conn_le :: "conn \<Rightarrow> conn \<Rightarrow> bool" where
  "conn_le c c' \<longleftrightarrow> (\<forall>x. c_sent c = Some x \<longrightarrow> c_sent c' = Some x) \<and> prefix (c_body c) (c_body c')"

fun shape :: "rw \<Rightarrow> nat list" where
  "shape (Conn c) = [0]"
| "shape (GzipW w s) = 1 # shape w"
| "shape (BrotliW w s) = 2 # shape w"
| "shape (EtagW w s) = 3 # shape w"
| "shape (StatusW w s) = 4 # shape w"
| "shape (BufW w s) = 5 # shape w"

definition rw_le :: "rw \<Rightarrow> rw \<Rightarrow> bool" where
  "rw_le w w' \<longleftrightarrow> shape w' = shape w \<and> conn_le (conn_of w) (conn_of w')"

definition keeps :: "handler \<Rightarrow> bool" where
  "keeps h \<longleftrightarrow> (\<forall>r w. rw_le w (fst (h r w)))"

lemma rw_le_refl [simp]: "rw_le w w"
  by (simp add: rw_le_def conn_le_def)

lemma rw_le_trans [trans]: "rw_le a b \<Longrightarrow> rw_le b c \<Longrightarrow> rw_le a c"
  by (auto simp: rw_le_def conn_le_def)

lemma conn_le_header: "conn_le c (conn_write_header code c)"
  by (auto simp: conn_le_def conn_write_header_def)

lemma conn_le_write: "conn_le c (fst (conn_write p c))"
  by (auto simp: conn_le_def conn_write_def conn_write_header_def Let_def split: option.splits)

lemma rw_le_upd [simp]: "rw_le w (upd_hdrs f w)"
  by (induction w) (auto simp: rw_le_def conn_le_def)

lemma rw_le_compressed [simp]: "rw_le w (compressed_hdrs coding code w)"
  using rw_le_trans [OF rw_le_upd rw_le_upd] by (simp add: compressed_hdrs_def)

lemma rw_le_layers:
  "rw_le w w' \<Longrightarrow> rw_le (GzipW w s) (GzipW w' s1)" "rw_le w w' \<Longrightarrow> rw_le (BrotliW w s) (BrotliW w' s2)"
  "rw_le w w' \<Longrightarrow> rw_le (EtagW w t) (EtagW w' t1)" "rw_le w w' \<Longrightarrow> rw_le (StatusW w u) (StatusW w' u1)"
  "rw_le w w' \<Longrightarrow> rw_le (BufW w v) (BufW w' v1)" "conn_le c c' \<Longrightarrow> rw_le (Conn c) (Conn c')"
  by (auto simp: rw_le_def)

lemma rw_le_header [simp]: "rw_le w (write_header code w)"
proof (induction "depth w" arbitrary: w)
  case 0
  then show ?case by (cases w) (auto simp: conn_le_header intro: rw_le_layers)
next
  case (Suc n)
  have "rw_le v (write_header code (compressed_hdrs coding code v))" if "n = depth v" for v coding
    using that by (intro rw_le_trans [OF rw_le_compressed Suc.hyps(1)]) simp
  with Suc show ?case by (cases w) (auto intro: rw_le_layers)
qed

lemma rw_le_ready: "rw_le w (write_header code (compressed_hdrs coding code w))"
  by (rule rw_le_trans [OF rw_le_compressed rw_le_header])

text \<open>One write through a compressing or observing layer: ready the writer, then pass bytes on.\<close>

lemma rw_le_write [simp]: "rw_le w (fst (rw_write Z p w))"
proof (induction "depth w" arbitrary: w p rule: less_induct)
  case less
  have step: "rw_le w0 (fst (rw_write Z q w1))" if "rw_le w0 w1" "depth w1 < depth w" for w0 w1 q
    using less [OF that(2), of q] that(1) by (auto intro: rw_le_trans)
  show ?case
  proof (cases w)
    case (Conn c)
    then show ?thesis using conn_le_write [of c p] by (auto simp: rw_le_layers)
  next
    case (GzipW w0 s)
    then show ?thesis
      using step [of w0 w0] step [of w0 "write_header c (compressed_hdrs ''gzip'' c w0)" for c] rw_le_ready
      by (auto simp: Let_def case_prod_beta intro!: rw_le_layers)
  next
    case (BrotliW w0 s)
    then show ?thesis
      using step [of w0 w0] step [of w0 "write_header c (compressed_hdrs ''br'' c w0)" for c] rw_le_ready
      by (auto simp: Let_def case_prod_beta intro!: rw_le_layers)
  next
    case (EtagW w0 s)
    then show ?thesis using less [of w0 p] by (auto simp: Let_def case_prod_beta intro!: rw_le_layers)
  next
    case (StatusW w0 s)
    then show ?thesis using less [of w0 p] less [of "write_header 200 w0" p] rw_le_trans [OF rw_le_header [of w0 200]]
      by (auto simp: Let_def case_prod_beta intro!: rw_le_layers)
  next
    case (BufW w0 s)
    then show ?thesis by (auto intro: rw_le_layers)
  qed
qed

lemma rw_le_sync: "rw_le w (fst (gzip_sync Z w s))"
  by (simp add: gzip_sync_def Let_def)

lemma rw_le_flush [simp]: "rw_le w (rw_flush Z w)"
proof (induction "depth w" arbitrary: w)
  case 0
  then show ?case by (cases w) (auto simp: conn_flush_def conn_le_header intro: rw_le_layers)
next
  case (Suc n)
  have IH: "rw_le v (rw_flush Z v)" if "n = depth v" for v using Suc.hyps(1) [OF that] .
  have "rw_le v (rw_flush Z (fst (gzip_sync Z v s)))" if "n = depth v" for v s
    using that by (intro rw_le_trans [OF rw_le_sync IH]) (simp add: gzip_sync_depth)
  with Suc(2) show ?case by (cases w) (auto simp: case_prod_beta IH rw_le_sync intro!: rw_le_layers)
qed

lemma keeps_prog: "keeps (\<lambda>r. run_prog Z (prog r))"
proof -
  have "rw_le w (fst (run_prog Z p w))" for p w
  proof (induction p arbitrary: w)
    case (PWrite s f)
    have "rw_le (fst (rw_write Z s w)) (fst (run_prog Z (f (snd (rw_write Z s w))) (fst (rw_write Z s w))))"
      by (rule PWrite.IH) simp
    with rw_le_trans [OF rw_le_write] show ?case by (simp add: case_prod_beta)
  next
    case (PFlush f)
    have "rw_le (rw_flush Z w) (fst (run_prog Z (f True) (rw_flush Z w)))" by (rule PFlush.IH) simp
    with PFlush.IH [OF rangeI] show ?case by (auto intro: rw_le_trans [OF rw_le_flush])
  qed (auto intro: rw_le_trans [OF rw_le_upd] rw_le_trans [OF rw_le_header])
  then show ?thesis by (simp add: keeps_def)
qed

lemma keepsI: "(\<And>r w. rw_le w (fst (h r w))) \<Longrightarrow> keeps h"
  by (simp add: keeps_def)

lemma keepsD: "keeps h \<Longrightarrow> rw_le w (fst (h r w))"
  by (simp add: keeps_def)

lemma keeps_after: "keeps h \<Longrightarrow> rw_le v w \<Longrightarrow> rw_le v (fst (h r w))"
  by (rule rw_le_trans [OF _ keepsD])

text \<open>What a handler does to a wrapped writer, seen from the writer inside.\<close>

lemma keeps_inner:
  assumes "keeps h"
  shows "h r (GzipW w s) = (w', res) \<Longrightarrow> \<exists>v t. w' = GzipW v t \<and> rw_le w v"
    and "h r (BrotliW w s) = (w', res) \<Longrightarrow> \<exists>v t. w' = BrotliW v t \<and> rw_le w v"
    and "h r (EtagW w e) = (w', res) \<Longrightarrow> \<exists>v t. w' = EtagW v t \<and> rw_le w v"
    and "h r (StatusW w u) = (w', res) \<Longrightarrow> \<exists>v t. w' = StatusW v t \<and> rw_le w v"
    and "h r (BufW w b) = (w', res) \<Longrightarrow> \<exists>v t. w' = BufW v t \<and> rw_le w v"
proof -
  show "h r (GzipW w s) = (w', res) \<Longrightarrow> \<exists>v t. w' = GzipW v t \<and> rw_le w v"
    using keepsD [OF assms, of "GzipW w s" r] by (cases w') (auto simp: rw_le_def)
  show "h r (BrotliW w s) = (w', res) \<Longrightarrow> \<exists>v t. w' = BrotliW v t \<and> rw_le w v"
    using keepsD [OF assms, of "BrotliW w s" r] by (cases w') (auto simp: rw_le_def)
  show "h r (EtagW w e) = (w', res) \<Longrightarrow> \<exists>v t. w' = EtagW v t \<and> rw_le w v"
    using keepsD [OF assms, of "EtagW w e" r] by (cases w') (auto simp: rw_le_def)
  show "h r (StatusW w u) = (w', res) \<Longrightarrow> \<exists>v t. w' = StatusW v t \<and> rw_le w v"
    using keepsD [OF assms, of "StatusW w u" r] by (cases w') (auto simp: rw_le_def)
  show "h r (BufW w b) = (w', res) \<Longrightarrow> \<exists>v t. w' = BufW v t \<and> rw_le w v"
    using keepsD [OF assms, of "BufW w b" r] by (cases w') (auto simp: rw_le_def)
qed

text \<open>The contract of a middleware.\<close>

locale commit_safe =
  fixes mw :: middleware
  assumes mw_keeps: "keeps h \<Longrightarrow> keeps (mw h)"
begin

text \<open>A middleware applied repeatedly, and one under an error handler, keep what is sent.\<close>

lemma iterate_keeps: "keeps h \<Longrightarrow> keeps ((mw ^^ n) h)"
  by (induction n) (auto intro: mw_keeps)

lemma committed_stays:
  assumes "keeps h" "c_sent (conn_of w) = Some x"
  shows "c_sent (conn_of (fst (mw h r w))) = Some x"
  using keepsD [OF mw_keeps [OF assms(1)], of w r] assms(2) by (simp add: rw_le_def conn_le_def)

end

lemma rw_le_z_close: "rw_le v w \<Longrightarrow> rw_le v (z_close Z z s w)"
  by (auto simp: z_close_def intro: rw_le_trans)

interpretation gzip_safe: commit_safe "gzip_mw Z skip"
proof (unfold_locales, rule keepsI)
  fix h r w
  assume k: "keeps h"
  obtain w' res where h: "h r (GzipW w zstate0) = (w', res)" by fastforce
  from keeps_inner(1) [OF k h] obtain v t where "w' = GzipW v t" "rw_le w v" by blast
  with h show "rw_le w (fst (gzip_mw Z skip h r w))"
    by (simp add: gzip_mw_def keepsD [OF k] rw_le_z_close)
qed

interpretation brotli_safe: commit_safe "brotli_mw Z skip"
proof (unfold_locales, rule keepsI)
  fix h r w
  assume k: "keeps h"
  obtain w' res where h: "h r (BrotliW w zstate0) = (w', res)" by fastforce
  from keeps_inner(2) [OF k h] obtain v t where "w' = BrotliW v t" "rw_le w v" by blast
  with h show "rw_le w (fst (brotli_mw Z skip h r w))"
    by (simp add: brotli_mw_def keepsD [OF k] rw_le_z_close)
qed

lemma rw_le_etag_finish: "rw_le v w \<Longrightarrow> rw_le v (fst (etag_finish Z r w body))"
proof -
  assume v: "rw_le v w"
  have "rw_le w (fst (rw_write Z body (write_header 200 (upd_hdrs f w))))" for f
    by (rule rw_le_trans [OF rw_le_trans [OF rw_le_upd rw_le_header] rw_le_write])
  with v show ?thesis
    by (auto simp: etag_finish_def Let_def case_prod_beta intro: rw_le_trans)
qed

interpretation etag_safe: commit_safe "etag_mw Z skip"
proof (unfold_locales, rule keepsI)
  fix h r w
  assume k: "keeps h"
  obtain w' res where h: "h r (EtagW w estate0) = (w', res)" by fastforce
  from keeps_inner(3) [OF k h] obtain v t where "w' = EtagW v t" "rw_le w v" by blast
  with h show "rw_le w (fst (etag_mw Z skip h r w))"
    by (auto simp: etag_mw_def keepsD [OF k] rw_le_etag_finish split: hresult.splits)
qed

interpretation logger_safe: commit_safe "logger_mw cfg latency"
proof (unfold_locales, rule keepsI)
  fix h r w
  assume k: "keeps h"
  obtain w' res where h: "h r (StatusW w sstate0) = (w', res)" by fastforce
  from keeps_inner(4) [OF k h] obtain v t where "w' = StatusW v t" "rw_le w v" by blast
  with h show "rw_le w (fst (logger_mw cfg latency h r w))"
    by (auto simp: logger_mw_def logger_run_def keepsD [OF k] Let_def split: hresult.splits)
qed


text \<open>The middlewares that only set headers or refuse keep the contract step by step.\<close>

lemma rw_le_upd_then: "keeps h \<Longrightarrow> rw_le w (fst (h r (upd_hdrs f w)))"
  by (rule keeps_after) simp_all

lemma rw_le_upd_header [simp]: "rw_le w (write_header code (upd_hdrs f w))"
  by (rule rw_le_trans [OF rw_le_upd rw_le_header])

lemma rw_le_error [simp]: "rw_le w (http_error Z w msg code)"
  unfolding http_error_def Let_def by (rule rw_le_trans [OF rw_le_upd_header rw_le_write])

lemmas refusing_simps = keepsD keeps_after rw_le_upd_then

interpretation cors_safe: commit_safe "cors_mw opts"
  by unfold_locales (auto simp: cors_mw_def Let_def refusing_simps intro!: keepsI)

interpretation security_safe: commit_safe "security_mw cfg"
  by unfold_locales (auto simp: security_mw_def refusing_simps intro!: keepsI)

interpretation requestid_safe: commit_safe "requestid_mw hdr gen"
  by unfold_locales (auto simp: requestid_mw_def Let_def refusing_simps intro!: keepsI)

interpretation basic_safe: commit_safe "basic_auth_mw username password realm"
  by unfold_locales (auto simp: basic_auth_mw_def Let_def refusing_simps intro!: keepsI split: option.splits)

interpretation jwt_safe: commit_safe "jwt_mw parse secret skip_func"
  by unfold_locales (auto simp: jwt_mw_def refusing_simps intro!: keepsI split: option.splits sum.splits)

lemma rw_le_token: "rw_le w (snd (get_or_create_token rand secure r w))"
  by (auto simp: get_or_create_token_def split: option.splits sum.splits)

interpretation csrf_safe: commit_safe "csrf_mw Z rand secure"
proof (unfold_locales, rule keepsI)
  fix h r w
  assume k: "keeps h"
  obtain t w1 where t: "get_or_create_token rand secure r w = (t, w1)" by fastforce
  with rw_le_token [of w rand secure r] have "rw_le w w1" by simp
  with t show "rw_le w (fst (csrf_mw Z rand secure h r w))"
    by (auto simp: csrf_mw_def Let_def keeps_after [OF k] intro: rw_le_trans split: sum.splits)
qed

lemma rw_le_send_error: "rw_le w (send_error_response Z cfg r w e)"
proof -
  have "rw_le w (fst (rw_write Z m (upd_hdrs f (write_header 500 w))))" for m f
    by (rule rw_le_trans [OF rw_le_trans [OF rw_le_header rw_le_upd] rw_le_write])
  then show ?thesis by (auto simp: send_error_response_def Let_def split: sum.splits)
qed

definition handler_keeps :: "recovery_config \<Rightarrow> bool" where
  "handler_keeps cfg \<longleftrightarrow> (\<forall>h r w e. rec_handler cfg = Some h \<longrightarrow> rw_le w (h r w e))"

lemma recovery_keeps:
  assumes "handler_keeps cfg" "keeps h"
  shows "rw_le w (fst (recovery_mw Z cfg h r w))"
proof -
  obtain w1 res where h: "h r w = (w1, res)" by fastforce
  with keepsD [OF assms(2), of w r] have w1: "rw_le w w1" by simp
  have "rw_le w (send_error_response Z cfg r w1 e)" for e
    by (rule rw_le_trans [OF w1 rw_le_send_error])
  moreover have "rw_le w (g r w1 e)" if "rec_handler cfg = Some g" for g e
    using assms(1) that w1 by (auto simp: handler_keeps_def intro: rw_le_trans)
  ultimately show ?thesis using h w1
    by (auto simp: recovery_mw_eq Let_def split: hresult.splits option.splits)
qed

text \<open>With the default response; a custom error handler is covered by \<open>recovery_keeps\<close>.\<close>

interpretation recovery_safe: commit_safe
    "recovery_mw Z \<lparr>stack_trace = traces, rec_logger = sink, rec_handler = None, expose_errors = expose,
       production_message = message\<rparr>"
  by unfold_locales (auto simp: handler_keeps_def intro!: keepsI recovery_keeps)

section \<open>Chains\<close>

text \<open>The middlewares of the repository, whatever their configuration.\<close>

inductive revelt_mw :: "codecs \<Rightarrow> middleware \<Rightarrow> bool" for Z where
  "revelt_mw Z (gzip_mw Z skip)"
| "revelt_mw Z (brotli_mw Z skip)"
| "revelt_mw Z (etag_mw Z skip_funcs)"
| "revelt_mw Z (logger_mw log_cfg latency)"
| "revelt_mw Z (cors_mw opts)"
| "revelt_mw Z (security_mw cfg)"
| "revelt_mw Z (requestid_mw hdr gen)"
| "revelt_mw Z (basic_auth_mw username password realm)"
| "revelt_mw Z (jwt_mw parse secret skip_func)"
| "revelt_mw Z (csrf_mw Z rand secure)"
| "handler_keeps rcfg \<Longrightarrow> revelt_mw Z (recovery_mw Z rcfg)"

lemma revelt_mw_keeps: "revelt_mw Z mw \<Longrightarrow> keeps h \<Longrightarrow> keeps (mw h)"
  by (induction rule: revelt_mw.induct)
     (auto intro: gzip_safe.mw_keeps brotli_safe.mw_keeps etag_safe.mw_keeps logger_safe.mw_keeps
       cors_safe.mw_keeps security_safe.mw_keeps requestid_safe.mw_keeps basic_safe.mw_keeps
       jwt_safe.mw_keeps csrf_safe.mw_keeps keepsI recovery_keeps)

lemma build_chain_foldr: "n \<le> length mws \<Longrightarrow> build_chain mws n mux = foldr (\<lambda>mw h. mw h) (take n mws) mux"
  by (induction n arbitrary: mux) (auto simp: take_Suc_conv_app_nth)

text \<open>
  Middlewares wrap in the order they are declared. The handler App.Run serves is the first
  middleware applied to the rest of the chain applied to the router: the first one declared is
  the outermost, for any number of them and any kind of handler.
\<close>

theorem app_root_order:
  "app_root mws mux = foldr (\<lambda>mw h. mw h) mws mux"
  by (simp add: app_root_def build_chain_foldr)

lemma chain_keeps: "\<forall>mw \<in> set mws. revelt_mw Z mw \<Longrightarrow> keeps h \<Longrightarrow> keeps (app_root mws h)"
proof -
  assume "\<forall>mw \<in> set mws. revelt_mw Z mw" "keeps h"
  then have "keeps (foldr (\<lambda>mw h. mw h) mws h)" by (induction mws) (auto intro: revelt_mw_keeps)
  then show ?thesis by (simp add: app_root_def build_chain_foldr)
qed

text \<open>
  A response is committed once. Behind any chain of the repository's middlewares, in any
  order and configuration, a handler program can change neither a status and headers that have
  been sent nor bytes of the body that are out: what follows only appends.
\<close>

theorem chain_commits_once:
  assumes "\<forall>mw \<in> set mws. revelt_mw Z mw" "c_sent (conn_of w) = Some x"
  shows "c_sent (conn_of (fst (app_root mws (\<lambda>r. run_prog Z (prog r)) r w))) = Some x \<and>
     prefix (c_body (conn_of w)) (c_body (conn_of (fst (app_root mws (\<lambda>r. run_prog Z (prog r)) r w))))"
  using keepsD [OF chain_keeps [OF assms(1) keeps_prog [of Z prog]], of w r] assms(2)
  by (simp add: rw_le_def conn_le_def)

theorem chain_commits_once_witness:
  "\<exists>c'. fst (app_root [gzip_mw demo_codecs [], etag_mw demo_codecs []]
       (\<lambda>r. run_prog demo_codecs (demo_page r)) demo_request
       (Conn (demo_conn\<lparr>c_sent := Some (200, \<lambda>_. []), c_body := ''x''\<rparr>))) = c' \<and>
     c_sent (conn_of c') = Some (200, \<lambda>_. [])"
proof -
  let ?w = "Conn (demo_conn\<lparr>c_sent := Some (200, \<lambda>_. []), c_body := ''x''\<rparr>)"
  have "\<forall>mw \<in> set [gzip_mw demo_codecs [], etag_mw demo_codecs []]. revelt_mw demo_codecs mw"
    by (auto intro: revelt_mw.intros)
  from chain_commits_once [OF this, of ?w "(200, \<lambda>_. [])" demo_page demo_request] show ?thesis by simp
qed


section \<open>Logging\<close>

definition s_rel :: "conn \<Rightarrow> conn \<Rightarrow> sstate \<Rightarrow> bool" where
  "s_rel cp cg s \<longleftrightarrow> cg = cp \<and>
     (case c_sent cp of None \<Rightarrow> s = sstate0 | Some (code, h) \<Rightarrow> s_wrote s \<and> s_status s = code)"

lemma s_rel_header:
  assumes "s_rel cp cg s" "200 \<le> code"
  shows "\<exists>cg' s'. write_header code (StatusW (Conn cg) s) = StatusW (Conn cg') s' \<and>
     s_rel (conn_write_header code cp) cg' s'"
  using assms by (cases "c_sent cp") (auto simp: s_rel_def sstate0_def conn_write_header_fresh)

lemma s_rel_write:
  assumes "s_rel cp cg s"
  shows "\<exists>cg' s'. rw_write Z p (StatusW (Conn cg) s) = (StatusW (Conn cg') s', snd (conn_write p cp)) \<and>
     s_rel (fst (conn_write p cp)) cg' s'"
proof (cases "c_sent cp")
  case (Some x)
  obtain c' e where w: "conn_write p cp = (c', e)" by fastforce
  with conn_write_sent [OF Some, of p] have "c_sent c' = Some x" by simp
  with assms Some w show ?thesis by (auto simp: s_rel_def Let_def split: prod.splits)
next
  case None
  let ?c = "conn_write_header 200 cp"
  obtain c' e where w: "conn_write p ?c = (c', e)" by fastforce
  have sent: "c_sent ?c = Some (200, c_hdrs cp)" using None by (simp add: conn_write_header_fresh)
  have "conn_write p cp = (c', e)" using w sent by (simp add: conn_write_def Let_def)
  moreover have "c_sent c' = Some (200, c_hdrs cp)" using conn_write_sent [OF sent, of p] w by simp
  moreover have "\<not> s_wrote s" "cg = cp" using assms None by (simp_all add: s_rel_def sstate0_def)
  ultimately show ?thesis using w by (auto simp: s_rel_def Let_def)
qed

lemma sent_codes:
  assumes "run_prog Z p (Conn c) = (Conn cp, res)" "plain_prog p"
    "c_sent c = None \<or> (\<exists>code h. c_sent c = Some (code, h) \<and> 200 \<le> code)"
  shows "c_sent cp = None \<or> (\<exists>code h. c_sent cp = Some (code, h) \<and> 200 \<le> code)"
  using assms
proof (induction p arbitrary: c)
  case (PWrite s f)
  let ?c = "fst (conn_write s c)"
  have "c_sent ?c = None \<or> (\<exists>code h. c_sent ?c = Some (code, h) \<and> 200 \<le> code)"
    using PWrite.prems(3) by (auto simp: conn_write_def Let_def conn_write_header_fresh split: option.splits)
  with PWrite.IH [of "f (snd (conn_write s c))" ?c] PWrite.prems show ?case by (simp add: case_prod_beta)
next
  case (PStatus code p)
  from PStatus.prems have "c_sent (conn_write_header code c) = None \<or>
      (\<exists>k h. c_sent (conn_write_header code c) = Some (k, h) \<and> 200 \<le> k)"
    by (cases "c_sent c") (auto simp: conn_write_header_fresh)
  with PStatus.IH [of "conn_write_header code c"] PStatus.prems show ?case by simp
next
  case (PSet k v p)
  then show ?case using PSet.IH [of "c\<lparr>c_hdrs := hset k v (c_hdrs c)\<rparr>"] by simp
next
  case (PDel k p)
  then show ?case using PDel.IH [of "c\<lparr>c_hdrs := hdel k (c_hdrs c)\<rparr>"] by simp
qed auto

interpretation status_writer: writer_sim Z "\<lambda>c. StatusW (Conn c)" s_rel "\<lambda>_. True" False for Z
proof
  fix cp cg s k v and f :: "headers \<Rightarrow> headers"
  assume "s_rel cp cg s"
  then show "\<exists>cg' s'. upd_hdrs f (StatusW (Conn cg) s) = StatusW (Conn cg') s' \<and>
      s_rel (cp\<lparr>c_hdrs := f (c_hdrs cp)\<rparr>) cg' s'" by (auto simp: s_rel_def)
next
  fix cp cg s k
  assume "s_rel cp cg s"
  then show "hget (rw_hdrs (StatusW (Conn cg) s)) k = hget (c_hdrs cp) k" by (simp add: s_rel_def)
next
  fix cp cg s and code :: nat
  assume "s_rel cp cg s" "200 \<le> code"
  then show "\<exists>cg' s'. write_header code (StatusW (Conn cg) s) = StatusW (Conn cg') s' \<and>
      s_rel (conn_write_header code cp) cg' s'" by (rule s_rel_header)
next
  fix cp cg s p
  assume "s_rel cp cg s"
  then show "\<exists>cg' s'. rw_write Z p (StatusW (Conn cg) s) = (StatusW (Conn cg') s', snd (conn_write p cp)) \<and>
      s_rel (fst (conn_write p cp)) cg' s'" by (rule s_rel_write)
qed simp_all

text \<open>
  The logger only observes. Behind it a handler program sends byte for byte the response it
  would send without it and returns the same error, and the status that is logged is the one the
  client gets (200 if the handler sends nothing); a path or request that is skipped is not
  logged. (No callback configured.)
\<close>

theorem logger_transparent:
  assumes "fresh_conn c" "plain_prog (prog r)" "log_callback cfg = None"
    "run_prog Z (prog r) (Conn c) = (Conn cp, res)" "\<And>v. res \<noteq> HPanic v"
  shows "logger_run cfg latency (\<lambda>r. run_prog Z (prog r)) r (Conn c) =
     ((Conn cp, res),
      if rq_path r \<in> set (log_skip cfg) \<or> (case log_skip_if cfg of Some f \<Rightarrow> f r | None \<Rightarrow> False) then None
      else Some (new_log_handler cfg, log_args cfg r (case c_sent cp of Some (code, h) \<Rightarrow> code | None \<Rightarrow> 200) latency))"
proof -
  have "s_rel c c sstate0" using assms(1) by (simp add: s_rel_def fresh_conn_def)
  from status_writer.rel_run [OF this plain_stream [OF assms(2)] disjI2 [OF assms(2)] _ assms(4), of False] obtain cg s where
    run: "run_prog Z (prog r) (StatusW (Conn c) sstate0) = (StatusW (Conn cg) s, res)" and rel: "s_rel cp cg s"
    by blast
  have "code \<noteq> 0" if "c_sent cp = Some (code, h)" for code h
    using sent_codes [OF assms(4,2)] assms(1) that by (auto simp: fresh_conn_def)
  with rel have eq: "cg = cp" "(if s_status s = 0 then 200 else s_status s) =
      (case c_sent cp of Some (code, h) \<Rightarrow> code | None \<Rightarrow> 200)"
    by (auto simp: s_rel_def sstate0_def split: option.splits)
  show ?thesis
  proof (cases res)
    case (HPanic v)
    with assms(5) [of v] show ?thesis by simp
  qed (simp_all add: logger_run_def run assms(3,4) eq Let_def)
qed

definition demo_log :: log_config where
  "demo_log = logger_new (Some \<lparr>log_output = None, log_format = 0, log_flags = 0, log_skip = [], log_skip_if = None,
     log_options = None, log_callback = None\<rparr>)"

theorem logger_transparent_witness:
  "snd (logger_run demo_log ''1ms'' (\<lambda>r. run_prog demo_codecs (demo_page r)) demo_request (Conn demo_conn)) =
   Some (TextHandler (Some StdLog) (Some (0, False)),
     [JStr ''status'', JInt 201, JStr ''method'', JStr ''GET'', JStr ''path'', JStr ''/a''])"
proof -
  obtain cp h where cp: "run_prog demo_codecs (demo_page demo_request) (Conn demo_conn) = (Conn cp, HNil)"
    "c_sent cp = Some (201, h)" "c_body cp = ''abcd''" using demo_run by blast
  have log: "log_callback demo_log = None" "log_skip demo_log = []" "log_skip_if demo_log = None" "log_flags demo_log = 0"
    "new_log_handler demo_log = TextHandler (Some StdLog) (Some (0, False))"
    by (simp_all add: demo_log_def logger_new_def new_log_handler_def TextFormat_def JSONFormat_def)
  have "rq_method demo_request = ''GET''" "rq_path demo_request = ''/a''" by (simp_all add: demo_request_def)
  then show ?thesis
    using logger_transparent [where prog = demo_page and Z = demo_codecs, OF demo_plain(1,2) log(1) cp(1), of "''1ms''"] cp(2)
    by (simp add: log_args_def log)
qed

section \<open>Recovery\<close>

text \<open>The response a panic becomes, on a connection nothing has been sent on.\<close>

definition recovery_body :: "recovery_config \<Rightarrow> request \<Rightarrow> goerr \<Rightarrow> string" where
  "recovery_body cfg r e =
     (let message = (if expose_errors cfg then err_msg e else production_message cfg) in
      if hget (rq_hdrs r) ''Content-Type'' = ''application/json'' \<or> hget (rq_hdrs r) ''Accept'' = ''application/json''
      then (case marshal (JObj [(''error'', JStr message)]) of Inl _ \<Rightarrow> message | Inr d \<Rightarrow> d)
      else message)"

lemma write_after_500:
  assumes "c_sent c = None" "c_fail c = None"
  shows "\<exists>hs. fst (rw_write Z p (upd_hdrs f (write_header 500 (Conn c)))) =
     Conn (c\<lparr>c_hdrs := hs, c_sent := Some (500, c_hdrs c), c_body := c_body c @ p\<rparr>)"
  using assms
  by (cases c; cases p) (auto simp: conn_write_def Let_def conn_write_header_def no_body_def)

lemma send_error_fresh:
  assumes "c_sent c = None" "c_fail c = None"
  shows "\<exists>hs. send_error_response Z cfg r (Conn c) e =
     Conn (c\<lparr>c_hdrs := hs, c_sent := Some (500, c_hdrs c), c_body := c_body c @ recovery_body cfg r e\<rparr>)"
proof -
  note w = write_after_500 [OF assms, of Z]
  show ?thesis
  proof (cases "hget (rq_hdrs r) ''Content-Type'' = ''application/json'' \<or> hget (rq_hdrs r) ''Accept'' = ''application/json''")
    case True
    with w show ?thesis by (auto simp: send_error_response_def recovery_body_def Let_def split: sum.splits)
  next
    case False
    with w show ?thesis by (auto simp: send_error_response_def recovery_body_def Let_def)
  qed
qed

text \<open>
  C27: recovery contains panics. With the default response no panic leaves the middleware; if
  nothing was sent yet the client gets status 500 and the message, as JSON if it asked for it;
  and unless errors are exposed, two panics that differ only in their value give the same
  response, so nothing of the value reaches the client.
\<close>

theorem recovery_contains_panics:
  assumes "rec_handler cfg = None"
  shows "snd (recovery_mw Z cfg next r w) \<noteq> HPanic v \<and>
    (next r w = (Conn c, HPanic v) \<and> c_sent c = None \<and> c_fail c = None \<longrightarrow>
      (\<exists>hs. recovery_mw Z cfg next r w =
        (Conn (c\<lparr>c_hdrs := hs, c_sent := Some (500, c_hdrs c),
           c_body := c_body c @ recovery_body cfg r (convert_panic v)\<rparr>), HNil))) \<and>
    (\<not> expose_errors cfg \<and> next r w = (w1, HPanic v) \<and> next' r w = (w1, HPanic v') \<longrightarrow>
      recovery_mw Z cfg next r w = recovery_mw Z cfg next' r w)"
proof (intro conjI impI)
  show "snd (recovery_mw Z cfg next r w) \<noteq> HPanic v"
    using assms by (auto simp: recovery_mw_eq Let_def split: prod.splits hresult.splits)
  assume h: "next r w = (Conn c, HPanic v) \<and> c_sent c = None \<and> c_fail c = None"
  then show "\<exists>hs. recovery_mw Z cfg next r w =
      (Conn (c\<lparr>c_hdrs := hs, c_sent := Some (500, c_hdrs c),
         c_body := c_body c @ recovery_body cfg r (convert_panic v)\<rparr>), HNil)"
    using send_error_fresh [of c Z cfg r "convert_panic v"] assms by (auto simp: recovery_mw_eq)
next
  assume "\<not> expose_errors cfg \<and> next r w = (w1, HPanic v) \<and> next' r w = (w1, HPanic v')"
  then show "recovery_mw Z cfg next r w = recovery_mw Z cfg next' r w"
    using assms by (simp add: recovery_mw_eq send_error_response_def)
qed

text \<open>A panic is logged once, with its message, and nothing else is.\<close>

lemma recovery_logs_panics:
  "snd (recovery_run Z cfg stack next r w) =
     (case snd (next r w) of
        HPanic v \<Rightarrow> Some (rec_logger cfg, ''Panic recovered: '' @ err_msg (convert_panic v) @ [newline]
          @ (if stack_trace cfg then ''Stack trace:'' @ [newline] @ stack else []))
      | _ \<Rightarrow> None)"
  by (auto simp: recovery_run_def log_error_def Let_def split: prod.split hresult.split)

definition demo_recovery :: recovery_config where
  "demo_recovery = recovery_new [WithProductionMessage ''Oops'']"

lemma demo_no_json:
  "recovery_body demo_recovery demo_request e = production_message demo_recovery"
proof -
  have "hget (rq_hdrs demo_request) ''Content-Type'' = []" "hget (rq_hdrs demo_request) ''Accept'' = []" by code_simp+
  then show ?thesis by (simp add: recovery_body_def demo_recovery_def recovery_new_def)
qed

theorem recovery_contains_panics_witness:
  "\<exists>hs. recovery_mw demo_codecs demo_recovery (\<lambda>r w. (w, HPanic (PvString ''db down''))) demo_request (Conn demo_conn) =
     (Conn (demo_conn\<lparr>c_hdrs := hs, c_sent := Some (500, \<lambda>_. []), c_body := ''Oops''\<rparr>), HNil)"
proof -
  have "rec_handler demo_recovery = None" by (simp add: demo_recovery_def recovery_new_def)
  from conjunct1 [OF conjunct2 [OF recovery_contains_panics [OF this, of demo_codecs
        "\<lambda>r w. (w, HPanic (PvString ''db down''))" demo_request "Conn demo_conn" "PvString ''db down''" demo_conn]]]
  have "\<exists>hs. recovery_mw demo_codecs demo_recovery (\<lambda>r w. (w, HPanic (PvString ''db down''))) demo_request (Conn demo_conn) =
     (Conn (demo_conn\<lparr>c_hdrs := hs, c_sent := Some (500, c_hdrs demo_conn), c_body := c_body demo_conn @
        recovery_body demo_recovery demo_request (GErr ''db down'')\<rparr>), HNil)"
    by (simp add: demo_conn_def)
  then show ?thesis by (simp add: demo_conn_def demo_no_json) (simp add: demo_recovery_def recovery_new_def)
qed

section \<open>CSRF\<close>

text \<open>
  A request that changes state passes the CSRF check exactly when it carries the token of
  its own cookie, non-empty, in the form or (with no form value) in the header. A refused one
  never reaches the handler: the answer is 403, the same for every handler, or the error of the
  random source. Requests with a safe method always pass, and behind the check the handler reads
  back the token.
\<close>

definition csrf_presented :: "request \<Rightarrow> string" where
  "csrf_presented r =
     (if rq_form r ''csrf_token'' = [] then hget (rq_hdrs r) ''X-CSRF-Token'' else rq_form r ''csrf_token'')"

theorem csrf_guard:
  "csrf_mw Z rand secure next r w =
     (case get_or_create_token rand secure r w of
        (Inl e, w1) \<Rightarrow> (w1, HErr (GWrap ''csrf: unable to create CSRF token'' e))
      | (Inr t, w1) \<Rightarrow>
          if is_safe_method (rq_method r) \<or> (csrf_presented r \<noteq> [] \<and> rq_cookies r ''csrf_token'' = Some (csrf_presented r))
          then next (with_ctx ''csrf_token_ctx'' (CtxStr t) r) w1
          else (http_error Z w1 ''Forbidden: CSRF token validation failed'' 403, HNil))
   \<and> csrf_token (with_ctx ''csrf_token_ctx'' (CtxStr t) r) = t"
proof -
  have "rq_method (with_ctx k v r) = rq_method r" "validate_csrf (with_ctx k v r) = validate_csrf r" for k v
    by (simp_all add: with_ctx_def validate_csrf_def Let_def cong: option.case_cong)
  moreover have "validate_csrf r \<longleftrightarrow> csrf_presented r \<noteq> [] \<and> rq_cookies r ''csrf_token'' = Some (csrf_presented r)"
    by (auto simp: validate_csrf_def csrf_presented_def Let_def split: option.splits)
  ultimately show ?thesis
    by (auto simp: csrf_mw_def Let_def csrf_token_def with_ctx_def split: prod.splits sum.splits)
qed

section \<open>JWT\<close>

text \<open>
  What \<open>jwt.Parse\<close> documents: a token it reports valid has a signature that verifies, under
  the method of the token, with the key the key function returned for that method.
\<close>

definition jwt_sound :: "jwt_parse \<Rightarrow> (string \<Rightarrow> bool \<times> string) \<Rightarrow> (string \<Rightarrow> string \<Rightarrow> json \<Rightarrow> bool) \<Rightarrow> bool" where
  "jwt_sound parse meth verifies \<longleftrightarrow>
     (\<forall>tok kf claims. parse tok kf = Inr (claims, True) \<longrightarrow>
        (\<exists>key. kf (fst (meth tok)) (snd (meth tok)) = Inr key \<and> verifies tok key claims))"

text \<open>
  C29: unless it is skipped, a request reaches the handler behind the JWT middleware only with a
  token whose signature is an HMAC that verifies under the configured secret (so never with
  \<open>alg: none\<close> or a public-key method), and the handler then reads exactly its claims. Every
  other request gets a bare 401.
\<close>

theorem jwt_guard:
  assumes "jwt_sound parse meth verifies" "case skip of Some f \<Rightarrow> \<not> f r | None \<Rightarrow> True"
  shows "jwt_mw parse secret skip next r w = (write_header 401 w, HNil) \<or>
     (\<exists>claims r'. fst (meth (bearer_token r)) \<and> verifies (bearer_token r) secret claims \<and> bearer_token r \<noteq> [] \<and>
        jwt_claims r' = Inr claims \<and> jwt_auth_skipped r' = jwt_auth_skipped r \<and>
        jwt_mw parse secret skip next r w = next r' w)"
proof (cases "bearer_token r = []")
  case True
  with assms(2) show ?thesis by (auto simp: jwt_mw_def split: option.splits)
next
  case False
  show ?thesis
  proof (cases "verify_jwt parse secret (bearer_token r)")
    case (Inl e)
    with assms(2) False show ?thesis by (auto simp: jwt_mw_def split: option.splits)
  next
    case (Inr claims)
    then have "parse (bearer_token r) (jwt_key secret) = Inr (claims, True)"
      by (auto simp: verify_jwt_def split: sum.splits prod.splits if_splits)
    with assms(1) obtain key where k: "jwt_key secret (fst (meth (bearer_token r))) (snd (meth (bearer_token r))) = Inr key"
      "verifies (bearer_token r) key claims" unfolding jwt_sound_def by blast
    from k(1) have "fst (meth (bearer_token r))" "key = secret" by (auto simp: jwt_key_def split: if_splits)
    moreover let ?r = "with_ctx ''jwt_claims_key'' (CtxState claims) r"
    have "jwt_claims ?r = Inr claims" "jwt_auth_skipped ?r = jwt_auth_skipped r"
      by (simp_all add: jwt_claims_def jwt_auth_skipped_def with_ctx_def)
    moreover have "jwt_mw parse secret skip next r w = next ?r w"
      using assms(2) False Inr by (auto simp: jwt_mw_def split: option.splits)
    ultimately show ?thesis using k(2) False by blast
  qed
qed

text \<open>A parser for the witness: a token is its secret after an \<open>H\<close> (HMAC) or \<open>N\<close> (none).\<close>

definition demo_parse :: jwt_parse where
  "demo_parse tok kf =
     (case kf (take 1 tok = ''H'') ''alg'' of
        Inl e \<Rightarrow> Inl e
      | Inr key \<Rightarrow> if tl tok = key then Inr (JStr key, True) else Inl (GErr ''signature is invalid''))"

theorem jwt_guard_witness:
  "jwt_mw demo_parse ''s'' None (\<lambda>r w. (w, HErr (GErr ''handled'')))
     (demo_request\<lparr>rq_hdrs := hset ''Authorization'' ''Bearer Hs'' (rq_hdrs demo_request)\<rparr>) (Conn demo_conn) =
       (Conn demo_conn, HErr (GErr ''handled'')) \<and>
   jwt_mw demo_parse ''s'' None (\<lambda>r w. (w, HErr (GErr ''handled'')))
     (demo_request\<lparr>rq_hdrs := hset ''Authorization'' ''Bearer Ns'' (rq_hdrs demo_request)\<rparr>) (Conn demo_conn) =
       (write_header 401 (Conn demo_conn), HNil)"
proof -
  let ?req = "\<lambda>a. demo_request\<lparr>rq_hdrs := hset ''Authorization'' a (rq_hdrs demo_request)\<rparr>"
  have hdr: "hget (rq_hdrs (?req a)) ''Authorization'' = a" for a by simp
  have pfx: "trim_prefix ''Bearer Hs'' ''Bearer '' = ''Hs''" "trim_prefix ''Bearer Ns'' ''Bearer '' = ''Ns''"
    by (simp_all add: trim_prefix_def)
  have "trim_space ''Hs'' = ''Hs''" by (simp add: trim_space_visible visible_def)
  moreover have "trim_space ''Ns'' = ''Ns''" by (simp add: trim_space_visible visible_def)
  ultimately have tok: "bearer_token (?req ''Bearer Hs'') = ''Hs''" "bearer_token (?req ''Bearer Ns'') = ''Ns''"
    unfolding bearer_token_def hdr pfx by simp_all
  have sound: "jwt_sound demo_parse (\<lambda>tok. (take 1 tok = ''H'', ''alg'')) (\<lambda>tok key claims. tl tok = key)"
    by (auto simp: jwt_sound_def demo_parse_def split: sum.splits if_splits)
  have "jwt_mw demo_parse ''s'' None (\<lambda>r w. (w, HErr (GErr ''handled''))) (?req ''Bearer Ns'') (Conn demo_conn) =
      (write_header 401 (Conn demo_conn), HNil)"
    using jwt_guard [OF sound, of "?req ''Bearer Ns''" None "''s''" "\<lambda>r w. (w, HErr (GErr ''handled''))" "Conn demo_conn"]
    unfolding tok by simp
  moreover have "jwt_mw demo_parse ''s'' None (\<lambda>r w. (w, HErr (GErr ''handled''))) (?req ''Bearer Hs'') (Conn demo_conn) =
      (Conn demo_conn, HErr (GErr ''handled''))"
    unfolding jwt_mw_def tok by (simp add: verify_jwt_def demo_parse_def jwt_key_def)
  ultimately show ?thesis by blast
qed

end
