(* ===== verification/Http_Helpers.thy ===== *)
theory Http_Helpers
  imports Http Config
begin

text \<open>
  The request and response helpers of \<open>http.go\<close>: JSON bodies in and out, query parameters,
  multipart uploads, downloads. What the standard library answers (the decoder, the parsed
  form, the MIME tables, the file system calls) is an argument; 64-bit integers are words
  where the code computes with them.
\<close>

section \<open>JSON\<close>

text \<open>
  \<open>json.NewEncoder(w).Encode(v)\<close>, from the marshalled value: one write of the text and a
  newline. A struct prints its fields in order, a map its keys sorted.
\<close>

definition json_struct :: "(string \<times> string go) list \<Rightarrow> string go" where
  "json_struct kvs = map_go (\<lambda>fs. ''{'' @ join fs '','' @ ''}'') (seq_go (map json_field kvs))"

definition json_map :: "(string \<times> string go) list \<Rightarrow> string go" where
  "json_map kvs = json_struct (sort_key fst kvs)"

definition json_array :: "string go list \<Rightarrow> string go" where
  "json_array xs = map_go (\<lambda>vs. ''['' @ join vs '','' @ '']'') (seq_go xs)"

definition json_encode :: "codecs \<Rightarrow> rw \<Rightarrow> string go \<Rightarrow> rw \<times> goerr option" where
  "json_encode Z w text =
     (case text of
        Inl e \<Rightarrow> (w, Some e)
      | Inr d \<Rightarrow> rw_write Z (d @ [CHR 0x0A]) w)"

definition write_json :: "codecs \<Rightarrow> rw \<Rightarrow> nat \<Rightarrow> json \<Rightarrow> rw \<times> hresult" where
  "write_json Z w status v =
     (case json_encode Z (write_header status
             (upd_hdrs (hset ''Content-Type'' ''application/json; charset=utf-8'') w)) (marshal v) of
        (w', Some e) \<Rightarrow> (w', HErr (GWrap ''revelt.JSON: encoding response'' e))
      | (w', None) \<Rightarrow> (w', HNil))"

definition json_ok :: "codecs \<Rightarrow> rw \<Rightarrow> json \<Rightarrow> rw \<times> hresult" where
  "json_ok Z w v = write_json Z w 200 v"

definition json_error :: "codecs \<Rightarrow> rw \<Rightarrow> nat \<Rightarrow> string \<Rightarrow> rw \<times> hresult" where
  "json_error Z w status message = write_json Z w status (JObj [(''error'', JStr message)])"

definition write_json_response :: "codecs \<Rightarrow> rw \<Rightarrow> nat \<Rightarrow> string go \<Rightarrow> rw" where
  "write_json_response Z w code text =
     fst (json_encode Z (write_header code
       (upd_hdrs (hset ''Content-Type'' ''application/json; charset=utf-8'') w)) text)"

definition err_empty_body :: goerr where
  "err_empty_body = GErr ''revelt: request body is empty''"

definition err_body_too_large :: goerr where
  "err_body_too_large = GErr ''revelt: request body too large''"

definition err_eof :: goerr where
  "err_eof = GErr ''EOF''"

text \<open>\<open>MalformedJSONError\<close>, which prints and unwraps like a wrapping error.\<close>

definition malformed :: "nat \<Rightarrow> goerr \<Rightarrow> goerr" where
  "malformed off e = GWrap (''revelt: malformed JSON at byte offset '' @ show_nat off) e"

text \<open>
  A reader is what it yields before it ends: bytes, then an error unless it ends cleanly.
  \<open>io.LimitReader\<close> stops it after \<open>n\<close> bytes; a limit of zero or below ends at once.
\<close>

type_synonym reader = "string \<times> goerr option"

definition limit_reader :: "64 word \<Rightarrow> reader \<Rightarrow> reader" where
  "limit_reader n rd =
     (if sint n \<le> 0 then ([], None)
      else if sint n \<le> int (length (fst rd)) then (take (nat (sint n)) (fst rd), None)
      else rd)"

text \<open>
  A JSON decoder reads one value from an offset: the value and the offset after it, or an
  error and the offset reached.
\<close>

datatype 'v decoded = Decoded 'v nat | DecodeFail goerr nat

type_synonym 'v decoder = "string \<Rightarrow> nat \<Rightarrow> 'v decoded"

definition default_max_json_body_bytes :: "64 word" where
  "default_max_json_body_bytes = 1048576"

definition decode_json :: "'v decoder \<Rightarrow> unit decoder \<Rightarrow> reader option \<Rightarrow> 64 word list \<Rightarrow> 'v go" where
  "decode_json dec raw body max_bytes =
     (case body of
        None \<Rightarrow> Inl err_empty_body
      | Some rd \<Rightarrow>
          (let max_memory = (case max_bytes of m # _ \<Rightarrow> if sint m > 0 then m else default_max_json_body_bytes
                           | [] \<Rightarrow> default_max_json_body_bytes);
               (data, err) = limit_reader (max_memory + 1) rd
           in case err of
                Some e \<Rightarrow> Inl (GWrap ''revelt.DecodeJSON: reading body'' e)
              | None \<Rightarrow>
                  if data = [] then Inl err_empty_body
                  else if int (length data) > sint max_memory then Inl err_body_too_large
                  else case dec data 0 of
                      DecodeFail e off \<Rightarrow> Inl (malformed off e)
                    | Decoded v off \<Rightarrow>
                        (case raw data off of
                           Decoded _ off' \<Rightarrow>
                             Inl (malformed off' (GErr ''unexpected additional JSON value after body''))
                         | DecodeFail e off' \<Rightarrow>
                             if err_is e err_eof then Inr v else Inl (malformed off' e))))"

section \<open>Query parameters\<close>

text \<open>\<open>strconv.ParseInt(raw, 10, 64)\<close>; \<open>None\<close> is any of its errors.\<close>

definition is_digit :: "char \<Rightarrow> bool" where
  "is_digit c \<longleftrightarrow> 48 \<le> (of_char c :: nat) \<and> (of_char c :: nat) < 58"

definition number :: "string \<Rightarrow> nat" where
  "number ds = foldl (\<lambda>n c. 10 * n + ((of_char c :: nat) - 48)) 0 ds"

definition parse_int64 :: "string \<Rightarrow> int option" where
  "parse_int64 raw =
     (let neg = (raw \<noteq> [] \<and> hd raw = CHR ''-'');
          ds = (if raw \<noteq> [] \<and> (hd raw = CHR ''-'' \<or> hd raw = CHR ''+'') then tl raw else raw)
      in if ds = [] \<or> \<not> list_all is_digit ds then None
         else if neg then (if int (number ds) \<le> 2 ^ 63 then Some (- int (number ds)) else None)
         else (if int (number ds) < 2 ^ 63 then Some (int (number ds)) else None))"

text \<open>The conversion \<open>T(v)\<close> to an integer type of \<open>bits\<close> bits keeps the low bits.\<close>

definition convert_int :: "bool \<Rightarrow> nat \<Rightarrow> int \<Rightarrow> int" where
  "convert_int sgnd bits v = (if sgnd then signed_take_bit (bits - 1) v else take_bit bits v)"

text \<open>\<open>query\<close> is \<open>r.URL.Query().Get\<close>.\<close>

definition query_int :: "bool \<Rightarrow> nat \<Rightarrow> (string \<Rightarrow> string) \<Rightarrow> string \<Rightarrow> int list \<Rightarrow> int" where
  "query_int sgnd bits query name fallback =
     (let raw = query name; default = (case fallback of x # _ \<Rightarrow> x | [] \<Rightarrow> 0) in
      if raw = [] then default
      else case parse_int64 raw of None \<Rightarrow> default | Some v \<Rightarrow> convert_int sgnd bits v)"

definition parse_bool :: "string \<Rightarrow> bool option" where
  "parse_bool s =
     (if s \<in> {''1'', ''t'', ''T'', ''TRUE'', ''true'', ''True''} then Some True
      else if s \<in> {''0'', ''f'', ''F'', ''FALSE'', ''false'', ''False''} then Some False
      else None)"

definition query_bool :: "(string \<Rightarrow> string) \<Rightarrow> string \<Rightarrow> bool list \<Rightarrow> bool" where
  "query_bool query name fallback =
     (let raw = query name; default = (case fallback of x # _ \<Rightarrow> x | [] \<Rightarrow> False) in
      if raw = [] then default
      else case parse_bool raw of
          Some b \<Rightarrow> b
        | None \<Rightarrow>
            if to_lower raw = ''on'' then True
            else if to_lower raw = ''off'' then False
            else default)"

definition query_default :: "(string \<Rightarrow> string) \<Rightarrow> string \<Rightarrow> string \<Rightarrow> string" where
  "query_default query name fallback = (if query name \<noteq> [] then query name else fallback)"

section \<open>Uploads\<close>

text \<open>\<open>filepath.Base\<close>.\<close>

definition path_base :: "string \<Rightarrow> string" where
  "path_base p =
     (if p = [] then ''.''
      else let q = dropWhile (\<lambda>c. c = slash) (rev p); b = rev (takeWhile (\<lambda>c. c \<noteq> slash) q)
           in if b = [] then [slash] else b)"

definition upload_name :: "string \<Rightarrow> string" where
  "upload_name filename =
     (let name = path_base (path_clean filename) in
      if name = ''.'' \<or> name = ''..'' \<or> name = [slash] then ''upload'' else name)"

record uploaded =
  up_header :: string
  up_name :: string
  up_ext :: string
  up_size :: int

definition make_uploaded :: "string \<Rightarrow> int \<Rightarrow> uploaded" where
  "make_uploaded filename sz =
     \<lparr>up_header = filename, up_name = upload_name filename,
      up_ext = to_lower (path_ext (upload_name filename)), up_size = sz\<rparr>"

definition err_missing_file :: goerr where
  "err_missing_file = GErr ''http: no such file''"

definition err_no_multipart_file :: goerr where
  "err_no_multipart_file = GErr ''revelt: no file found for form field''"

definition default_max_multipart_memory :: int where
  "default_max_multipart_memory = 32 * 2 ^ 20"

definition parse_multipart :: "(int \<Rightarrow> 'f go) \<Rightarrow> int \<Rightarrow> 'f go" where
  "parse_multipart parse max_memory =
     (case parse (if max_memory \<le> 0 then default_max_multipart_memory else max_memory) of
        Inl e \<Rightarrow> Inl (GWrap ''revelt: parsing multipart form'' e)
      | Inr f \<Rightarrow> Inr f)"

text \<open>\<open>files field\<close> is \<open>r.FormFile\<close>: the open part, its file name and size.\<close>

definition form_file ::
  "(rune \<Rightarrow> bool) \<Rightarrow> (string \<Rightarrow> ('f \<times> string \<times> int) go) \<Rightarrow> string \<Rightarrow> ('f \<times> uploaded) go" where
  "form_file ip files field =
     (case files field of
        Inl e \<Rightarrow>
          (if err_is e err_missing_file then Inl err_no_multipart_file
           else Inl (GWrap (''revelt: reading form file '' @ go_quote ip field) e))
      | Inr (f, filename, sz) \<Rightarrow> Inr (f, make_uploaded filename sz))"

text \<open>
  What the operating system answers while a file is saved: \<open>MkdirAll\<close>, \<open>OpenFile\<close>, the
  write that fails after some bytes, \<open>Close\<close>, and whether \<open>Remove\<close> works.
\<close>

record save_env =
  sv_mkdir :: "goerr option"
  sv_open :: "goerr option"
  sv_write :: "(nat \<times> goerr) option"
  sv_close :: "goerr option"
  sv_remove :: bool

text \<open>\<open>io.Copy\<close>: what reaches the file, and the error.\<close>

definition copy_out :: "save_env \<Rightarrow> reader \<Rightarrow> string \<times> goerr option" where
  "copy_out env rd =
     (case sv_write env of
        Some (k, e) \<Rightarrow> if k < length (fst rd) then (take k (fst rd), Some e) else rd
      | None \<Rightarrow> rd)"

definition save_uploaded_file ::
  "(rune \<Rightarrow> bool) \<Rightarrow> save_env \<Rightarrow> (string \<Rightarrow> (reader \<times> string \<times> int) go) \<Rightarrow> string \<Rightarrow> string \<Rightarrow> 64 word \<Rightarrow>
   (string \<rightharpoonup> string) \<Rightarrow> uploaded go \<times> (string \<rightharpoonup> string)" where
  "save_uploaded_file ip env files field dest max_bytes fs =
     (case form_file ip files field of
        Inl e \<Rightarrow> (Inl e, fs)
      | Inr (src, meta) \<Rightarrow>
          (case sv_mkdir env of
             Some e \<Rightarrow> (Inl (GWrap ''revelt: creating destination directory'' e), fs)
           | None \<Rightarrow>
               (case sv_open env of
                  Some e \<Rightarrow> (Inl (GWrap ''revelt: creating destination file'' e), fs)
                | None \<Rightarrow>
                    (let reader = (if sint max_bytes > 0 then limit_reader (max_bytes + 1) src else src);
                         (out, copy_err) = copy_out env reader;
                         fs1 = fs(dest \<mapsto> out);
                         removed = (if sv_remove env then fs1(dest := None) else fs1)
                     in if sint max_bytes > 0 \<and> int (length out) > sint max_bytes
                        then (Inl err_body_too_large, removed)
                        else case copy_err of
                            Some e \<Rightarrow> (Inl (GWrap ''revelt: writing uploaded file'' e), removed)
                          | None \<Rightarrow>
                              (case sv_close env of
                                 Some e \<Rightarrow> (Inl (GWrap ''revelt: closing uploaded file'' e), removed)
                               | None \<Rightarrow> (Inr (meta\<lparr>up_size := int (length out)\<rparr>), fs1))))))"

text \<open>
  \<open>FormFiles\<close>: a header is its file name, its size and what opening it gives. The second
  component of the result is the handles it closed.
\<close>

type_synonym 'f part_header = "string \<times> int \<times> 'f go"

fun open_parts ::
  "(rune \<Rightarrow> bool) \<Rightarrow> 'f part_header list \<Rightarrow> 'f list \<Rightarrow> uploaded list \<Rightarrow> ('f list \<times> uploaded list) go \<times> 'f list" where
  "open_parts ip [] files metas = (Inr (files, metas), [])"
| "open_parts ip ((filename, sz, handle) # hs) files metas =
     (case handle of
        Inl e \<Rightarrow> (Inl (GWrap (''revelt: opening uploaded file '' @ go_quote ip filename) e), files)
      | Inr f \<Rightarrow> open_parts ip hs (files @ [f]) (metas @ [make_uploaded filename sz]))"

definition form_files ::
  "(rune \<Rightarrow> bool) \<Rightarrow> (int \<Rightarrow> (string \<rightharpoonup> 'f part_header list) go) \<Rightarrow> (string \<rightharpoonup> 'f part_header list) option \<Rightarrow>
   string \<Rightarrow> ('f list \<times> uploaded list) go \<times> 'f list" where
  "form_files ip parse form field =
     (case (case form of Some f \<Rightarrow> Inr f | None \<Rightarrow> parse_multipart parse 0) of
        Inl e \<Rightarrow> (Inl e, [])
      | Inr f \<Rightarrow>
          (case f field of
             None \<Rightarrow> (Inl err_no_multipart_file, [])
           | Some hs \<Rightarrow> if hs = [] then (Inl err_no_multipart_file, []) else open_parts ip hs [] []))"

section \<open>Downloads\<close>

definition is_ascii_printable :: "string \<Rightarrow> bool" where
  "is_ascii_printable s \<longleftrightarrow> list_all (\<lambda>c. 0x20 \<le> (of_char c :: nat) \<and> (of_char c :: nat) \<le> 0x7E) s"

text \<open>\<open>url.QueryEscape\<close>.\<close>

definition upper_hex :: "nat \<Rightarrow> char" where
  "upper_hex d = (if d < 10 then char_of (48 + d) else char_of (55 + d))"

definition query_escape_char :: "char \<Rightarrow> string" where
  "query_escape_char c =
     (let b = (of_char c :: nat) in
      if (48 \<le> b \<and> b \<le> 57) \<or> (65 \<le> b \<and> b \<le> 90) \<or> (97 \<le> b \<and> b \<le> 122) \<or> c \<in> set ''-_.~'' then [c]
      else if c = CHR '' '' then ''+''
      else [CHR ''%'', upper_hex (b div 16), upper_hex (b mod 16)])"

definition query_escape :: "string \<Rightarrow> string" where
  "query_escape s = concat (map query_escape_char s)"

definition replace_byte :: "char \<Rightarrow> string" where
  "replace_byte c =
     (if c = CHR 0x22 then [CHR 0x27]
      else if c = CHR 0x0D \<or> c = CHR 0x0A then []
      else if c = CHR 0x5C then ''_''
      else [c])"

definition sanitize_disposition_filename :: "string \<Rightarrow> string" where
  "sanitize_disposition_filename name =
     (let cleaned = concat (map replace_byte (path_base name)) in
      if is_ascii_printable cleaned then cleaned else query_escape cleaned)"

definition disposition_value :: "string \<Rightarrow> string \<Rightarrow> string" where
  "disposition_value disposition name =
     disposition @ ''; filename='' @ [CHR 0x22] @ sanitize_disposition_filename name @ [CHR 0x22]"

text \<open>
  \<open>ServeFile\<close>: \<open>opn\<close> is \<open>os.Open\<close>, giving what \<open>Stat\<close> answers (whether it is a
  directory); \<open>mime\<close> is \<open>mime.TypeByExtension\<close>, \<open>serve\<close> is \<open>http.ServeContent\<close> on
  the open file.
\<close>

definition serve_file ::
  "(string \<Rightarrow> string) \<Rightarrow> (string \<Rightarrow> bool go go) \<Rightarrow> (string \<Rightarrow> rw \<Rightarrow> rw) \<Rightarrow> rw \<Rightarrow> string \<Rightarrow> string \<Rightarrow> rw \<times> hresult" where
  "serve_file mime opn serve w path download_name =
     (case opn path of
        Inl e \<Rightarrow>
          (w, HErr (if err_is e err_not_exist then GAround ''revelt.ServeFile'' err_not_exist ('': '' @ path)
                    else GWrap (''revelt.ServeFile: opening '' @ path) e))
      | Inr (Inl e) \<Rightarrow> (w, HErr (GWrap (''revelt.ServeFile: stat '' @ path) e))
      | Inr (Inr True) \<Rightarrow> (w, HErr (GErr (''revelt.ServeFile: '' @ path @ '' is a directory'')))
      | Inr (Inr False) \<Rightarrow>
          (let name = (if download_name \<noteq> [] then download_name else path_base path);
               disposition = (if download_name \<noteq> [] then ''attachment'' else ''inline'');
               ct = mime (path_ext name);
               w1 = upd_hdrs (hset ''Content-Type'' (if ct \<noteq> [] then ct else ''application/octet-stream'')) w;
               w2 = upd_hdrs (hset ''Content-Disposition'' (disposition_value disposition name)) w1
           in (serve name w2, HNil)))"

text \<open>\<open>io.CopyBuffer\<close> into the response: \<open>chunks\<close> are what the reads yield, then an error.\<close>

fun copy_chunks :: "codecs \<Rightarrow> string list \<Rightarrow> goerr option \<Rightarrow> rw \<Rightarrow> rw \<times> goerr option" where
  "copy_chunks Z [] err w = (w, err)"
| "copy_chunks Z (c # cs) err w =
     (case rw_write Z c w of
        (w', Some e) \<Rightarrow> (w', Some e)
      | (w', None) \<Rightarrow> copy_chunks Z cs err w')"

definition stream_reader ::
  "codecs \<Rightarrow> rw \<Rightarrow> string list \<times> goerr option \<Rightarrow> string \<Rightarrow> string \<Rightarrow> int \<Rightarrow> rw \<times> hresult" where
  "stream_reader Z w src content_type download_name sz =
     (let ct = (if content_type = [] then ''application/octet-stream'' else content_type);
          w1 = upd_hdrs (hset ''Content-Type'' ct) w;
          disposition = (if download_name = [] then ''inline'' else ''attachment'');
          name = (if download_name = [] then ''download'' else download_name);
          w2 = upd_hdrs (hset ''Content-Disposition'' (disposition_value disposition name)) w1;
          w3 = (if sz \<ge> 0 then upd_hdrs (hset ''Content-Length'' (show_int sz)) w2 else w2)
      in case copy_chunks Z (fst src) (snd src) w3 of
           (w4, Some e) \<Rightarrow> (w4, HErr (GWrap ''revelt.StreamReader: copying response body'' e))
         | (w4, None) \<Rightarrow> (w4, HNil))"

section \<open>Requests and headers\<close>

text \<open>\<open>media\<close> is \<open>mime.ParseMediaType\<close>, the type.\<close>

definition peek_content_type :: "(string \<Rightarrow> string go) \<Rightarrow> request \<Rightarrow> string" where
  "peek_content_type media r =
     (let ct = hget (rq_hdrs r) ''Content-Type'' in
      if ct = [] then [] else case media ct of Inl e \<Rightarrow> [] | Inr m \<Rightarrow> m)"

definition is_json_request :: "(string \<Rightarrow> string go) \<Rightarrow> request \<Rightarrow> bool" where
  "is_json_request media r \<longleftrightarrow>
     peek_content_type media r = ''application/json'' \<or> has_suffix (peek_content_type media r) ''+json''"

definition is_multipart_request :: "(string \<Rightarrow> string go) \<Rightarrow> request \<Rightarrow> bool" where
  "is_multipart_request media r \<longleftrightarrow> has_prefix (peek_content_type media r) ''multipart/''"

definition no_content :: "rw \<Rightarrow> rw" where
  "no_content w = write_header 204 w"

definition set_no_cache :: "rw \<Rightarrow> rw" where
  "set_no_cache w =
     upd_hdrs (hset ''Expires'' ''0'' \<circ> hset ''Pragma'' ''no-cache''
       \<circ> hset ''Cache-Control'' ''no-store, no-cache, must-revalidate'') w"

text \<open>\<open>int(maxAge.Seconds())\<close> of a duration in nanoseconds: towards zero.\<close>

definition whole_seconds :: "int \<Rightarrow> int" where
  "whole_seconds d = (if d < 0 then - ((- d) div 1000000000) else d div 1000000000)"

definition set_cache_immutable :: "int \<Rightarrow> rw \<Rightarrow> rw" where
  "set_cache_immutable max_age w =
     upd_hdrs (hset ''Cache-Control'' (''public, max-age='' @ show_int (whole_seconds max_age) @ '', immutable'')) w"

end
