(* ===== verification/Http_Helpers_Claims.thy ===== *)
theory Http_Helpers_Claims
  imports Http_Helpers Config_Claims Compress_Claims
begin

text \<open>
  What the helpers of \<open>http.go\<close> promise: the limit of DecodeJSON, including the limit at
  which its 64-bit sum wraps; the integers QueryInt reads back and the ones it wraps; names of
  uploads that stay in their directory; saved files that are whole or gone; download names that
  cannot break out of their header.
\<close>

section \<open>Limits\<close>

lemma sint_succ:
  fixes m :: "64 word"
  shows "sint (m + 1) = (if sint m = 2 ^ 63 - 1 then - (2 ^ 63) else sint m + 1)"
proof -
  have "sint (m + 1) = signed_take_bit 63 (sint m + 1)" by (simp add: sint_word_ariths)
  moreover have "- (2 ^ 63) \<le> sint m" "sint m < 2 ^ 63"
    using sint_ge [of m] sint_lt [of m] by simp_all
  moreover have "signed_take_bit 63 (2 ^ 63 :: int) = - (2 ^ 63)" by code_simp
  ultimately show ?thesis by (auto intro!: signed_take_bit_int_eq_self)
qed

text \<open>A reader limited to one byte past \<open>m\<close>, for a positive \<open>m\<close>.\<close>

lemma limit_past:
  assumes "sint m > 0"
  shows "limit_reader (m + 1) (s, err) =
     (if sint m = 2 ^ 63 - 1 then ([], None)
      else if int (length s) > sint m then (take (nat (sint m) + 1) s, None)
      else (s, err))"
proof -
  have "nat (sint m + 1) = Suc (nat (sint m))" using assms by simp
  with assms show ?thesis by (auto simp: limit_reader_def sint_succ)
qed

definition json_limit :: "64 word list \<Rightarrow> 64 word" where
  "json_limit max_bytes = (case max_bytes of m # _ \<Rightarrow> if sint m > 0 then m else default_max_json_body_bytes
     | [] \<Rightarrow> default_max_json_body_bytes)"

lemma json_limit_pos: "0 < sint (json_limit mb)"
proof -
  have "0 < sint default_max_json_body_bytes" by code_simp
  then show ?thesis by (auto simp: json_limit_def split: list.splits)
qed

text \<open>A body decoded as a whole: one value and then nothing but what the decoder skips.\<close>

definition decode_whole :: "'v decoder \<Rightarrow> unit decoder \<Rightarrow> string \<Rightarrow> 'v go" where
  "decode_whole dec raw data =
     (case dec data 0 of
        DecodeFail e off \<Rightarrow> Inl (malformed off e)
      | Decoded v off \<Rightarrow>
          (case raw data off of
             Decoded _ off' \<Rightarrow> Inl (malformed off' (GErr ''unexpected additional JSON value after body''))
           | DecodeFail e off' \<Rightarrow> if err_is e err_eof then Inr v else Inl (malformed off' e)))"

text \<open>
  C30: DecodeJSON accepts bodies up to its limit exactly, the given positive limit or 1 MiB: a
  longer body is refused as too large whatever follows it, a shorter or equal one is decoded in
  full, an error of the connection and an empty body are reported as such. The exception is the
  largest limit, 2^63 - 1, where the sum of limit and one wraps to a negative number: then every
  body is reported empty.
\<close>

theorem decode_json_limit:
  "decode_json dec raw (Some (s, err)) max_bytes =
     (let limit = sint (json_limit max_bytes) in
      if limit = 2 ^ 63 - 1 then Inl err_empty_body
      else if int (length s) > limit then Inl err_body_too_large
      else case err of
          Some e \<Rightarrow> Inl (GWrap ''revelt.DecodeJSON: reading body'' e)
        | None \<Rightarrow> if s = [] then Inl err_empty_body else decode_whole dec raw s)"
proof -
  let ?m = "json_limit max_bytes"
  have "decode_json dec raw (Some (s, err)) max_bytes =
     (let (data, err) = limit_reader (?m + 1) (s, err) in
      case err of
        Some e \<Rightarrow> Inl (GWrap ''revelt.DecodeJSON: reading body'' e)
      | None \<Rightarrow> if data = [] then Inl err_empty_body
          else if int (length data) > sint ?m then Inl err_body_too_large
          else decode_whole dec raw data)"
    by (auto simp: decode_json_def decode_whole_def Let_def split: prod.split option.split simp flip: json_limit_def)
  with json_limit_pos [of max_bytes] show ?thesis
    by (auto simp: limit_past Let_def min_def split: option.splits)
qed

section \<open>Query integers\<close>

lemma number_snoc: "number (ds @ [c]) = 10 * number ds + ((of_char c :: nat) - 48)"
  by (simp add: number_def)

lemma number_show: "number (show_nat n) = n"
proof (induction n rule: show_nat.induct)
  case (1 n)
  show ?case
  proof (cases "n < 10")
    case True
    then show ?thesis by (subst show_nat.simps) (simp add: number_def digit_range)
  next
    case False
    then have "show_nat n = show_nat (n div 10) @ [digit (n mod 10)]" by (subst show_nat.simps) simp
    with 1 [OF False] show ?thesis by (simp add: number_snoc digit_range)
  qed
qed

lemma show_nat_parts: "list_all is_digit (show_nat n)" "hd (show_nat n) \<noteq> CHR ''-''" "hd (show_nat n) \<noteq> CHR ''+''"
proof -
  have "is_digit c" if "c \<in> set (show_nat n)" for c using show_nat_digits [OF that] by (simp add: is_digit_def)
  then show "list_all is_digit (show_nat n)" by (simp add: list_all_iff)
  then have "is_digit (hd (show_nat n))" using hd_in_set [OF show_nat_nonempty] by (simp add: list_all_iff)
  then show "hd (show_nat n) \<noteq> CHR ''-''" "hd (show_nat n) \<noteq> CHR ''+''" by (auto simp: is_digit_def)
qed

lemma parse_show: "parse_int64 (show_int v) = (if - (2 ^ 63) \<le> v \<and> v < 2 ^ 63 then Some v else None)"
  by (auto simp: parse_int64_def show_int_def Let_def show_nat_parts show_nat_nonempty number_show)

lemma show_int_nonempty: "show_int v \<noteq> []"
  by (simp add: show_int_def show_nat_nonempty)

text \<open>The values of an integer type.\<close>

definition int_range :: "bool \<Rightarrow> nat \<Rightarrow> int set" where
  "int_range sgnd bits = (if sgnd then {- (2 ^ (bits - 1)) ..< 2 ^ (bits - 1)} else {0 ..< 2 ^ bits})"

lemma convert_range: "convert_int sgnd bits v \<in> int_range sgnd bits"
  using signed_take_bit_int_less_exp [of "bits - 1" v]
  by (auto simp: convert_int_def int_range_def signed_take_bit_int_greater_eq_minus_exp)

lemma convert_id: "v \<in> int_range sgnd bits \<Longrightarrow> convert_int sgnd bits v = v"
  by (auto simp: convert_int_def int_range_def signed_take_bit_int_eq_self take_bit_int_eq_self)

text \<open>
  QueryInt reads back every integer of its type that is printed in the query: values of
  the type that fit in 64 signed bits come back as they are. Numbers beyond 64 signed bits give
  the fallback (for unsigned 64-bit types that includes legal values), and numbers beyond the
  type but within 64 bits are not refused: they come back as another value of the type.
\<close>

theorem query_int_values:
  assumes "query name = show_int v"
  shows "query_int sgnd bits query name fallback =
      (if v < - (2 ^ 63) \<or> 2 ^ 63 \<le> v then (case fallback of x # _ \<Rightarrow> x | [] \<Rightarrow> 0)
       else if v \<in> int_range sgnd bits then v
       else convert_int sgnd bits v)
    \<and> (v \<notin> int_range sgnd bits \<longrightarrow> convert_int sgnd bits v \<noteq> v \<and> convert_int sgnd bits v \<in> int_range sgnd bits)"
proof -
  have "convert_int sgnd bits v \<noteq> v" if "v \<notin> int_range sgnd bits"
    using convert_range [of sgnd bits v] that by auto
  then show ?thesis using convert_range [of sgnd bits v] convert_id [of v sgnd bits]
    by (auto simp: query_int_def assms parse_show show_int_nonempty)
qed

theorem query_int_values_witness:
  "query_int False 8 (\<lambda>_. ''200'') ''page'' [1] = 200 \<and> query_int False 8 (\<lambda>_. ''300'') ''page'' [1] = 44"
proof -
  have "show_int 200 = ''200''" "show_int 300 = ''300''"
    by (simp_all add: show_int_def show_nat.simps)
  with query_int_values [of "\<lambda>_. ''200''" "''page''" 200 False 8 "[1]"]
    query_int_values [of "\<lambda>_. ''300''" "''page''" 300 False 8 "[1]"]
  show ?thesis by (simp add: int_range_def convert_int_def take_bit_eq_mod)
qed

section \<open>Uploads\<close>

lemma path_base_elem:
  assumes "path_base p \<noteq> [slash]"
  shows "path_base p \<noteq> [] \<and> slash \<notin> set (path_base p)"
proof (cases "p = []")
  case False
  let ?b = "takeWhile (\<lambda>c. c \<noteq> slash) (dropWhile (\<lambda>c. c = slash) (rev p))"
  have "slash \<notin> set ?b" by (auto dest: set_takeWhileD)
  with False assms show ?thesis by (auto simp: path_base_def Let_def split: if_splits)
qed (simp add: path_base_def slash_def)

lemma upload_name_simple: "simple_name (upload_name filename)"
  using path_base_elem [of "path_clean filename"]
  by (auto simp: upload_name_def simple_name_def Let_def slash_def)

text \<open>
  Whatever file name a client sends, the name of the upload is a single path element, not
  empty, neither dot nor dot-dot: joined to any clean relative directory it names an entry of
  exactly that directory.
\<close>

theorem upload_stays_in_directory:
  assumes "ds \<noteq> []" "\<forall>d \<in> set ds. simple_name d"
  shows "slash \<notin> set (up_name (make_uploaded filename sz)) \<and>
     path_join [join ds ''/'', up_name (make_uploaded filename sz)] =
       join ds ''/'' @ ''/'' @ up_name (make_uploaded filename sz)"
  using upload_name_simple [of filename] path_join_below [OF assms, of "upload_name filename"]
    join_append [OF assms(1), of "[upload_name filename]"]
  by (simp add: make_uploaded_def simple_name_def slash_def)

theorem upload_stays_in_directory_witness:
  "path_join [''data/in'', up_name (make_uploaded ''../../etc/passwd'' 9)] = ''data/in/passwd''"
proof -
  have ds: "\<forall>d \<in> set [''data'', ''in'']. simple_name d" by (simp add: simple_name_def slash_def)
  have "up_name (make_uploaded ''../../etc/passwd'' 9) = ''passwd''" by code_simp
  with upload_stays_in_directory [OF _ ds, of "''../../etc/passwd''" 9] show ?thesis by simp
qed

lemma copy_out_all: "copy_out env rd = (out, None) \<Longrightarrow> rd = (out, None)"
  by (auto simp: copy_out_def split: option.splits if_splits)

text \<open>
  C31: SaveUploadedFile leaves the whole upload or nothing. When it succeeds the file holds
  every byte of the part, no more than the limit if there is one, and the size it reports is
  theirs; when it fails (and Remove works) the destination either was never touched or is
  gone. No other file changes. The limit 2^63 - 1 is excepted: there the sum with one wraps.
\<close>

theorem save_uploaded_whole_or_gone:
  assumes "save_uploaded_file ip env files field dest max_bytes fs = (res, fs')" "sv_remove env"
    "sint max_bytes \<noteq> 2 ^ 63 - 1"
  shows "(case res of
       Inr meta \<Rightarrow> \<exists>content filename sz. files field = Inr ((content, None), filename, sz) \<and>
          fs' = fs(dest \<mapsto> content) \<and> up_size meta = int (length content) \<and>
          up_name meta = upload_name filename \<and>
          (sint max_bytes > 0 \<longrightarrow> int (length content) \<le> sint max_bytes)
     | Inl e \<Rightarrow> fs' = fs \<or> fs' = fs(dest := None))"
proof (cases res)
  case (Inl e)
  with assms show ?thesis
    by (auto simp: save_uploaded_file_def Let_def split: sum.splits option.splits prod.splits if_splits)
next
  case (Inr meta)
  with assms(1) obtain src filename sz where part: "files field = Inr (src, filename, sz)"
    and src: "sv_mkdir env = None" "sv_open env = None"
    by (auto simp: save_uploaded_file_def form_file_def split: sum.splits option.splits if_splits)
  let ?rd = "if sint max_bytes > 0 then limit_reader (max_bytes + 1) src else src"
  obtain out err where out: "copy_out env ?rd = (out, err)" by fastforce
  from assms(1) Inr part src out have small: "sint max_bytes > 0 \<longrightarrow> int (length out) \<le> sint max_bytes"
    and e: "err = None" and fs': "fs' = fs(dest \<mapsto> out)"
    and meta: "meta = make_uploaded filename sz\<lparr>up_size := int (length out)\<rparr>"
    by (auto simp: save_uploaded_file_def form_file_def Let_def split: option.splits if_splits)
  from out e have rd: "?rd = (out, None)" by (simp add: copy_out_all)
  have "src = (out, None)"
  proof (cases "sint max_bytes > 0")
    case True
    obtain content rerr where s: "src = (content, rerr)" by fastforce
    have "\<not> int (length content) > sint max_bytes"
    proof
      assume "int (length content) > sint max_bytes"
      with rd True s assms(3) have "out = take (nat (sint max_bytes) + 1) content" by (simp add: limit_past)
      with \<open>int (length content) > sint max_bytes\<close> True have "int (length out) = sint max_bytes + 1" by simp
      with small True show False by simp
    qed
    with rd True s assms(3) show ?thesis by (simp add: limit_past)
  qed (use rd in simp)
  with part fs' meta small Inr show ?thesis by (simp add: make_uploaded_def)
qed

theorem save_uploaded_whole_or_gone_witness:
  "save_uploaded_file (\<lambda>_. True) \<lparr>sv_mkdir = None, sv_open = None, sv_write = None, sv_close = None, sv_remove = True\<rparr>
     (\<lambda>_. Inr ((''abc'', None), ''a.txt'', 3)) ''f'' ''up/a'' 2 (\<lambda>_. None) = (Inl err_body_too_large, \<lambda>_. None)"
proof -
  let ?env = "\<lparr>sv_mkdir = None, sv_open = None, sv_write = None, sv_close = None, sv_remove = True\<rparr>"
  have two: "sint (2 :: 64 word) = 2" by code_simp
  let ?r = "save_uploaded_file (\<lambda>_. True) ?env (\<lambda>_. Inr ((''abc'', None), ''a.txt'', 3)) ''f'' ''up/a'' 2 (\<lambda>_. None)"
  have res: "fst ?r = Inl err_body_too_large"
    using limit_past [of 2 "''abc''" None] two
    by (simp add: save_uploaded_file_def form_file_def copy_out_def)
  obtain r fs' where r: "?r = (r, fs')" by fastforce
  from save_uploaded_whole_or_gone [OF this] res r two have "fs' = (\<lambda>_. None) \<or> fs' = (\<lambda>_. None)(''up/a'' := None)"
    by simp
  with res r show ?thesis by auto
qed

lemma open_parts_outcome:
  "open_parts ip hs fs ms =
     (if \<forall>h \<in> set hs. is_ok (snd (snd h))
      then (Inr (fs @ [f. (_, _, Inr f) \<leftarrow> hs], ms @ [make_uploaded n sz. (n, sz, Inr f) \<leftarrow> hs]), [])
      else (let k = length (takeWhile (\<lambda>h. is_ok (snd (snd h))) hs); (n, sz, x) = hs ! k in
        (case x of Inl e \<Rightarrow> Inl (GWrap (''revelt: opening uploaded file '' @ go_quote ip n) e) | Inr _ \<Rightarrow> Inr ([], []),
         fs @ [f. (_, _, Inr f) \<leftarrow> take k hs])))"
proof (induction ip hs fs ms rule: open_parts.induct)
  case (2 ip n sz x hs fs ms)
  show ?case
  proof (cases x)
    case (Inr f)
    with 2 [OF Inr] show ?thesis by (auto simp: Let_def split: prod.splits)
  qed (simp add: is_ok_def)
qed simp

section \<open>Downloads\<close>

definition header_safe :: "char \<Rightarrow> bool" where
  "header_safe c \<longleftrightarrow> 0x20 \<le> (of_char c :: nat) \<and> (of_char c :: nat) \<le> 0x7E \<and> c \<noteq> CHR 0x22 \<and> c \<noteq> CHR 0x5C"

lemma header_safe_nat: "n \<in> {0x20 .. 0x7E} - {0x22, 0x5C} \<Longrightarrow> header_safe (char_of n)" for n :: nat
  by (auto simp: header_safe_def char_of_eq_iff take_bit_eq_mod)

lemma query_escape_safe: "c \<in> set (query_escape s) \<Longrightarrow> header_safe c"
proof -
  have hex: "header_safe (upper_hex d)" if "d < 16" for d
    using that unfolding upper_hex_def by (cases "d < 10") (auto intro!: header_safe_nat)
  have "header_safe c" if "c \<in> set (query_escape_char x)" for c x
  proof -
    have "(of_char x :: nat) div 16 < 16" using less_mult_imp_div_less [of "of_char x" 16 16] by simp
    with that hex show ?thesis
      by (auto simp: query_escape_char_def Let_def header_safe_def split: if_splits)
  qed
  then show "c \<in> set (query_escape s) \<Longrightarrow> header_safe c" by (auto simp: query_escape_def)
qed

lemma sanitize_safe: "\<forall>c \<in> set (sanitize_disposition_filename name). header_safe c"
proof -
  have "header_safe c" if "c \<in> set (replace_byte x)" "0x20 \<le> (of_char c :: nat)" "(of_char c :: nat) \<le> 0x7E" for c x
    using that by (auto simp: replace_byte_def header_safe_def split: if_splits)
  then show ?thesis
    by (auto simp: sanitize_disposition_filename_def Let_def is_ascii_printable_def list_all_iff query_escape_safe)
qed

text \<open>
  A download name cannot break out of its header. Whatever name ServeFile and StreamReader
  are given, between the quotes of Content-Disposition stand only printable ASCII characters,
  none of them a quote or a backslash (so no line break either).
\<close>

theorem disposition_unbreakable:
  "\<exists>quoted. disposition_value disposition name =
       disposition @ ''; filename='' @ [CHR 0x22] @ quoted @ [CHR 0x22] \<and> (\<forall>c \<in> set quoted. header_safe c) \<and>
     (\<forall>c. \<exists>w. serve_file mime (\<lambda>_. Inr (Inr False)) (\<lambda>_ w. w) (Conn c) path name = (w, HNil) \<and>
        (name \<noteq> [] \<and> disposition = ''attachment'' \<longrightarrow>
           hget (rw_hdrs w) ''Content-Disposition'' =
             disposition @ ''; filename='' @ [CHR 0x22] @ quoted @ [CHR 0x22]))"
  using sanitize_safe [of name]
  by (intro exI [of _ "sanitize_disposition_filename name"]) (auto simp: disposition_value_def serve_file_def Let_def)

theorem disposition_unbreakable_witness:
  "\<exists>q. disposition_value ''attachment'' [CHR 0x22, CHR 0x0A] =
     ''attachment; filename='' @ [CHR 0x22] @ q @ [CHR 0x22] \<and> (\<forall>c \<in> set q. header_safe c)"
  using disposition_unbreakable [of "''attachment''" "[CHR 0x22, CHR 0x0A]"] by force

end
