(* ===== verification/App.thy ===== *)
theory App
  imports Http_Helpers Renderer
begin

text \<open>
  The application (\<open>app.go\<close>) around the renderer: its options and construction, pages
  assembled from concurrently rendered slots, the health endpoints (also \<open>health/health.go\<close>),
  and what Run does when the server fails or the context ends. The middleware chain and the
  static handler are in theories Http and Compress.
\<close>

section \<open>Options and construction\<close>

type_synonym error_handler = "request \<Rightarrow> rw \<Rightarrow> goerr \<Rightarrow> rw"

record app_options =
  read_timeout :: int
  app_write_timeout :: int
  idle_timeout :: int
  shutdown_after :: int
  app_middleware :: "middleware list"
  app_logger :: log_sink
  app_error_handler :: error_handler
  disable_compression :: bool
  tls_certificate :: "string option"

text \<open>\<open>WithTLSConfig\<close> carries what \<open>tls.LoadX509KeyPair\<close> returns for its arguments.\<close>

datatype app_option =
    WithReadTimeout int
  | WithWriteTimeout int
  | WithIdleTimeout int
  | WithShutdownTimeout int
  | WithMiddleware "middleware list"
  | WithLogger log_sink
  | WithTLSConfig "string go"
  | WithErrorHandler error_handler
  | WithoutCompression

fun apply_app_option :: "app_option \<Rightarrow> app_options \<Rightarrow> app_options outcome" where
  "apply_app_option (WithReadTimeout d) o1 = Done (o1\<lparr>read_timeout := d\<rparr>)"
| "apply_app_option (WithWriteTimeout d) o1 = Done (o1\<lparr>app_write_timeout := d\<rparr>)"
| "apply_app_option (WithIdleTimeout d) o1 = Done (o1\<lparr>idle_timeout := d\<rparr>)"
| "apply_app_option (WithShutdownTimeout d) o1 = Done (o1\<lparr>shutdown_after := d\<rparr>)"
| "apply_app_option (WithMiddleware mws) o1 = Done (o1\<lparr>app_middleware := app_middleware o1 @ mws\<rparr>)"
| "apply_app_option (WithLogger l) o1 = Done (o1\<lparr>app_logger := l\<rparr>)"
| "apply_app_option (WithTLSConfig loaded) o1 =
     (case loaded of
        Inl e \<Rightarrow> Panicked (''failed to load certificate pair: '' @ err_msg e)
      | Inr cert \<Rightarrow> Done (o1\<lparr>tls_certificate := Some cert\<rparr>))"
| "apply_app_option (WithErrorHandler h) o1 = Done (o1\<lparr>app_error_handler := h\<rparr>)"
| "apply_app_option WithoutCompression o1 = Done (o1\<lparr>disable_compression := True\<rparr>)"

fun apply_app_options :: "app_option list \<Rightarrow> app_options \<Rightarrow> app_options outcome" where
  "apply_app_options [] o1 = Done o1"
| "apply_app_options (opt # opts) o1 =
     (case apply_app_option opt o1 of Panicked m \<Rightarrow> Panicked m | Done o2 \<Rightarrow> apply_app_options opts o2)"

text \<open>How long \<open>Run\<close> lets requests in flight drain, in nanoseconds.\<close>

definition shutdown_timeout :: int where
  "shutdown_timeout = 10 * 1000000000"

definition app_defaults :: "codecs \<Rightarrow> app_options" where
  "app_defaults Z =
     \<lparr>read_timeout = 5000000000, app_write_timeout = 30000000000, idle_timeout = 120000000000,
      shutdown_after = shutdown_timeout, app_middleware = [], app_logger = StdLog,
      app_error_handler = (\<lambda>r w e. default_error_handler Z w e),
      disable_compression = False, tls_certificate = None\<rparr>"

record app =
  app_renderer :: renderer
  app_cfg :: project_config
  app_opts :: app_options

text \<open>
  \<open>newAppWithConfig\<close>. On an error the context is cancelled and the signal subscription
  released: the flag of the result. The milliseconds of the configuration become a 64-bit
  duration.
\<close>

definition new_app_with_config ::
  "(rune \<Rightarrow> bool) \<Rightarrow> codecs \<Rightarrow> os_env \<Rightarrow> project_config \<Rightarrow> string \<Rightarrow> app_option list \<Rightarrow>
   (app go \<times> bool) outcome" where
  "new_app_with_config ip Z os pc sidecar opts =
     (case apply_app_options opts (app_defaults Z) of
        Panicked m \<Rightarrow> Panicked m
      | Done o1 \<Rightarrow>
          (case new_renderer ip os sidecar
                  [WithWorkers (pc_workers pc),
                   WithRenderTimeout (signed_take_bit 63 (timeout_ms pc * 1000000)),
                   WithProjectConfig (Some pc)] of
             Panicked m \<Rightarrow> Panicked m
           | Done (Inl e, closed) \<Rightarrow> Done (Inl (GWrap ''revelt.NewApp: starting renderer'' e), True)
           | Done (Inr r, closed) \<Rightarrow> Done (Inr \<lparr>app_renderer = r, app_cfg = pc, app_opts = o1\<rparr>, False)))"

text \<open>The render server under the output directory.\<close>

definition sidecar_script :: string where
  "sidecar_script = ''render-server.cjs''"

definition new_app ::
  "(rune \<Rightarrow> bool) \<Rightarrow> codecs \<Rightarrow> os_env \<Rightarrow> project_config go \<Rightarrow> app_option list \<Rightarrow> (app go \<times> bool) outcome" where
  "new_app ip Z os loaded opts =
     (case loaded of
        Inl e \<Rightarrow> Done (Inl (GWrap ''revelt.NewApp: loading config'' e), False)
      | Inr pc \<Rightarrow> new_app_with_config ip Z os pc (path_join [out_dir pc, sidecar_script]) opts)"

definition new_app_from_config ::
  "(rune \<Rightarrow> bool) \<Rightarrow> codecs \<Rightarrow> os_env \<Rightarrow> project_config \<Rightarrow> string \<Rightarrow> app_option list \<Rightarrow>
   (app go \<times> bool) outcome" where
  "new_app_from_config ip Z os pc sidecar opts = new_app_with_config ip Z os pc sidecar opts"

text \<open>
  \<open>RenderComponent\<close>, on a pool in the state \<open>p\<close>; \<open>spawned\<close> and \<open>work\<close> are what starting a
  replacement and the workers answer.
\<close>

definition render_component ::
  "(rune \<Rightarrow> bool) \<Rightarrow> goerr option \<Rightarrow> (wref \<Rightarrow> int option \<Rightarrow> string \<Rightarrow> props \<Rightarrow> render_response go) \<Rightarrow> app \<Rightarrow>
   pool \<Rightarrow> string \<Rightarrow> props \<Rightarrow> string go \<times> pool" where
  "render_component ip spawned work a p cname ps =
     render ip (pool_render spawned work) (rend_cfg (app_renderer a)) (rend_project (app_renderer a)) p cname ps"

section \<open>Pages\<close>

record slot_request =
  slot_key :: string
  slot_component :: string
  slot_props :: props

record slot_result =
  res_key :: string
  res_out :: "string go"

definition resolve_template :: "string \<Rightarrow> reader go \<Rightarrow> string go" where
  "resolve_template template opened =
     (if template \<noteq> [] then Inr template
      else case opened of
          Inl e \<Rightarrow> Inl (GWrap ''opening index.html'' e)
        | Inr (data, Some e) \<Rightarrow> Inl (GWrap ''reading index.html'' e)
        | Inr (data, None) \<Rightarrow> Inr data)"

text \<open>
  The goroutines of \<open>PageBuilder.Render\<close>, in the order their calls of the renderer are
  served; each writes the element of its own index. \<open>rend\<close> is \<open>Renderer.Render\<close>.
\<close>

fun run_slots ::
  "('s \<Rightarrow> string \<Rightarrow> props \<Rightarrow> string go \<times> 's) \<Rightarrow> slot_request list \<Rightarrow> nat list \<Rightarrow> 's \<Rightarrow>
   slot_result list \<Rightarrow> slot_result list \<times> 's" where
  "run_slots rend sls [] s results = (results, s)"
| "run_slots rend sls (i # order) s results =
     (let (out, s') = rend s (slot_component (sls ! i)) (slot_props (sls ! i))
      in run_slots rend sls order s' (results[i := \<lparr>res_key = slot_key (sls ! i), res_out = out\<rparr>]))"

fun collect_slots :: "(rune \<Rightarrow> bool) \<Rightarrow> slot_result list \<Rightarrow> (string \<rightharpoonup> string) \<Rightarrow> (string \<rightharpoonup> string) go" where
  "collect_slots ip [] data = Inr data"
| "collect_slots ip (res # rest) data =
     (case res_out res of
        Inl e \<Rightarrow> Inl (GWrap (''revelt page: rendering slot '' @ go_quote ip (res_key res)) e)
      | Inr html \<Rightarrow> collect_slots ip rest (data(res_key res \<mapsto> html)))"

text \<open>\<open>parse\<close> and \<open>exec\<close> are \<open>html/template\<close>.\<close>

definition index_max_age :: int where
  "index_max_age = 0"

definition page_respond ::
  "codecs \<Rightarrow> (string \<Rightarrow> 't go) \<Rightarrow> ('t \<Rightarrow> (string \<rightharpoonup> string) \<Rightarrow> string go) \<Rightarrow> string \<Rightarrow>
   (string \<rightharpoonup> string) \<Rightarrow> rw \<Rightarrow> rw \<times> hresult" where
  "page_respond Z parse exec tmpl data w =
     (case parse tmpl of
        Inl e \<Rightarrow> (w, HErr (GWrap ''revelt page: parsing template'' e))
      | Inr t \<Rightarrow>
          (case exec t data of
             Inl e \<Rightarrow> (w, HErr (GWrap ''revelt page: executing template'' e))
           | Inr html \<Rightarrow>
               (let w1 = upd_hdrs (hset ''Content-Type'' ''text/html; charset=utf-8'') w;
                    w2 = upd_hdrs (hset ''Cache-Control'' (''no-cache, max-age='' @ show_int index_max_age)) w1
                in if html = [] then (w2, HNil)
                   else case rw_write Z html w2 of
                       (w3, Some e) \<Rightarrow> (w3, HErr e)
                     | (w3, None) \<Rightarrow> (w3, HNil))))"

definition page_render ::
  "(rune \<Rightarrow> bool) \<Rightarrow> codecs \<Rightarrow> ('s \<Rightarrow> string \<Rightarrow> props \<Rightarrow> string go \<times> 's) \<Rightarrow>
   (string \<Rightarrow> 't go) \<Rightarrow> ('t \<Rightarrow> (string \<rightharpoonup> string) \<Rightarrow> string go) \<Rightarrow>
   string \<Rightarrow> reader go \<Rightarrow> slot_request list \<Rightarrow> nat list \<Rightarrow> 's \<Rightarrow> rw \<Rightarrow> (rw \<times> hresult) \<times> 's" where
  "page_render ip Z rend parse exec template opened sls order s w =
     (case resolve_template template opened of
        Inl e \<Rightarrow> ((w, HErr (GWrap ''revelt page: resolving template'' e)), s)
      | Inr tmpl \<Rightarrow>
          (let (results, s') = run_slots rend sls order s (replicate (length sls) \<lparr>res_key = [], res_out = Inr []\<rparr>)
           in (case collect_slots ip results (\<lambda>_. None) of
                 Inl e \<Rightarrow> (w, HErr e)
               | Inr data \<Rightarrow> page_respond Z parse exec tmpl data w, s')))"

section \<open>Health\<close>

definition worker_stat_json :: "worker_stat \<Rightarrow> string go" where
  "worker_stat_json st =
     json_struct [(''Index'', marshal (JInt (int (stat_index st)))), (''Alive'', marshal (JBool (stat_alive st))),
       (''Stderr'', marshal (JStr (stat_stderr st)))]"

definition count_alive :: "worker_stat list \<Rightarrow> nat" where
  "count_alive stats = foldl (\<lambda>n st. if stat_alive st then n + 1 else n) 0 stats"

text \<open>The two endpoints of \<open>RegisterHealthEndpoints\<close>, whose bodies are maps.\<close>

definition healthz :: "codecs \<Rightarrow> worker_stat list \<Rightarrow> rw \<Rightarrow> rw" where
  "healthz Z stats w =
     write_json_response Z w 200
       (json_map [(''status'', marshal (JStr ''ok'')), (''workers'', json_array (map worker_stat_json stats))])"

definition readyz :: "codecs \<Rightarrow> worker_stat list \<Rightarrow> rw \<Rightarrow> rw" where
  "readyz Z stats w =
     (let alive = count_alive stats;
          status = (if alive = 0 then ''degraded'' else ''ok'');
          code = (if alive = 0 then 503 else 200)
      in write_json_response Z w code
           (json_map [(''status'', marshal (JStr status)), (''alive_workers'', marshal (JInt (int alive))),
              (''total_workers'', marshal (JInt (int (length stats)))),
              (''workers'', json_array (map worker_stat_json stats))]))"

text \<open>The handlers of \<open>health/health.go\<close>, whose bodies are structs.\<close>

definition liveness_response :: "string \<Rightarrow> worker_stat list \<Rightarrow> string go" where
  "liveness_response status stats =
     json_struct [(''status'', marshal (JStr status)), (''workers'', json_array (map worker_stat_json stats))]"

definition readiness_response :: "string \<Rightarrow> nat \<Rightarrow> nat \<Rightarrow> worker_stat list \<Rightarrow> string go" where
  "readiness_response status n m stats =
     json_struct [(''status'', marshal (JStr status)), (''alive_workers'', marshal (JInt (int n))),
       (''total_workers'', marshal (JInt (int m))),
       (''workers'', json_array (map worker_stat_json stats))]"

definition health_write_json :: "codecs \<Rightarrow> rw \<Rightarrow> nat \<Rightarrow> string go \<Rightarrow> rw" where
  "health_write_json Z w code enc =
     (let w1 = upd_hdrs (hset ''Content-Type'' ''application/json; charset=utf-8'') w;
          w2 = write_header code w1
      in fst (json_encode Z w2 enc))"

definition liveness :: "codecs \<Rightarrow> worker_stat list \<Rightarrow> rw \<Rightarrow> rw" where
  "liveness Z stats w =
     health_write_json Z w 200
       (liveness_response ''ok'' stats)"

definition readiness :: "codecs \<Rightarrow> worker_stat list \<Rightarrow> rw \<Rightarrow> rw" where
  "readiness Z stats w =
     (let alive = count_alive stats;
          status = (if alive = 0 then ''degraded'' else ''ok'');
          code = (if alive = 0 then 503 else 200)
      in health_write_json Z w code
           (readiness_response status alive (length stats) stats))"

section \<open>Running\<close>

definition err_server_closed :: goerr where
  "err_server_closed = GErr ''http: Server closed''"

text \<open>
  The serving goroutine: whether it ends the program with a fatal log line, from what
  \<open>ListenAndServeTLS\<close> or \<open>ListenAndServe\<close> returns. The error of the latter is dropped.
\<close>

definition serve_fatal :: "app_options \<Rightarrow> goerr option \<Rightarrow> goerr option" where
  "serve_fatal opts listened =
     (let err = (case tls_certificate opts of Some _ \<Rightarrow> listened | None \<Rightarrow> None)
      in case err of
           Some e \<Rightarrow> if e \<noteq> err_server_closed then Some (GWrap ''[revelt] server error'' e) else None
         | None \<Rightarrow> None)"

text \<open>What Run does once the context is done, in order.\<close>

datatype shutdown_action = StopSignal | CloseRenderer | ShutdownServer int | CancelContext | LogLine log_sink string

definition run_shutdown :: "app_options \<Rightarrow> goerr option \<Rightarrow> goerr option \<Rightarrow> shutdown_action list" where
  "run_shutdown opts close_err shutdown_err =
     [LogLine (app_logger opts) (''[revelt] shutdown signal received, draining'' @ bytes [0xE2, 0x80, 0xA6]), StopSignal, CloseRenderer]
     @ (case close_err of Some e \<Rightarrow> [LogLine (app_logger opts) (err_msg (GWrap ''[revelt] renderer close error'' e))] | None \<Rightarrow> [])
     @ [ShutdownServer (shutdown_after opts)]
     @ (case shutdown_err of Some e \<Rightarrow> [LogLine (app_logger opts) (err_msg (GWrap ''[revelt] graceful shutdown error'' e))] | None \<Rightarrow> [])
     @ [CancelContext, LogLine (app_logger opts) ''[revelt] stopped.'']"

end
