(* ===== verification/App_Claims.thy ===== *)
theory App_Claims
  imports App Compress_Claims
begin

text \<open>
  What pages promise: every slot shows the answer to its own request, whatever order the
  concurrent renders are served in, and a failing page reports the first declared slot that
  failed and writes nothing. Then readiness, and the order of the shutdown.
\<close>

section \<open>Pages\<close>

text \<open>The page with the slots answered by \<open>ans\<close>, in the order of declaration.\<close>

definition page_spec ::
  "(rune \<Rightarrow> bool) \<Rightarrow> codecs \<Rightarrow> (string \<Rightarrow> 't go) \<Rightarrow> ('t \<Rightarrow> (string \<rightharpoonup> string) \<Rightarrow> string go) \<Rightarrow>
   string \<Rightarrow> slot_request list \<Rightarrow> (nat \<Rightarrow> string go) \<Rightarrow> rw \<Rightarrow> rw \<times> hresult" where
  "page_spec ip Z parse exec tmpl sls ans w =
     (case find (\<lambda>i. \<not> is_ok (ans i)) [0..<length sls] of
        Some i \<Rightarrow>
          (w, HErr (GWrap (''revelt page: rendering slot '' @ go_quote ip (slot_key (sls ! i))) (projl (ans i))))
      | None \<Rightarrow>
          page_respond Z parse exec tmpl
            (map_of (rev (map (\<lambda>i. (slot_key (sls ! i), projr (ans i))) [0..<length sls]))) w)"

lemma collect_slots_spec:
  "collect_slots ip rs data =
     (case find (\<lambda>r. \<not> is_ok (res_out r)) rs of
        Some r \<Rightarrow> Inl (GWrap (''revelt page: rendering slot '' @ go_quote ip (res_key r)) (projl (res_out r)))
      | None \<Rightarrow> Inr (data ++ map_of (rev (map (\<lambda>r. (res_key r, projr (res_out r))) rs))))"
  by (induction rs arbitrary: data) (auto simp: is_ok_def split: sum.splits option.splits)

text \<open>Each goroutine writes its own element, once.\<close>

lemma run_slots_results:
  assumes "distinct order" "set order \<subseteq> {..<length sls}" "length results = length sls"
    "run_slots rend sls order s results = (results', s')"
  shows "length results' = length sls \<and>
    (\<forall>j < length sls. if j \<in> set order
       then \<exists>u. results' ! j = \<lparr>res_key = slot_key (sls ! j),
                   res_out = fst (rend u (slot_component (sls ! j)) (slot_props (sls ! j)))\<rparr>
       else results' ! j = results ! j)"
  using assms
proof (induction order arbitrary: s results)
  case (Cons i order)
  let ?r = "results[i := \<lparr>res_key = slot_key (sls ! i),
      res_out = fst (rend s (slot_component (sls ! i)) (slot_props (sls ! i)))\<rparr>]"
  from Cons.prems(4) have "run_slots rend sls order
      (snd (rend s (slot_component (sls ! i)) (slot_props (sls ! i)))) ?r = (results', s')"
    by (simp add: case_prod_beta)
  with Cons.IH [of ?r] Cons.prems(1-3) have ih: "length results' = length sls"
    "\<forall>j < length sls. if j \<in> set order
       then \<exists>u. results' ! j = \<lparr>res_key = slot_key (sls ! j),
                   res_out = fst (rend u (slot_component (sls ! j)) (slot_props (sls ! j)))\<rparr>
       else results' ! j = ?r ! j" by auto
  have "results' ! i = \<lparr>res_key = slot_key (sls ! i),
      res_out = fst (rend s (slot_component (sls ! i)) (slot_props (sls ! i)))\<rparr>"
    using ih(2) Cons.prems(1-3) by auto
  with ih Cons.prems(1-3) show ?case by auto
qed simp

lemma page_render_spec:
  assumes "distinct order" "set order = {..<length sls}" "resolve_template template opened = Inr tmpl"
  shows "\<exists>ans. (\<forall>i < length sls. \<exists>u. ans i = fst (rend u (slot_component (sls ! i)) (slot_props (sls ! i)))) \<and>
     fst (page_render ip Z rend parse exec template opened sls order s w) = page_spec ip Z parse exec tmpl sls ans w"
proof -
  let ?init = "replicate (length sls) \<lparr>res_key = [], res_out = Inr []\<rparr>"
  obtain rs s' where run: "run_slots rend sls order s ?init = (rs, s')" by fastforce
  with run_slots_results [OF assms(1), of sls ?init rend s rs s'] assms(2)
  have len: "length rs = length sls"
    and each: "\<And>i. i < length sls \<Longrightarrow> \<exists>u. rs ! i = \<lparr>res_key = slot_key (sls ! i),
        res_out = fst (rend u (slot_component (sls ! i)) (slot_props (sls ! i)))\<rparr>" by auto
  define ans where "ans i = res_out (rs ! i)" for i
  have key: "res_key (rs ! i) = slot_key (sls ! i)" if "i < length sls" for i using each [OF that] by auto
  have rs: "rs = map (\<lambda>i. rs ! i) [0..<length sls]" using len by (metis map_nth)
  have "find (\<lambda>r. \<not> is_ok (res_out r)) rs = map_option (\<lambda>i. rs ! i) (find (\<lambda>i. \<not> is_ok (ans i)) [0..<length sls])"
  proof -
    have "find P (map f xs) = map_option f (find (P \<circ> f) xs)" for P and f :: "nat \<Rightarrow> slot_result" and xs
      by (induction xs) auto
    then show ?thesis by (subst rs) (simp add: ans_def comp_def)
  qed
  moreover have "map (\<lambda>r. (res_key r, projr (res_out r))) rs =
      map (\<lambda>i. (slot_key (sls ! i), projr (ans i))) [0..<length sls]"
    by (subst rs) (simp add: ans_def key)
  ultimately have found: "find (\<lambda>r. \<not> is_ok (res_out r)) rs =
      map_option (\<lambda>i. rs ! i) (find (\<lambda>i. \<not> is_ok (ans i)) [0..<length sls])"
    and data: "map (\<lambda>r. (res_key r, projr (res_out r))) rs =
      map (\<lambda>i. (slot_key (sls ! i), projr (ans i))) [0..<length sls]" by simp_all
  have "fst (page_render ip Z rend parse exec template opened sls order s w) = page_spec ip Z parse exec tmpl sls ans w"
  proof (cases "find (\<lambda>i. \<not> is_ok (ans i)) [0..<length sls]")
    case None
    with found data run assms(3) show ?thesis by (simp add: page_render_def collect_slots_spec page_spec_def)
  next
    case (Some i)
    then have "i < length sls" by (auto simp: find_Some_iff)
    with Some found data run assms(3) show ?thesis
      by (simp add: page_render_def collect_slots_spec page_spec_def key) (simp add: ans_def)
  qed
  moreover have "\<exists>u. ans i = fst (rend u (slot_component (sls ! i)) (slot_props (sls ! i)))" if "i < length sls" for i
    using each [OF that] by (auto simp: ans_def)
  ultimately show ?thesis by blast
qed

text \<open>
  C32: pages do not depend on how their renders interleave. For any renderer and any order in
  which the concurrent slots are served, the response is that of the template filled with one
  answer per slot, each the renderer's answer to the request of that very slot; if some answers
  are errors, the page fails with the first in order of declaration and nothing is written.
\<close>

theorem page_slots_independent:
  assumes "distinct order" "set order = {..<length sls}" "resolve_template template opened = Inr tmpl"
  shows "\<exists>ans. (\<forall>i < length sls. \<exists>u. ans i = fst (rend u (slot_component (sls ! i)) (slot_props (sls ! i)))) \<and>
     fst (page_render ip Z rend parse exec template opened sls order s w) = page_spec ip Z parse exec tmpl sls ans w"
  by (rule page_render_spec [OF assms])

definition demo_slots :: "slot_request list" where
  "demo_slots = [\<lparr>slot_key = ''A'', slot_component = ''Nav'', slot_props = None\<rparr>,
                 \<lparr>slot_key = ''B'', slot_component = ''Chart'', slot_props = None\<rparr>]"

theorem page_slots_independent_witness:
  "\<exists>ans. ans 0 = Inr ''<Nav>'' \<and> ans 1 = Inl (GErr ''Chart'') \<and>
     fst (page_render (\<lambda>_. True) demo_codecs (\<lambda>n c ps. (if c = ''Nav'' then Inr (''<'' @ c @ ''>'') else Inl (GErr c), n + 1))
       (\<lambda>s. Inr s) (\<lambda>t m. Inr t) ''x'' (Inl (GErr ''absent'')) demo_slots [1, 0] (0::nat) (Conn demo_conn)) =
     page_spec (\<lambda>_. True) demo_codecs (\<lambda>s. Inr s) (\<lambda>t m. Inr t) ''x'' demo_slots ans (Conn demo_conn)"
proof -
  let ?rend = "\<lambda>(n::nat) c (ps :: props). (if c = ''Nav'' then Inr (''<'' @ c @ ''>'') else Inl (GErr c) :: string go, n + 1)"
  have "resolve_template ''x'' (Inl (GErr ''absent'')) = Inr ''x''" by (simp add: resolve_template_def)
  moreover have "set [1, 0] = {..<length demo_slots}" by (auto simp: demo_slots_def)
  ultimately obtain ans where ans: "\<forall>i < length demo_slots. \<exists>u. ans i = fst (?rend u (slot_component (demo_slots ! i)) (slot_props (demo_slots ! i)))"
    "fst (page_render (\<lambda>_. True) demo_codecs ?rend (\<lambda>s. Inr s) (\<lambda>t m. Inr t) ''x'' (Inl (GErr ''absent'')) demo_slots [1, 0] 0 (Conn demo_conn)) =
     page_spec (\<lambda>_. True) demo_codecs (\<lambda>s. Inr s) (\<lambda>t m. Inr t) ''x'' demo_slots ans (Conn demo_conn)"
    using page_slots_independent [of "[1, 0]" demo_slots "''x''" "Inl (GErr ''absent'')" "''x''" ?rend "\<lambda>_. True" demo_codecs
        "\<lambda>s. Inr s" "\<lambda>t m. Inr t" 0 "Conn demo_conn"] by auto
  have "ans 0 = Inr ''<Nav>''" "ans 1 = Inl (GErr ''Chart'')"
    using ans(1) by (auto simp: demo_slots_def dest: spec [of _ 0] spec [of _ 1])
  with ans(2) show ?thesis by blast
qed

section \<open>Health and shutdown\<close>

lemma count_alive_filter: "count_alive stats = length (filter stat_alive stats)"
proof -
  have "foldl (\<lambda>n st. if stat_alive st then n + 1 else n) k stats = k + length (filter stat_alive stats)" for k
    by (induction stats arbitrary: k) auto
  then show ?thesis by (simp add: count_alive_def)
qed

text \<open>Readiness is 200 when some worker is alive, else 503, on both endpoints.\<close>

lemma readiness_status:
  assumes "c_sent c = None"
  shows "\<exists>c1 c2 h1 h2. readiness Z stats (Conn c) = Conn c1 \<and> readyz Z stats (Conn c) = Conn c2 \<and>
     c_sent c1 = Some (if \<exists>st \<in> set stats. stat_alive st then 200 else 503, h1) \<and>
     c_sent c2 = Some (if \<exists>st \<in> set stats. stat_alive st then 200 else 503, h2)"
proof -
  have sent: "\<exists>c'. write_json_response Z (Conn c) code enc = Conn c' \<and>
      c_sent c' = Some (code, hset ''Content-Type'' ''application/json; charset=utf-8'' (c_hdrs c))"
    if "200 \<le> code" for code enc
    using assms that
    by (cases enc) (auto simp: write_json_response_def json_encode_def conn_write_def Let_def
      conn_write_header_def split: option.splits)
  have "count_alive stats = 0 \<longleftrightarrow> \<not> (\<exists>st \<in> set stats. stat_alive st)"
    by (auto simp: count_alive_filter filter_empty_conv)
  moreover have "health_write_json Z = write_json_response Z"
    by (intro ext) (simp add: health_write_json_def write_json_response_def)
  ultimately show ?thesis using sent [of 200] sent [of 503]
    unfolding readiness_def readyz_def Let_def by (auto split: if_splits) metis+
qed

text \<open>Without TLS an error of the server (a port in use, say) goes unnoticed.\<close>

lemma plain_listen_error_ignored: "tls_certificate opts = None \<Longrightarrow> serve_fatal opts listened = None"
  by (simp add: serve_fatal_def)

lemma shutdown_order:
  "filter (\<lambda>a. case a of LogLine _ _ \<Rightarrow> False | _ \<Rightarrow> True) (run_shutdown opts close_err shutdown_err) =
     [StopSignal, CloseRenderer, ShutdownServer (shutdown_after opts), CancelContext]"
  by (simp add: run_shutdown_def split: option.splits)

end
