(* ===== verification/Sessions.thy ===== *)
theory Sessions
  imports Middleware
begin

text \<open>
  The middlewares that keep state in session cookies: cookie authentication
  (\<open>middleware/auth/cookie.go\<close>) and flash messages (\<open>middleware/flash\<close>). The session
  library is a codec: what \<open>Get\<close> decodes from the cookie of the request, what \<open>Save\<close>
  encodes, and the text of the cookie it sets. Times are nanoseconds.
\<close>

section \<open>Sessions\<close>

record 'v session_codec =
  st_decode :: "string \<Rightarrow> (string \<rightharpoonup> 'v) go"
  st_encode :: "(string \<rightharpoonup> 'v) \<Rightarrow> string go"
  st_cookie :: "string \<Rightarrow> string \<Rightarrow> string"

text \<open>\<open>store.Get\<close>: a new session if there is no cookie, and with an error if it does not decode.\<close>

definition store_get :: "'v session_codec \<Rightarrow> request \<Rightarrow> string \<Rightarrow> (string \<rightharpoonup> 'v) \<times> goerr option" where
  "store_get st r name =
     (case rq_cookies r name of
        None \<Rightarrow> (\<lambda>_. None, None)
      | Some c \<Rightarrow> (case st_decode st c of Inl e \<Rightarrow> (\<lambda>_. None, Some e) | Inr vs \<Rightarrow> (vs, None)))"

text \<open>\<open>session.Save\<close>.\<close>

definition session_save :: "'v session_codec \<Rightarrow> string \<Rightarrow> (string \<rightharpoonup> 'v) \<Rightarrow> rw \<Rightarrow> rw \<times> goerr option" where
  "session_save st name vs w =
     (case st_encode st vs of
        Inl e \<Rightarrow> (w, Some e)
      | Inr c \<Rightarrow> (upd_hdrs (hadd ''Set-Cookie'' (st_cookie st name c)) w, None))"

section \<open>Cookie authentication\<close>

datatype auth_value = AvBool bool | AvTime int | AvState json

record cookie_options =
  ck_path :: string
  ck_domain :: string
  ck_max_age :: int
  ck_secure :: bool
  ck_http_only :: bool
  ck_strict :: bool

record cookie_config =
  cc_options :: "cookie_options option"
  cc_skip :: "(request \<Rightarrow> bool) option"
  cc_error :: "handler option"

definition unauthorized :: handler where
  "unauthorized r w = (write_header 401 w, HNil)"

definition default_cookie_options :: cookie_options where
  "default_cookie_options = \<lparr>ck_path = ''/'', ck_domain = [], ck_max_age = 86400, ck_secure = False,
     ck_http_only = True, ck_strict = True\<rparr>"

definition normalize_cookie_config :: "cookie_config \<Rightarrow> cookie_config" where
  "normalize_cookie_config c =
     c\<lparr>cc_error := (case cc_error c of None \<Rightarrow> Some unauthorized | Some h \<Rightarrow> Some h),
       cc_options := Some (case cc_options c of
           None \<Rightarrow> default_cookie_options
         | Some oo \<Rightarrow>
             oo\<lparr>ck_http_only := True, ck_strict := True,
                ck_max_age := (if ck_max_age oo \<le> 0 then 86400 else ck_max_age oo),
                ck_path := (if ck_path oo = [] then ''/'' else ck_path oo)\<rparr>)\<rparr>"

record cookie_auth =
  ca_name :: string
  ca_options :: cookie_options
  ca_skip :: "(request \<Rightarrow> bool) option"
  ca_error :: handler
  ca_max_age :: int
  ca_refresh_age :: int

text \<open>Division of durations truncates towards zero.\<close>

definition half_duration :: "int \<Rightarrow> int" where
  "half_duration d = (if d < 0 then - ((- d) div 2) else d div 2)"

definition new_cookie_auth :: "string \<Rightarrow> string list \<Rightarrow> bool \<Rightarrow> cookie_config \<Rightarrow> cookie_auth go" where
  "new_cookie_auth name key_pairs user_type_nil config =
     (if name = [] then Inl (GErr ''auth: sessionName is required'')
      else if length key_pairs < 1 then Inl (GErr ''auth: you must pass at least one keyPair'')
      else if user_type_nil then Inl (GErr ''auth: userType must not be nil'')
      else
        (let c = normalize_cookie_config config; oo = the (cc_options c);
             age = signed_take_bit 63 (ck_max_age oo * 1000000000)
         in Inr \<lparr>ca_name = name, ca_options = oo, ca_skip = cc_skip c, ca_error = the (cc_error c),
                 ca_max_age = age, ca_refresh_age = half_duration age\<rparr>))"

definition unauthenticated :: "cookie_auth \<Rightarrow> middleware" where
  "unauthenticated a next r w =
     (case ca_skip a of
        Some f \<Rightarrow> if f r then next (with_ctx ''cookie_auth_skipped'' (CtxBool True) r) w else ca_error a r w
      | None \<Rightarrow> ca_error a r w)"

definition expire_cookie :: "cookie_auth \<Rightarrow> rw \<Rightarrow> rw" where
  "expire_cookie a w =
     upd_hdrs (hadd ''Set-Cookie''
       (ca_name a @ ''=; Path='' @ ck_path (ca_options a)
        @ (if ck_domain (ca_options a) = [] then [] else ''; Domain='' @ ck_domain (ca_options a))
        @ ''; Expires=Thu, 01 Jan 1970 00:00:01 GMT; Max-Age=0''
        @ (if ck_http_only (ca_options a) then ''; HttpOnly'' else [])
        @ (if ck_secure (ca_options a) then ''; Secure'' else [])
        @ (if ck_strict (ca_options a) then ''; SameSite=Strict'' else []))) w"

definition state_of :: "(string \<rightharpoonup> auth_value) \<Rightarrow> json" where
  "state_of vs = (case vs ''rex_auth_state'' of Some (AvState j) \<Rightarrow> j | _ \<Rightarrow> JNull)"

text \<open>The middleware; \<open>st\<close> is the store (whose cookies carry the options), \<open>now\<close> the time.\<close>

definition cookie_auth_mw :: "auth_value session_codec \<Rightarrow> int \<Rightarrow> cookie_auth \<Rightarrow> middleware" where
  "cookie_auth_mw st now a next r w =
     (case store_get st r (ca_name a) of
        (_, Some e) \<Rightarrow> unauthenticated a next r (expire_cookie a w)
      | (vs, None) \<Rightarrow>
          if vs ''rex_authenticated'' \<noteq> Some (AvBool True) then unauthenticated a next r w
          else (case vs ''last_access'' of
              Some (AvTime seen) \<Rightarrow>
                (let age = now - seen; r' = with_ctx ''rex_auth_state_ctx'' (CtxState (state_of vs)) r in
                 if age > ca_max_age a then unauthenticated a next r w
                 else if age > ca_refresh_age a then
                   (case session_save st (ca_name a) (vs(''last_access'' \<mapsto> AvTime now)) w of
                      (w', Some e) \<Rightarrow> (w', HErr (GWrap ''auth: saving refreshed session'' e))
                    | (w', None) \<Rightarrow> next r' w')
                 else next r' w)
            | _ \<Rightarrow> unauthenticated a next r w))"

definition err_not_initialized :: goerr where
  "err_not_initialized = GErr ''auth: cookie auth is not initialized''"

text \<open>\<open>None\<close> is a nil instance.\<close>

definition set_state ::
  "auth_value session_codec \<Rightarrow> int \<Rightarrow> cookie_auth option \<Rightarrow> json \<Rightarrow> request \<Rightarrow> rw \<Rightarrow> rw \<times> hresult" where
  "set_state st now auth state r w =
     (case auth of
        None \<Rightarrow> (w, HErr err_not_initialized)
      | Some a \<Rightarrow>
          (case store_get st r (ca_name a) of
             (_, Some e) \<Rightarrow> (w, HErr (GWrap ''auth: retrieving session'' e))
           | (vs, None) \<Rightarrow>
               (case session_save st (ca_name a)
                       (vs(''rex_authenticated'' \<mapsto> AvBool True, ''rex_auth_state'' \<mapsto> AvState state,
                           ''last_access'' \<mapsto> AvTime now)) w of
                  (w', Some e) \<Rightarrow> (w', HErr (GWrap ''auth: saving session'' e))
                | (w', None) \<Rightarrow> (w', HNil))))"

text \<open>\<open>Value\<close> and \<open>Skipped\<close>, and \<open>Clear\<close>.\<close>

definition auth_state :: "request \<Rightarrow> json" where
  "auth_state r = (case rq_ctx r ''rex_auth_state_ctx'' of Some (CtxState j) \<Rightarrow> j | _ \<Rightarrow> JNull)"

definition auth_skipped :: "request \<Rightarrow> bool" where
  "auth_skipped r = (case rq_ctx r ''cookie_auth_skipped'' of Some (CtxBool b) \<Rightarrow> b | _ \<Rightarrow> False)"

definition clear_auth :: "cookie_auth option \<Rightarrow> rw \<Rightarrow> rw" where
  "clear_auth auth w = (case auth of None \<Rightarrow> w | Some a \<Rightarrow> expire_cookie a w)"

section \<open>Flash messages\<close>

record flash =
  fl_message :: string
  fl_type :: string

datatype flash_type = MessageSuccess | MessageInfo | MessageWarning | MessageError

definition flash_session :: string where
  "flash_session = ''flash_messages_session''"

text \<open>The session of the request; an undecodable cookie counts as none.\<close>

definition flash_values :: "flash session_codec \<Rightarrow> request \<Rightarrow> (string \<rightharpoonup> flash)" where
  "flash_values st r = fst (store_get st r flash_session)"

definition flash_type_name :: "flash_type list \<Rightarrow> string" where
  "flash_type_name ts =
     (case ts of
        [] \<Rightarrow> ''danger''
      | t # _ \<Rightarrow>
          (case t of MessageInfo \<Rightarrow> ''info'' | MessageSuccess \<Rightarrow> ''success'' | MessageWarning \<Rightarrow> ''warning''
           | MessageError \<Rightarrow> ''danger''))"

text \<open>\<open>setFlashMessage\<close> and \<open>FlashMessage\<close>, on the values the session of the request has by then.\<close>

definition set_flash_message ::
  "flash session_codec \<Rightarrow> (string \<rightharpoonup> flash) \<Rightarrow> string \<Rightarrow> flash \<Rightarrow> rw \<Rightarrow> rw \<times> goerr option" where
  "set_flash_message st vs key fm w =
     (case session_save st flash_session (vs(key \<mapsto> fm)) w of
        (w', Some e) \<Rightarrow> (w', Some (GWrap ''flash: saving session'' e))
      | (w', None) \<Rightarrow> (w', None))"

definition flash_message ::
  "flash session_codec \<Rightarrow> (string \<rightharpoonup> flash) \<Rightarrow> string \<Rightarrow> flash_type list \<Rightarrow> rw \<Rightarrow> rw \<times> hresult" where
  "flash_message st vs message ts w =
     (case set_flash_message st vs ''flash_message'' \<lparr>fl_message = message, fl_type = flash_type_name ts\<rparr> w of
        (w', Some e) \<Rightarrow> (w', HErr (GWrap ''flash: setting flash message'' e))
      | (w', None) \<Rightarrow> (w', HNil))"

text \<open>\<open>clearCookie\<close>: the expired cookie, then the session saved empty.\<close>

definition clear_cookie :: "flash session_codec \<Rightarrow> request \<Rightarrow> rw \<Rightarrow> rw \<times> goerr option" where
  "clear_cookie st r w =
     (case rq_cookies r flash_session of
        None \<Rightarrow> (w, None)
      | Some v \<Rightarrow>
          (case session_save st flash_session (\<lambda>_. None)
                  (upd_hdrs (hadd ''Set-Cookie'' (flash_session @ ''='' @ v @ ''; Max-Age=0'')) w) of
             (w', Some e) \<Rightarrow> (w', Some (GWrap ''flash: saving cleared session'' e))
           | (w', None) \<Rightarrow> (w', None)))"

definition get_flash_message :: "flash session_codec \<Rightarrow> request \<Rightarrow> string \<Rightarrow> rw \<Rightarrow> flash go \<times> rw" where
  "get_flash_message st r key w =
     (case flash_values st r key of
        Some fm \<Rightarrow> (Inr fm, fst (clear_cookie st r w))
      | None \<Rightarrow> (Inl (GErr (''flash: no flash message found for key '' @ key)), w))"

definition flash_mw :: "flash session_codec \<Rightarrow> middleware" where
  "flash_mw st next r w =
     (let accept = hget (rq_hdrs r) ''Accept'' in
      if has_prefix accept ''text/html'' \<or> has_prefix accept ''*/*'' then
        (case get_flash_message st r ''flash_message'' w of
           (Inr fm, w1) \<Rightarrow>
             (if fl_message fm \<noteq> []
              then next (with_ctx ''flash'' (CtxFlash (fl_message fm) (fl_type fm)) r) w1
              else next r w1)
         | (Inl e, w1) \<Rightarrow> next r w1)
      else next r w)"

definition flash_of :: "request \<Rightarrow> flash" where
  "flash_of r =
     (case rq_ctx r ''flash'' of
        Some (CtxFlash m t) \<Rightarrow> \<lparr>fl_message = m, fl_type = t\<rparr>
      | _ \<Rightarrow> \<lparr>fl_message = [], fl_type = []\<rparr>)"

end
