(* ===== verification/Sessions_Claims.thy ===== *)
theory Sessions_Claims
  imports Sessions Compress_Claims
begin

text \<open>
  What the session middlewares promise: a handler behind cookie authentication runs with the
  state of a session that is authenticated and not idle for longer than the maximum age; a
  login reaches the next requests; a flash message is shown once.
\<close>

section \<open>Cookie authentication\<close>

text \<open>The session of a request that is logged in: its values and last access.\<close>

definition logged_in :: "auth_value session_codec \<Rightarrow> cookie_auth \<Rightarrow> request \<Rightarrow> (string \<rightharpoonup> auth_value) \<Rightarrow> int \<Rightarrow> bool" where
  "logged_in st a r vs seen \<longleftrightarrow>
     (\<exists>c. rq_cookies r (ca_name a) = Some c \<and> st_decode st c = Inr vs) \<and>
     vs ''rex_authenticated'' = Some (AvBool True) \<and> vs ''last_access'' = Some (AvTime seen)"

definition no_skip :: "cookie_auth \<Rightarrow> request \<Rightarrow> bool" where
  "no_skip a r \<longleftrightarrow> (case ca_skip a of Some f \<Rightarrow> \<not> f r | None \<Rightarrow> True)"

lemma unauthenticated_no_skip: "no_skip a r \<Longrightarrow> unauthenticated a next r w = ca_error a r w"
  by (auto simp: unauthenticated_def no_skip_def split: option.splits)

lemma logged_in_get: "logged_in st a r vs seen \<Longrightarrow> store_get st r (ca_name a) = (vs, None)"
  by (auto simp: logged_in_def store_get_def)

lemma not_logged_in:
  assumes "\<nexists>vs seen. logged_in st a r vs seen" "no_skip a r"
  shows "\<exists>w'. w' \<in> {w, expire_cookie a w} \<and> cookie_auth_mw st now a next r w = ca_error a r w'"
proof -
  obtain vs e where g: "store_get st r (ca_name a) = (vs, e)" by fastforce
  show ?thesis
  proof (cases e)
    case (Some e')
    with g assms(2) show ?thesis by (auto simp: cookie_auth_mw_def unauthenticated_no_skip)
  next
    case None
    have "vs ''rex_authenticated'' \<noteq> Some (AvBool True) \<or> (\<forall>seen. vs ''last_access'' \<noteq> Some (AvTime seen))"
    proof (rule ccontr)
      assume "\<not> ?thesis"
      then obtain seen where "vs ''rex_authenticated'' = Some (AvBool True)" "vs ''last_access'' = Some (AvTime seen)"
        by blast
      with g None have "logged_in st a r vs seen"
        by (auto simp: logged_in_def store_get_def split: option.splits sum.splits)
      with assms(1) show False by blast
    qed
    with g None assms(2) show ?thesis
      by (auto simp: cookie_auth_mw_def unauthenticated_no_skip split: option.splits auth_value.splits)
  qed
qed

text \<open>
  C35: cookie authentication. Unless it is skipped, a request reaches the handler only with a
  session that is authenticated and was last used within the maximum age; the handler then reads
  its state. Past half of that age the session is saved anew with the present as its last use (an
  error of that is returned), before that the response gets no cookie. Every other request is
  given to the error handler, with the cookie expired if it did not decode.
\<close>

theorem cookie_auth_guard:
  assumes "no_skip a r"
  shows "(\<exists>vs seen r'. logged_in st a r vs seen \<and> now - seen \<le> ca_max_age a \<and>
        auth_state r' = state_of vs \<and> auth_skipped r' = auth_skipped r \<and>
        cookie_auth_mw st now a next r w =
          (if now - seen \<le> ca_refresh_age a then next r' w
           else case session_save st (ca_name a) (vs(''last_access'' \<mapsto> AvTime now)) w of
               (w', Some e) \<Rightarrow> (w', HErr (GWrap ''auth: saving refreshed session'' e))
             | (w', None) \<Rightarrow> next r' w')) \<or>
     (\<forall>vs seen. logged_in st a r vs seen \<longrightarrow> ca_max_age a < now - seen) \<and>
        (\<exists>w'. w' \<in> {w, expire_cookie a w} \<and> cookie_auth_mw st now a next r w = ca_error a r w')"
proof (cases "\<exists>vs seen. logged_in st a r vs seen")
  case True
  then obtain vs seen where l: "logged_in st a r vs seen" by blast
  note g = logged_in_get [OF l]
  have v: "vs ''rex_authenticated'' = Some (AvBool True)" "vs ''last_access'' = Some (AvTime seen)"
    using l by (simp_all add: logged_in_def)
  show ?thesis
  proof (cases "now - seen \<le> ca_max_age a")
    case True
    let ?r = "with_ctx ''rex_auth_state_ctx'' (CtxState (state_of vs)) r"
    have "auth_state ?r = state_of vs" "auth_skipped ?r = auth_skipped r"
      by (simp_all add: auth_state_def auth_skipped_def with_ctx_def)
    moreover have "cookie_auth_mw st now a next r w =
        (if now - seen \<le> ca_refresh_age a then next ?r w
         else case session_save st (ca_name a) (vs(''last_access'' \<mapsto> AvTime now)) w of
             (w', Some e) \<Rightarrow> (w', HErr (GWrap ''auth: saving refreshed session'' e))
           | (w', None) \<Rightarrow> next ?r w')"
      using True g v by (simp add: cookie_auth_mw_def Let_def)
    ultimately show ?thesis using True l by blast
  next
    case False
    have "vs' = vs \<and> seen' = seen" if "logged_in st a r vs' seen'" for vs' seen'
      using that l by (auto simp: logged_in_def)
    moreover have "cookie_auth_mw st now a next r w = ca_error a r w"
      using False g v assms by (simp add: cookie_auth_mw_def Let_def unauthenticated_no_skip)
    ultimately show ?thesis using False by auto
  qed
next
  case False
  with not_logged_in [OF _ assms] show ?thesis by blast
qed

text \<open>A codec for the witnesses: the cookie names the session.\<close>

definition demo_sessions :: "auth_value session_codec" where
  "demo_sessions = \<lparr>st_decode = (\<lambda>c. if c = ''ann'' then Inr [''rex_authenticated'' \<mapsto> AvBool True,
       ''rex_auth_state'' \<mapsto> AvState (JStr ''ann''), ''last_access'' \<mapsto> AvTime 100] else Inl (GErr ''bad cookie'')),
     st_encode = (\<lambda>_. Inr ''ann''), st_cookie = (\<lambda>name c. name @ ''='' @ c)\<rparr>"

definition demo_auth :: cookie_auth where
  "demo_auth = \<lparr>ca_name = ''sid'', ca_options = default_cookie_options, ca_skip = None, ca_error = unauthorized,
     ca_max_age = 60, ca_refresh_age = 30\<rparr>"

theorem cookie_auth_guard_witness:
  "\<exists>w'. cookie_auth_mw demo_sessions 200 demo_auth (\<lambda>r w. (w, HErr (GErr ''in'')))
     (demo_request\<lparr>rq_cookies := [''sid'' \<mapsto> ''ann'']\<rparr>) (Conn demo_conn) = (write_header 401 w', HNil)"
proof -
  let ?r = "demo_request\<lparr>rq_cookies := [''sid'' \<mapsto> ''ann'']\<rparr>"
  have s: "no_skip demo_auth ?r" by (simp add: no_skip_def demo_auth_def)
  have "\<not> 200 - seen \<le> ca_max_age demo_auth" if "logged_in demo_sessions demo_auth ?r vs seen" for vs seen
    using that by (auto simp: logged_in_def demo_sessions_def demo_auth_def)
  with cookie_auth_guard [OF s, of demo_sessions 200 "\<lambda>r w. (w, HErr (GErr ''in''))" "Conn demo_conn"]
  obtain w' where "cookie_auth_mw demo_sessions 200 demo_auth (\<lambda>r w. (w, HErr (GErr ''in''))) ?r (Conn demo_conn) =
      ca_error demo_auth ?r w'" by blast
  then show ?thesis by (auto simp: demo_auth_def unauthorized_def)
qed

text \<open>
  A login reaches the next requests: the cookie SetState sets, decoded by the codec that
  encoded it, is accepted until the maximum age and gives the state.
\<close>

lemma login_round_trip:
  assumes "set_state st t0 (Some a) state r w = (w1, HNil)" "store_get st r (ca_name a) = (vs, None)"
    "\<And>vs c. st_encode st vs = Inr c \<Longrightarrow> st_decode st c = Inr vs"
    "0 \<le> t1 - t0" "t1 - t0 \<le> ca_refresh_age a" "ca_refresh_age a \<le> ca_max_age a"
  shows "\<exists>c r2. w1 = upd_hdrs (hadd ''Set-Cookie'' (st_cookie st (ca_name a) c)) w \<and>
     auth_state r2 = state \<and>
     (rq_cookies r1 (ca_name a) = Some c \<longrightarrow> cookie_auth_mw st t1 a next r1 w2 = next r2 w2)"
proof -
  let ?vs = "vs(''rex_authenticated'' \<mapsto> AvBool True, ''rex_auth_state'' \<mapsto> AvState state, ''last_access'' \<mapsto> AvTime t0)"
  from assms(1,2) obtain c where c: "st_encode st ?vs = Inr c"
    "w1 = upd_hdrs (hadd ''Set-Cookie'' (st_cookie st (ca_name a) c)) w"
    by (auto simp: set_state_def session_save_def split: sum.splits)
  let ?r = "with_ctx ''rex_auth_state_ctx'' (CtxState (state_of ?vs)) r1"
  have "auth_state ?r = state" by (simp add: auth_state_def with_ctx_def state_of_def)
  moreover have "cookie_auth_mw st t1 a next r1 w2 = next ?r w2" if "rq_cookies r1 (ca_name a) = Some c"
    using that assms(3) [OF c(1)] assms(4-6)
    by (simp add: cookie_auth_mw_def store_get_def Let_def state_of_def)
  ultimately show ?thesis using c(2) by blast
qed

section \<open>Flash messages\<close>

text \<open>
  C36: a flash message is shown once. The cookie FlashMessage sets, presented by the next page
  request, gives the handler the message, and the response to that request carries a cookie
  under which the handler of any later page request reads none.
\<close>

theorem flash_shown_once:
  assumes "\<And>vs c. st_encode st vs = Inr c \<Longrightarrow> st_decode st c = Inr vs"
    "st_encode st [''flash_message'' \<mapsto> \<lparr>fl_message = m, fl_type = flash_type_name ts\<rparr>] = Inr c1"
    "st_encode st (\<lambda>_. None) = Inr c2" "m \<noteq> []"
    "has_prefix (hget (rq_hdrs r) ''Accept'') ''text/html''" "rq_ctx r ''flash'' = None"
  shows "flash_message st (\<lambda>_. None) m ts w =
      (upd_hdrs (hadd ''Set-Cookie'' (st_cookie st flash_session c1)) w, HNil) \<and>
    (rq_cookies r flash_session = Some c1 \<longrightarrow>
      (\<exists>r' f. flash_of r' = \<lparr>fl_message = m, fl_type = flash_type_name ts\<rparr> \<and>
        flash_mw st next r w = next r' (upd_hdrs (hadd ''Set-Cookie'' (st_cookie st flash_session c2) \<circ> f) w))) \<and>
    (rq_cookies r flash_session = Some c2 \<longrightarrow>
      flash_mw st next r w = next r w \<and> flash_of r = \<lparr>fl_message = [], fl_type = []\<rparr>)"
proof (intro conjI impI)
  show "flash_message st (\<lambda>_. None) m ts w =
      (upd_hdrs (hadd ''Set-Cookie'' (st_cookie st flash_session c1)) w, HNil)"
    using assms(2) by (simp add: flash_message_def set_flash_message_def session_save_def)
next
  assume c: "rq_cookies r flash_session = Some c1"
  let ?fm = "\<lparr>fl_message = m, fl_type = flash_type_name ts\<rparr>"
  let ?r = "with_ctx ''flash'' (CtxFlash m (flash_type_name ts)) r"
  let ?f = "hadd ''Set-Cookie'' (flash_session @ ''='' @ c1 @ ''; Max-Age=0'')"
  have "flash_values st r = [''flash_message'' \<mapsto> ?fm]"
    using c assms(1) [OF assms(2)] by (simp add: flash_values_def store_get_def)
  moreover have "clear_cookie st r w =
      (upd_hdrs (hadd ''Set-Cookie'' (st_cookie st flash_session c2)) (upd_hdrs ?f w), None)"
    using c assms(3) by (simp add: clear_cookie_def session_save_def)
  moreover have "upd_hdrs g (upd_hdrs f w) = upd_hdrs (g \<circ> f) w" for f g by (induction w) auto
  ultimately have "flash_mw st next r w = next ?r (upd_hdrs (hadd ''Set-Cookie'' (st_cookie st flash_session c2) \<circ> ?f) w)"
    using assms(4,5) by (simp add: flash_mw_def Let_def get_flash_message_def)
  moreover have "flash_of ?r = ?fm" by (simp add: flash_of_def with_ctx_def)
  ultimately show "\<exists>r' f. flash_of r' = ?fm \<and>
      flash_mw st next r w = next r' (upd_hdrs (hadd ''Set-Cookie'' (st_cookie st flash_session c2) \<circ> f) w)" by blast
next
  assume c: "rq_cookies r flash_session = Some c2"
  then have "flash_values st r = (\<lambda>_. None)" using assms(1) [OF assms(3)] by (simp add: flash_values_def store_get_def)
  with assms(5) show "flash_mw st next r w = next r w"
    by (simp add: flash_mw_def Let_def get_flash_message_def)
  show "flash_of r = \<lparr>fl_message = [], fl_type = []\<rparr>" using assms(6) by (simp add: flash_of_def)
qed

definition demo_flash :: flash where
  "demo_flash = \<lparr>fl_message = ''Saved'', fl_type = ''success''\<rparr>"

definition demo_flash_store :: "flash session_codec" where
  "demo_flash_store = \<lparr>
     st_decode = (\<lambda>c. if c = ''none'' then Inr (\<lambda>_. None)
       else if c = ''saved'' then Inr [''flash_message'' \<mapsto> demo_flash] else Inl (GErr ''bad cookie'')),
     st_encode = (\<lambda>vs. if vs = (\<lambda>_. None) then Inr ''none''
       else if vs = [''flash_message'' \<mapsto> demo_flash] then Inr ''saved'' else Inl (GErr ''too long'')),
     st_cookie = (\<lambda>name c. name @ ''='' @ c)\<rparr>"

theorem flash_shown_once_witness:
  "\<exists>r' f. flash_of r' = demo_flash \<and>
     flash_mw demo_flash_store (\<lambda>r w. (w, HNil))
       (demo_request\<lparr>rq_hdrs := hset ''Accept'' ''text/html'' (\<lambda>_. []), rq_cookies := [flash_session \<mapsto> ''saved'']\<rparr>)
       (Conn demo_conn) =
     (upd_hdrs (hadd ''Set-Cookie'' (flash_session @ ''=none'') \<circ> f) (Conn demo_conn), HNil)"
proof -
  let ?r = "demo_request\<lparr>rq_hdrs := hset ''Accept'' ''text/html'' (\<lambda>_. []), rq_cookies := [flash_session \<mapsto> ''saved'']\<rparr>"
  have law: "st_decode demo_flash_store c = Inr vs" if "st_encode demo_flash_store vs = Inr c" for vs c
    using that by (auto simp: demo_flash_store_def split: if_splits)
  have enc: "st_encode demo_flash_store [''flash_message'' \<mapsto> \<lparr>fl_message = ''Saved'', fl_type = flash_type_name [MessageSuccess]\<rparr>] = Inr ''saved''"
    "st_encode demo_flash_store (\<lambda>_. None) = Inr ''none''"
    by (auto simp: demo_flash_store_def demo_flash_def flash_type_name_def fun_eq_iff)
  have req: "has_prefix (hget (rq_hdrs ?r) ''Accept'') ''text/html''" "rq_ctx ?r ''flash'' = None"
    by (simp_all add: has_prefix_def demo_request_def)
  from flash_shown_once [OF law enc _ req, of "Conn demo_conn" "\<lambda>r w. (w, HNil)"]
  show ?thesis by (simp add: demo_flash_def flash_type_name_def) (simp add: demo_flash_store_def)
qed

end
