(* ===== verification/Cli.thy ===== *)
theory Cli
  imports Http_Helpers
begin

text \<open>
  The command line tool (\<open>cmd/revelt/main.go\<close>, \<open>template.go\<close>): validation of the
  configuration, the subcommands generate, build, clean and update, and the substitution of
  placeholders in the embedded templates. What the file system and the started commands answer is
  an argument; messages printed on the way are not modelled.
\<close>

section \<open>Validation\<close>

definition squoted :: "string \<Rightarrow> string" where
  "squoted s = [CHR 0x27] @ s @ [CHR 0x27]"

definition validate_config :: "(rune \<Rightarrow> bool) \<Rightarrow> project_config \<Rightarrow> goerr option" where
  "validate_config ip c =
     (let fw = to_lower (framework c) in
      if fw \<noteq> ''react'' \<and> fw \<noteq> ''svelte''
      then Some (GErr (''unsupported framework '' @ go_quote ip (framework c) @ '' (must be '' @ squoted ''react''
              @ '' or '' @ squoted ''svelte'' @ '')''))
      else if source_dir c = [] then Some (GErr ''source_dir cannot be empty'')
      else if component_dir c = [] then Some (GErr ''component_dir cannot be empty'')
      else if port c \<le> 0 \<or> port c > 65535
      then Some (GErr (''port '' @ show_int (port c) @ '' is out of range (1-65535)''))
      else None)"

text \<open>How a subcommand ends: normally, with a message and exit status 1, or with a panic.\<close>

datatype cli_exit = CliOk | CliFail string | CliPanic string

text \<open>Loading and validating, which every subcommand but init begins with.\<close>

definition load_valid :: "(rune \<Rightarrow> bool) \<Rightarrow> project_config go \<Rightarrow> cli_exit + project_config" where
  "load_valid ip loaded =
     (case loaded of
        Inl e \<Rightarrow> Inl (CliFail (err_msg (GWrap ''Error: failed to load configuration'' e)))
      | Inr c \<Rightarrow>
          (case validate_config ip c of
             Some e \<Rightarrow> Inl (CliFail (err_msg (GWrap ''Error: invalid configuration'' e)))
           | None \<Rightarrow> Inr c))"

section \<open>Generating a component\<close>

text \<open>\<open>filepath.Dir\<close>.\<close>

definition path_dir :: "string \<Rightarrow> string" where
  "path_dir p = path_clean (rev (dropWhile (\<lambda>c. c \<noteq> slash) (rev p)))"

definition text_lines :: "string list \<Rightarrow> string" where
  "text_lines ls = concat (map (\<lambda>l. l @ [newline]) ls)"

definition react_component :: "string \<Rightarrow> string \<Rightarrow> string" where
  "react_component mode cname = text_lines
     [''// @mode '' @ mode,
      [],
      ''interface '' @ cname @ ''Props {'',
      ''  title?: string;'',
      ''}'',
      [],
      ''export default function '' @ cname @ ''({ title = '' @ quoted (cname @ '' component'') @ '' }: '' @ cname @ ''Props) {'',
      ''  return ('',
      ''    <div style={{ border: '' @ quoted ''1px solid #e2e8f0'' @ '', borderRadius: '' @ quoted ''8px''
        @ '', padding: '' @ quoted ''1rem'' @ '', margin: '' @ quoted ''0.5rem 0'' @ '' }}>'',
      ''      <h3>{title}</h3>'',
      ''      <p>Rendered in '' @ mode @ '' mode.</p>'',
      ''    </div>'',
      ''  );'',
      ''}'']"

definition svelte_component :: "string \<Rightarrow> string \<Rightarrow> string" where
  "svelte_component mode cname = text_lines
     [''<!-- @mode '' @ mode @ '' -->'',
      ''<script lang='' @ quoted ''ts'' @ ''>'',
      ''  interface Props {'',
      ''    title?: string;'',
      ''  }'',
      ''  let { title = '' @ quoted (cname @ '' component'') @ '' }: Props = $props();'',
      ''</script>'',
      [],
      ''<div class='' @ quoted ''component-box'' @ ''>'',
      ''  <h3>{title}</h3>'',
      ''  <p>Rendered in '' @ mode @ '' mode.</p>'',
      ''</div>'',
      [],
      ''<style>'',
      ''  .component-box {'',
      ''    border: 1px solid #e2e8f0;'',
      ''    border-radius: 8px;'',
      ''    padding: 1rem;'',
      ''    margin: 0.5rem 0;'',
      ''  }'',
      ''</style>'']"

text \<open>
  \<open>strings.ToUpper(compName[:1]) + compName[1:]\<close>: one byte; a byte that is not ASCII is no
  rune by itself and becomes the replacement character.
\<close>

definition capitalize :: "string \<Rightarrow> string" where
  "capitalize s =
     (case s of
        [] \<Rightarrow> []
      | c # cs \<Rightarrow>
          (let b = (of_char c :: nat) in
           (if 97 \<le> b \<and> b \<le> 122 then [char_of (b - 32)]
            else if b < 128 then [c] else bytes [0xEF, 0xBF, 0xBD]) @ cs))"

record gen_env =
  ge_exists :: "string \<Rightarrow> bool"
  ge_mkdir :: "string \<Rightarrow> goerr option"
  ge_write :: "string \<Rightarrow> goerr option"

definition has_space :: "string \<Rightarrow> bool" where
  "has_space s \<longleftrightarrow> list_ex (\<lambda>c. c = CHR '' '' \<or> c = CHR 0x09 \<or> c = CHR 0x0D \<or> c = CHR 0x0A) s"

text \<open>
  \<open>runGenerateCmd\<close> on the arguments of the process; \<open>flags\<close> is the value of \<open>--mode\<close> in the
  arguments after the name. The result has the file written, if any.
\<close>

definition run_generate ::
  "(rune \<Rightarrow> bool) \<Rightarrow> gen_env \<Rightarrow> (string list \<Rightarrow> string go) \<Rightarrow> project_config go \<Rightarrow> string list \<Rightarrow>
   cli_exit \<times> (string \<times> string) option" where
  "run_generate ip env flags loaded args =
     (if length args < 4 then (CliFail (''Usage: revelt generate component <ComponentName> [--mode=<mode>]'' @ [newline]
              @ ''Shorthand: revelt g component <ComponentName> [--mode=<mode>]''), None)
      else if args ! 2 \<noteq> ''component''
      then (CliFail (''Error: unknown generator type '' @ go_quote ip (args ! 2)
              @ ''. Currently only '' @ squoted ''component'' @ '' is supported.''), None)
      else if args ! 3 = [] then (CliFail ''Error: component name cannot be empty'', None)
      else if has_space (args ! 3) then (CliFail ''Error: component name cannot contain spaces'', None)
      else case flags (drop 4 args) of
          Inl e \<Rightarrow> (CliFail (err_msg (GWrap ''Error parsing flags'' e)), None)
        | Inr opt \<Rightarrow>
            (case load_valid ip loaded of
               Inl x \<Rightarrow> (x, None)
             | Inr c \<Rightarrow>
                 (let mode = to_lower opt in
                  if mode \<noteq> ''ssr'' \<and> mode \<noteq> ''hydrate'' \<and> mode \<noteq> ''client'' \<and> mode \<noteq> ''lazy-client''
                  then (CliFail (''Error: invalid mode '' @ go_quote ip mode
                          @ ''. Must be one of: ssr, hydrate, client, lazy-client''), None)
                  else
                    (let svelte = (to_lower (framework c) = ''svelte'');
                         ext = (if svelte then ''.svelte'' else ''.tsx'');
                         cname = capitalize (args ! 3);
                         target = path_join [source_dir c, component_dir c, cname @ ext]
                     in if ge_exists env target then (CliFail (''Error: component '' @ cname @ '' already exists at '' @ target), None)
                        else case ge_mkdir env (path_dir target) of
                            Some e \<Rightarrow> (CliFail (err_msg (GWrap ''Error creating component directory'' e)), None)
                          | None \<Rightarrow>
                              (case ge_write env target of
                                 Some e \<Rightarrow> (CliFail (err_msg (GWrap ''Error writing component'' e)), None)
                               | None \<Rightarrow>
                                   (CliOk, Some (target, if svelte then svelte_component mode cname
                                                         else react_component mode cname)))))))"

section \<open>Templates\<close>

text \<open>\<open>strings.ReplaceAll\<close>, for a non-empty \<open>old\<close>.\<close>

function replace_all :: "string \<Rightarrow> string \<Rightarrow> string \<Rightarrow> string" where
  "replace_all s old new =
     (if old = [] then s
      else case cut s old of
          None \<Rightarrow> s
        | Some (before, after) \<Rightarrow> before @ new @ replace_all after old new)"
  by pat_completeness auto
termination
  by (relation "measure (\<lambda>(s, old, new). length s)") (auto dest: cut_Some)

declare replace_all.simps [simp del]

text \<open>
  The loops over Go maps run in an arbitrary order, the order of the lists here.
\<close>

definition fill_template :: "(string \<times> string) list \<Rightarrow> string \<Rightarrow> string" where
  "fill_template vars s = foldl (\<lambda>s (k, v). replace_all s (''{{'' @ k @ ''}}'') v) s vars"

fun render_templates ::
  "(string \<Rightarrow> string go) \<Rightarrow> (string \<times> string) list \<Rightarrow> (string \<times> string) list \<Rightarrow> (string \<times> string) list go" where
  "render_templates files [] vars = Inr []"
| "render_templates files ((tpl, out) # rest) vars =
     (case files tpl of
        Inl e \<Rightarrow> Inl (GWrap (''failed to read template '' @ tpl) e)
      | Inr content \<Rightarrow>
          (case render_templates files rest vars of
             Inl e \<Rightarrow> Inl e
           | Inr fs \<Rightarrow> Inr ((fill_template vars out, fill_template vars content) # fs)))"

section \<open>Building\<close>

text \<open>\<open>strings.Fields\<close>; \<open>acc\<close> is the field being read.\<close>

function fields_go :: "string \<Rightarrow> string \<Rightarrow> string list" where
  "fields_go acc [] = (if acc = [] then [] else [acc])"
| "fields_go acc (c # s) =
     (case find (\<lambda>sp. sp \<noteq> [] \<and> prefix sp (c # s)) go_spaces of
        Some sp \<Rightarrow> (if acc = [] then [] else [acc]) @ fields_go [] (drop (length sp) (c # s))
      | None \<Rightarrow> fields_go (acc @ [c]) s)"
  by pat_completeness auto
termination
  by (relation "measure (\<lambda>(acc, s). length s)") (auto simp: find_Some_iff)

definition fields_of :: "string \<Rightarrow> string list" where
  "fields_of s = fields_go [] s"

text \<open>\<open>go_sum\<close> is \<open>os.Stat\<close> of \<open>go.sum\<close>, \<open>go_mod\<close> the content of \<open>go.mod\<close>.\<close>

definition needs_tidy :: "goerr option \<Rightarrow> string go \<Rightarrow> bool" where
  "needs_tidy go_sum go_mod =
     (case go_sum of
        Some e \<Rightarrow>
          if err_is e err_not_exist then True
          else (case go_mod of Inl _ \<Rightarrow> False | Inr d \<Rightarrow> \<not> contains d ''github.com/abiiranathan/revelt'')
      | None \<Rightarrow> (case go_mod of Inl _ \<Rightarrow> False | Inr d \<Rightarrow> \<not> contains d ''github.com/abiiranathan/revelt''))"

text \<open>
  \<open>runBuildCmd\<close>: \<open>run\<close> is what running a command in a directory returns. The result has
  the commands that were run, with their directories.
\<close>

definition run_build_cmd ::
  "(rune \<Rightarrow> bool) \<Rightarrow> project_config go \<Rightarrow> bool \<Rightarrow> (string list \<Rightarrow> string \<Rightarrow> goerr option) \<Rightarrow>
   cli_exit \<times> (string list \<times> string) list" where
  "run_build_cmd ip loaded tidy run =
     (case load_valid ip loaded of
        Inl x \<Rightarrow> (x, [])
      | Inr c \<Rightarrow>
          (let tidy_cmd = ([''go'', ''mod'', ''tidy''], []); fe = ([''node'', ''build.mjs''], source_dir c);
               ran = (if tidy then [tidy_cmd] else []) in
           case (if tidy then run (fst tidy_cmd) (snd tidy_cmd) else None) of
             Some e \<Rightarrow> (CliFail (err_msg (GWrap (''Error: '' @ squoted ''go mod tidy'' @ '' execution failed'') e)), ran)
           | None \<Rightarrow>
               (case run (fst fe) (snd fe) of
                  Some e \<Rightarrow> (CliFail (err_msg (GWrap ''Error: frontend build failed'' e)), ran @ [fe])
                | None \<Rightarrow>
                    if go_build_cmd c = [] then (CliOk, ran @ [fe])
                    else if fields_of (go_build_cmd c) = []
                    then (CliPanic ''runtime error: index out of range [0] with length 0'', ran @ [fe])
                    else (case run (fields_of (go_build_cmd c)) [] of
                        Some e \<Rightarrow> (CliFail (err_msg (GWrap ''Error: backend build failed'' e)),
                                   ran @ [fe, (fields_of (go_build_cmd c), [])])
                      | None \<Rightarrow> (CliOk, ran @ [fe, (fields_of (go_build_cmd c), [])])))))"

section \<open>Cleaning\<close>

definition clean_out :: "project_config \<Rightarrow> string list" where
  "clean_out c =
     (if out_dir c \<noteq> [] then
        (let out = path_clean (out_dir c) in
         if out \<noteq> ''.'' \<and> out \<noteq> ''/'' \<and> out \<noteq> ''..'' then [out] else [])
      else [])"

text \<open>The files \<open>runCleanCmd\<close> removes, then the directories it removes with all they hold.\<close>

definition run_clean :: "(rune \<Rightarrow> bool) \<Rightarrow> project_config go \<Rightarrow> cli_exit \<times> string list \<times> string list" where
  "run_clean ip loaded =
     (case load_valid ip loaded of
        Inl x \<Rightarrow> (x, [], [])
      | Inr c \<Rightarrow>
          (CliOk, [''revelt_bin'', ''revelt_bin.exe''],
           clean_out c @ [path_join [source_dir c, ''node_modules'', ''.vite'']]))"

section \<open>Updating\<close>

definition css_parent_dir :: "project_config \<Rightarrow> string" where
  "css_parent_dir c = path_dir (path_clean (component_dir c))"

definition css_import :: "string \<Rightarrow> string" where
  "css_import dir =
     (if dir = ''.'' then ''import '' @ squoted ''./app.css'' @ '';'' @ [newline]
      else ''import '' @ squoted (''./'' @ dir @ ''/app.css'') @ '';'' @ [newline])"

definition app_css_path :: "project_config \<Rightarrow> string" where
  "app_css_path c =
     (if css_parent_dir c = ''.'' then path_join [source_dir c, ''app.css'']
      else path_join [source_dir c, css_parent_dir c, ''app.css''])"

definition update_vars :: "(string \<Rightarrow> bool) \<Rightarrow> project_config \<Rightarrow> (string \<times> string) list" where
  "update_vars exists_file c =
     [(''SOURCE_DIR'', source_dir c), (''COMPONENT_DIR'', component_dir c), (''TAILWIND'', ''false''),
      (''TAILWIND_DEPS'', []),
      (''TAILWIND_CSS_IMPORT'', if exists_file (app_css_path c) then css_import (css_parent_dir c) else []),
      (''COMP_PARENT_PATH'', if css_parent_dir c = ''.'' then [] else css_parent_dir c @ ''/'')]"

definition update_targets :: "project_config \<Rightarrow> (string \<times> string) list" where
  "update_targets c =
     (if to_lower (framework c) = ''react''
      then map (\<lambda>(t, f). (''templates/react/'' @ t, path_join [source_dir c, f]))
             [(''build.mjs.tpl'', ''build.mjs''), (''render-server.js.tpl'', ''render-server.js''),
              (''client.tsx.tpl'', ''client.tsx''), (''revelt.types.d.ts.tpl'', ''revelt.types.d.ts'')]
      else map (\<lambda>(t, f). (''templates/svelte/'' @ t, path_join [source_dir c, f]))
             [(''build.mjs.tpl'', ''build.mjs''), (''render-server.js.tpl'', ''render-server.js''),
              (''client.ts.tpl'', ''client.ts''), (''revelt.types.d.ts.tpl'', ''revelt.types.d.ts'')])"

text \<open>The loop over the targets: what is written until it ends.\<close>

fun update_files ::
  "(string \<Rightarrow> string go) \<Rightarrow> (string \<Rightarrow> goerr option) \<Rightarrow> bool \<Rightarrow> (string \<times> string) list \<Rightarrow> (string \<times> string) list \<Rightarrow>
   cli_exit \<times> (string \<times> string) list" where
  "update_files files wr dry vars [] = (CliOk, [])"
| "update_files files wr dry vars (t # ts) =
     (case render_templates files [t] vars of
        Inl e \<Rightarrow> (CliFail (err_msg (GWrap (''Error rendering template '' @ fst t) e)), [])
      | Inr fs \<Rightarrow>
          (let (path, content) = hd fs in
           if dry then update_files files wr dry vars ts
           else case wr path of
               Some e \<Rightarrow> (CliFail (err_msg (GWrap (''Error writing '' @ path) e)), [])
             | None \<Rightarrow> apsnd (Cons (path, content)) (update_files files wr dry vars ts)))"

definition run_update ::
  "(rune \<Rightarrow> bool) \<Rightarrow> (string \<Rightarrow> string go) \<Rightarrow> (string \<Rightarrow> bool) \<Rightarrow> (string \<Rightarrow> goerr option) \<Rightarrow> bool \<Rightarrow>
   project_config go \<Rightarrow> cli_exit \<times> (string \<times> string) list" where
  "run_update ip files exists_file wr dry loaded =
     (case load_valid ip loaded of
        Inl x \<Rightarrow> (x, [])
      | Inr c \<Rightarrow> update_files files wr dry (update_vars exists_file c) (update_targets c))"

end
