(* ===== verification/Cli_Claims.thy ===== *)
theory Cli_Claims
  imports Cli Config_Claims
begin

text \<open>
  What the command line tool promises: a generated component is read back by the configuration
  loader in the mode it was asked for, and never replaces a file. Then the edges of clean and
  build.
\<close>

section \<open>Generating\<close>

lemma scan_first_line:
  assumes "newline \<notin> set line" "length line < max_token" "extract_mode line = Some m" "last line \<noteq> CHR 0x0D"
  shows "scan_mode 5 (text_lines (line # ls)) rd False = Inr m"
proof -
  have "cut (text_lines (line # ls)) [newline] = Some (line, text_lines ls)"
    using cut_at_char [OF assms(1)] by (simp add: text_lines_def)
  moreover have "text_lines (line # ls) \<noteq> []" by (simp add: text_lines_def)
  moreover have "drop_cr line = line" using assms(4) by (simp add: drop_cr_def)
  ultimately show ?thesis using assms(2,3) by (simp add: eval_nat_numeral)
qed

lemma trimmed_modes:
  "trim_space '' ssr'' = ''ssr''" "trim_space '' hydrate'' = ''hydrate''"
  "trim_space '' client'' = ''client''" "trim_space '' lazy-client'' = ''lazy-client''"
  "trim_space '' ssr -->'' = ''ssr -->''" "trim_space '' hydrate -->'' = ''hydrate -->''"
  "trim_space '' client -->'' = ''client -->''" "trim_space '' lazy-client -->'' = ''lazy-client -->''"
  by (simp_all add: trim_space_blank [simplified] trim_space_visible visible_def)

lemma annotation_lines:
  assumes "mode = ''ssr'' \<or> mode = ''hydrate'' \<or> mode = ''client'' \<or> mode = ''lazy-client''"
  shows "extract_mode (''// @mode '' @ mode) = Some mode \<and> extract_mode (''<!-- @mode '' @ mode @ '' -->'') = Some mode"
  using assms trimmed_modes
  by (elim disjE) (simp_all add: extract_mode_def cut.simps has_prefix_def mode_defs)

lemma generated_mode:
  assumes "mode = ''ssr'' \<or> mode = ''hydrate'' \<or> mode = ''client'' \<or> mode = ''lazy-client''"
  shows "scan_mode 5 (react_component mode cname) rd False = Inr mode"
    and "scan_mode 5 (svelte_component mode cname) rd False = Inr mode"
proof -
  have r: "newline \<notin> set (''// @mode '' @ mode)" "length (''// @mode '' @ mode) < max_token"
    "last (''// @mode '' @ mode) \<noteq> CHR 0x0D"
    using assms by (auto simp: newline_def max_token_def)
  show "scan_mode 5 (react_component mode cname) rd False = Inr mode"
    unfolding react_component_def by (rule scan_first_line [OF r(1,2) conjunct1 [OF annotation_lines [OF assms]] r(3)])
  have s: "newline \<notin> set (''<!-- @mode '' @ mode @ '' -->'')" "length (''<!-- @mode '' @ mode @ '' -->'') < max_token"
    "last (''<!-- @mode '' @ mode @ '' -->'') \<noteq> CHR 0x0D"
    using assms by (auto simp: newline_def max_token_def)
  show "scan_mode 5 (svelte_component mode cname) rd False = Inr mode"
    unfolding svelte_component_def by (rule scan_first_line [OF s(1,2) conjunct2 [OF annotation_lines [OF assms]] s(3)])
qed

text \<open>
  C37: generate and the loader agree. A component that generate writes is one that did not exist,
  and reading its annotation gives the mode asked for on the command line (in lower case), one
  of the four, for both frameworks and every component name.
\<close>

theorem generated_mode_read_back:
  assumes "run_generate ip env flags loaded args = (CliOk, Some (target, content))"
  shows "\<exists>opt. flags (drop 4 args) = Inr opt \<and> to_lower opt \<in> modes_set \<and> \<not> ge_exists env target \<and>
     read_mode_annotation ip' (Inr (content, None)) path = Inr (to_lower opt)"
proof -
  from assms obtain opt c where f: "flags (drop 4 args) = Inr opt"
    and m: "to_lower opt = ''ssr'' \<or> to_lower opt = ''hydrate'' \<or> to_lower opt = ''client'' \<or> to_lower opt = ''lazy-client''"
    and new: "\<not> ge_exists env target"
    and out: "content = svelte_component (to_lower opt) (capitalize (args ! 3)) \<or>
      content = react_component (to_lower opt) (capitalize (args ! 3))"
    by (auto simp: run_generate_def Let_def split: if_splits sum.splits option.splits)
  have "to_lower opt \<in> modes_set" using m by (auto simp: modes_set_def mode_defs)
  moreover have "read_mode_annotation ip' (Inr (content, None)) path = Inr (to_lower opt)"
    using out generated_mode [OF m] by (auto simp: read_mode_annotation_def)
  ultimately show ?thesis using f new by blast
qed

definition demo_gen :: gen_env where
  "demo_gen = \<lparr>ge_exists = (\<lambda>_. False), ge_mkdir = (\<lambda>_. None), ge_write = (\<lambda>_. None)\<rparr>"

definition demo_svelte :: project_config where
  "demo_svelte = \<lparr>framework = ''svelte'', source_dir = ''front'', out_dir = ''dist'',
     pc_workers = 4, timeout_ms = 0, port = 8080, static_prefix = ''/static/'',
     component_dir = ''src'', go_build_cmd = '' '', component_modes = (\<lambda>_. None)\<rparr>"

lemma demo_valid: "load_valid (\<lambda>_. True) (Inr demo_svelte) = Inr demo_svelte"
proof -
  have "validate_config (\<lambda>_. True) demo_svelte = None" by code_simp
  then show ?thesis by (simp add: load_valid_def)
qed

theorem generated_mode_read_back_witness:
  "\<exists>target content. run_generate (\<lambda>_. True) demo_gen (\<lambda>_. Inr ''SSR'') (Inr demo_svelte) [''revelt'', ''g'', ''component'', ''nav''] =
       (CliOk, Some (target, content)) \<and> read_mode_annotation (\<lambda>_. True) (Inr (content, None)) target = Inr ''ssr''"
proof -
  have low: "to_lower ''SSR'' = ''ssr''" by code_simp
  let ?g = "run_generate (\<lambda>_. True) demo_gen (\<lambda>_. Inr ''SSR'') (Inr demo_svelte) [''revelt'', ''g'', ''component'', ''nav'']"
  have "\<exists>target content. ?g = (CliOk, Some (target, content))"
    by (simp add: run_generate_def demo_valid low demo_gen_def has_space_def Let_def)
  then obtain target content where g: "?g = (CliOk, Some (target, content))" by blast
  from generated_mode_read_back [OF g, of "\<lambda>_. True" target] g low show ?thesis by auto
qed

section \<open>Edges\<close>

text \<open>A build command of blanks gives no fields, and the build panics after the frontend.\<close>

lemma blank_build_cmd_panics:
  "fst (run_build_cmd (\<lambda>_. True) (Inr demo_svelte) False (\<lambda>_ _. None)) =
     CliPanic ''runtime error: index out of range [0] with length 0''"
proof -
  have "fields_of '' '' = []"
    using find_blank [of "[]"] by (subst fields_of_def, subst fields_go.simps) (simp add: fields_go.simps go_spaces_def find_None_iff bytes_def)
  then show ?thesis by (simp add: run_build_cmd_def demo_valid Let_def) (simp add: demo_svelte_def)
qed

text \<open>The guard of clean lets a directory two levels up through.\<close>

lemma clean_out_above: "clean_out (demo_svelte\<lparr>out_dir := ''../..''\<rparr>) = [''../..'']"
  by code_simp

text \<open>A first byte that is not ASCII is replaced.\<close>

lemma capitalize_breaks_utf8: "capitalize (bytes [0xC3, 0xA9]) = bytes [0xEF, 0xBF, 0xBD, 0xA9]"
  by code_simp

end
