(* ===== verification/Streaming.thy ===== *)
theory Streaming
  imports Http_Helpers Compress_Claims
begin

text \<open>
  Progressive responses and line-wise request bodies (\<open>http.go\<close>): the writer that flushes
  after each write, what becomes of a flush behind the wrapping middlewares, and the scanner
  over a request body.
\<close>

section \<open>FlushWriter\<close>

text \<open>\<open>fw_flushes\<close> is whether the field \<open>f\<close> is set.\<close>

record flush_writer =
  fw_w :: rw
  fw_flushes :: bool

definition new_flush_writer :: "rw \<Rightarrow> flush_writer \<times> bool" where
  "new_flush_writer w = (\<lparr>fw_w = w, fw_flushes = is_flusher w\<rparr>, is_flusher w)"

definition flush_write :: "codecs \<Rightarrow> string \<Rightarrow> flush_writer \<Rightarrow> flush_writer \<times> goerr option" where
  "flush_write Z p fw =
     (case rw_write Z p (fw_w fw) of
        (w, Some e) \<Rightarrow> (fw\<lparr>fw_w := w\<rparr>, Some (GWrap ''revelt.FlushWriter'' e))
      | (w, None) \<Rightarrow> (fw\<lparr>fw_w := (if fw_flushes fw then rw_flush Z w else w)\<rparr>, None))"

text \<open>A handler that writes its chunks one by one, until a write fails.\<close>

fun stream_chunks :: "codecs \<Rightarrow> string list \<Rightarrow> flush_writer \<Rightarrow> flush_writer \<times> goerr option" where
  "stream_chunks Z [] fw = (fw, None)"
| "stream_chunks Z (p # ps) fw =
     (case flush_write Z p fw of
        (fw', Some e) \<Rightarrow> (fw', Some e)
      | (fw', None) \<Rightarrow> stream_chunks Z ps fw')"

text \<open>
  What a client can decode of a stream so far: the law of a decoder that keeps up with a
  compressor whenever it is flushed.
\<close>

definition sync_ok :: "zcodec \<Rightarrow> (string \<Rightarrow> string) \<Rightarrow> bool" where
  "sync_ok z dec \<longleftrightarrow> (\<forall>h. dec (emitted z (h @ [ZFlush])) = zwritten h)"

text \<open>The state of a gzip stream between two chunks.\<close>

definition synced :: "zcodec \<Rightarrow> rw \<Rightarrow> string \<Rightarrow> bool" where
  "synced z w body \<longleftrightarrow> (\<exists>c s h k. w = GzipW (Conn c) s \<and> c_sent c = Some (200, h) \<and>
     hget h ''Content-Encoding'' = ''gzip'' \<and> c_fail c = None \<and> z_written s \<and> z_hist s = k @ [ZFlush] \<and> zwritten k = body \<and>
     c_body c = emitted z (z_hist s))"

lemma flush_write_synced:
  assumes "synced (z_gzip Z) w body" "fw = \<lparr>fw_w = w, fw_flushes = True\<rparr>"
  shows "\<exists>w'. flush_write Z p fw = (\<lparr>fw_w = w', fw_flushes = True\<rparr>, None) \<and> synced (z_gzip Z) w' (body @ p)"
proof -
  from assms(1) obtain c s h k where w: "w = GzipW (Conn c) s" "c_sent c = Some (200, h)"
    "hget h ''Content-Encoding'' = ''gzip''" "c_fail c = None" "z_written s" "z_hist s = k @ [ZFlush]" "zwritten k = body" "c_body c = emitted (z_gzip Z) (z_hist s)"
    unfolding synced_def by blast
  let ?z = "z_gzip Z" and ?h1 = "z_hist s @ [ZWrite p]"
  let ?h2 = "?h1 @ [ZFlush]"
  have wr: "rw_write Z q (Conn c') = (Conn (c'\<lparr>c_body := c_body c' @ q\<rparr>), None)"
    if "c_sent c' = Some (200, h)" "c_fail c' = None" for q c'
    using conn_write_ok [OF that(1) _ that(2), of q] by (simp add: no_body_def)
  let ?c1 = "c\<lparr>c_body := c_body c @ zemit ?z ?h1\<rparr>"
  let ?c2 = "?c1\<lparr>c_body := c_body ?c1 @ zemit ?z ?h2\<rparr>"
  have em: "c_body ?c2 = emitted ?z ?h2"
    using w(8) emitted_snoc [of ?z ?h1 ZFlush] emitted_snoc [of ?z "z_hist s" "ZWrite p"] by simp
  have "rw_write Z p (GzipW (Conn c) s) = (GzipW (Conn ?c1) (s\<lparr>z_hist := ?h1\<rparr>), None)"
    using w(2,3,4,5) wr by (simp add: Let_def wrap_err_def)
  moreover have "rw_flush Z (GzipW (Conn ?c1) (s\<lparr>z_hist := ?h1\<rparr>)) = GzipW (Conn ?c2) (s\<lparr>z_hist := ?h2\<rparr>)"
    using w(2,4) wr [of ?c1 "zemit ?z ?h2"] by (simp add: gzip_sync_def Let_def conn_flush_def)
  moreover have "synced ?z (GzipW (Conn ?c2) (s\<lparr>z_hist := ?h2\<rparr>)) (body @ p)"
    unfolding synced_def using w em
    by (intro exI [of _ ?c2] exI [of _ "s\<lparr>z_hist := ?h2\<rparr>"] exI [of _ h] exI [of _ ?h1]) simp
  ultimately show ?thesis using w(1) assms(2) by (simp add: flush_write_def)
qed

text \<open>The first chunk commits 200 with the coding, then goes the same way.\<close>

lemma flush_write_first:
  assumes "fresh_conn c" "fw = \<lparr>fw_w = GzipW (Conn c) zstate0, fw_flushes = True\<rparr>"
  shows "\<exists>w'. flush_write Z p fw = (\<lparr>fw_w = w', fw_flushes = True\<rparr>, None) \<and> synced (z_gzip Z) w' p"
proof -
  let ?z = "z_gzip Z" and ?h1 = "[ZWrite p]"
  let ?h2 = "?h1 @ [ZFlush]"
  let ?c0 = "conn_write_header 200 (c\<lparr>c_hdrs := coding_hdrs ''gzip'' (c_hdrs c)\<rparr>)"
  let ?c1 = "?c0\<lparr>c_body := zemit ?z ?h1\<rparr>"
  let ?c2 = "?c0\<lparr>c_body := zemit ?z ?h1 @ zemit ?z ?h2\<rparr>"
  let ?s = "\<lambda>h. \<lparr>z_hist = h, z_status = 200, z_written = True\<rparr>"
  from assms(1) have c: "c_sent c = None" "c_body c = []" "c_fail c = None" by (simp_all add: fresh_conn_def)
  have sent: "c_sent ?c0 = Some (200, coding_hdrs ''gzip'' (c_hdrs c))" "c_body ?c0 = []" "c_fail ?c0 = None"
    using c by (simp_all add: conn_write_header_fresh)
  have nb: "\<not> no_body 200" by (simp add: no_body_def)
  have "compressed_hdrs ''gzip'' 200 (Conn c) = Conn (c\<lparr>c_hdrs := coding_hdrs ''gzip'' (c_hdrs c)\<rparr>)"
    by (simp add: compressed_hdrs_def coding_hdrs_def)
  then have "rw_write Z p (GzipW (Conn c) zstate0) = (GzipW (Conn ?c1) (?s ?h1), None)"
    using sent conn_write_ok [OF sent(1) nb sent(3), of "zemit ?z ?h1"] by (auto simp: Let_def wrap_err_def zstate0_def)
  moreover have "rw_flush Z (GzipW (Conn ?c1) (?s ?h1)) = GzipW (Conn ?c2) (?s ?h2)"
    using sent conn_write_ok [of ?c1, OF _ nb] by (simp add: gzip_sync_def Let_def conn_flush_def)
  moreover have "synced ?z (GzipW (Conn ?c2) (?s ?h2)) p"
    unfolding synced_def using sent nb emitted_snoc [of ?z ?h1 ZFlush] emitted_snoc [of ?z "[]" "ZWrite p"]
    by (intro exI [of _ ?c2] exI [of _ "?s ?h2"] exI [of _ "coding_hdrs ''gzip'' (c_hdrs c)"] exI [of _ ?h1]) (simp add: coding_hdrs_def)
  ultimately show ?thesis using assms(2) by (simp add: flush_write_def)
qed

lemma stream_synced:
  "synced (z_gzip Z) w body \<Longrightarrow>
     \<exists>w'. stream_chunks Z ps \<lparr>fw_w = w, fw_flushes = True\<rparr> = (\<lparr>fw_w = w', fw_flushes = True\<rparr>, None) \<and>
       synced (z_gzip Z) w' (body @ concat ps)"
proof (induction ps arbitrary: w body)
  case (Cons p ps)
  from flush_write_synced [OF Cons.prems refl, of p] obtain w1 where
    "flush_write Z p \<lparr>fw_w = w, fw_flushes = True\<rparr> = (\<lparr>fw_w = w1, fw_flushes = True\<rparr>, None)"
    "synced (z_gzip Z) w1 (body @ p)" by blast
  with Cons.IH [OF this(2)] show ?case by simp
qed simp

text \<open>
  C38: progress is visible through gzip. A handler that writes chunks through a FlushWriter behind
  the gzip writer fails at none of them, and after any number of them the client can decode
  exactly what has been written so far, from a response marked gzip.
\<close>

theorem gzip_stream_delivers:
  assumes "fresh_conn c" "sync_ok (z_gzip Z) dec" "ps \<noteq> []"
  shows "\<exists>cg s h. stream_chunks Z ps (fst (new_flush_writer (GzipW (Conn c) zstate0))) =
       (\<lparr>fw_w = GzipW (Conn cg) s, fw_flushes = True\<rparr>, None) \<and>
     c_sent cg = Some (200, h) \<and> hget h ''Content-Encoding'' = ''gzip'' \<and> dec (c_body cg) = concat ps"
proof -
  from assms(3) obtain p qs where ps: "ps = p # qs" by (cases ps) auto
  from flush_write_first [OF assms(1) refl, of Z p] obtain w1 where
    first: "flush_write Z p \<lparr>fw_w = GzipW (Conn c) zstate0, fw_flushes = True\<rparr> = (\<lparr>fw_w = w1, fw_flushes = True\<rparr>, None)"
    "synced (z_gzip Z) w1 p" by blast
  from stream_synced [OF this(2), of qs] obtain w2 where
    rest: "stream_chunks Z qs \<lparr>fw_w = w1, fw_flushes = True\<rparr> = (\<lparr>fw_w = w2, fw_flushes = True\<rparr>, None)"
    "synced (z_gzip Z) w2 (concat ps)" unfolding ps by auto
  then obtain cg s h k where "w2 = GzipW (Conn cg) s" "c_sent cg = Some (200, h)"
    "hget h ''Content-Encoding'' = ''gzip''" "z_hist s = k @ [ZFlush]" "zwritten k = concat ps"
    "c_body cg = emitted (z_gzip Z) (z_hist s)" unfolding synced_def by blast
  with first(1) rest(1) assms(2) show ?thesis
    by (simp add: ps new_flush_writer_def sync_ok_def)
qed

text \<open>A codec that keeps up: a start mark, the bytes as they are, a mark per flush.\<close>

lemma demo_sync: "sync_ok demo_codec (\<lambda>s. tl s)"
proof -
  have "emitted demo_codec h = (if h = [] then [] else ''Z'' @ zwritten h)" for h
    by (induction h rule: rev_induct) (auto simp: emitted_snoc demo_codec_def)
  then show ?thesis by (simp add: sync_ok_def)
qed

theorem gzip_stream_delivers_witness:
  "\<exists>cg s h. stream_chunks demo_codecs [''ab'', ''cd''] (fst (new_flush_writer (GzipW (Conn demo_conn) zstate0))) =
       (\<lparr>fw_w = GzipW (Conn cg) s, fw_flushes = True\<rparr>, None) \<and>
     c_sent cg = Some (200, h) \<and> hget h ''Content-Encoding'' = ''gzip'' \<and> tl (c_body cg) = concat [''ab'', ''cd'']"
  by (rule gzip_stream_delivers) (simp_all add: demo_plain(1) demo_codecs_def demo_sync)

section \<open>Flushing behind the other writers\<close>

lemma commit_conn:
  "\<exists>c1. write_header code (compressed_hdrs coding code (Conn c)) = Conn c1 \<and> c_body c1 = c_body c"
  by (auto simp: compressed_hdrs_def conn_write_header_def)

text \<open>
  Brotli's \<open>Flush\<close> does not reach the compressor: a compressor that puts nothing out before it
  is closed has sent nothing after any number of flushed chunks, although none of them fails.
\<close>

lemma brotli_stream_held:
  assumes "\<And>h. zemit (z_brotli Z) h = []" "c_body c = []" "\<not> no_body 200"
  shows "\<exists>cg s. stream_chunks Z ps \<lparr>fw_w = BrotliW (Conn c) s0, fw_flushes = True\<rparr> =
      (\<lparr>fw_w = BrotliW (Conn cg) s, fw_flushes = True\<rparr>, None) \<and> c_body cg = []"
  using assms(2)
proof (induction ps arbitrary: c s0)
  case (Cons p ps)
  let ?code = "if z_status s0 = 0 then 200 else z_status s0"
  obtain c1 where c1: "write_header ?code (compressed_hdrs ''br'' ?code (Conn c)) = Conn c1" "c_body c1 = []"
    using commit_conn [of ?code "''br''" c] Cons.prems by auto
  let ?c = "if z_written s0 then c else c1"
  have "\<exists>s1. rw_write Z p (BrotliW (Conn c) s0) = (BrotliW (Conn ?c) s1, None)"
    using c1(1) by (simp add: assms(1) Let_def wrap_err_def del: write_header_simps)
  moreover have "c_body (conn_flush ?c) = []" using c1(2) Cons.prems by (simp add: conn_flush_def conn_write_header_def)
  ultimately show ?case using Cons.IH [of "conn_flush ?c"] by (auto simp: flush_write_def)
qed simp

text \<open>
  A \<open>Flush\<close> before anything is written commits the response before its coding is announced:
  what gzip then writes is not marked as gzip.
\<close>

lemma gzip_flush_first_unmarked:
  assumes "fresh_conn c" "hget (c_hdrs c) ''Content-Encoding'' = []"
  shows "\<exists>cg s h. run_prog Z (PFlush (\<lambda>_. PWrite p (\<lambda>_. PRet HNil))) (GzipW (Conn c) zstate0) = (GzipW (Conn cg) s, HNil) \<and>
     c_sent cg = Some (200, h) \<and> hget h ''Content-Encoding'' = [] \<and> c_body cg = emitted (z_gzip Z) [ZFlush, ZWrite p]"
proof -
  let ?z = "z_gzip Z"
  let ?c0 = "c\<lparr>c_sent := Some (200, c_hdrs c)\<rparr>"
  let ?c1 = "?c0\<lparr>c_body := zemit ?z [ZFlush]\<rparr>"
  let ?c2 = "?c1\<lparr>c_hdrs := coding_hdrs ''gzip'' (c_hdrs c), c_body := zemit ?z [ZFlush] @ zemit ?z [ZFlush, ZWrite p]\<rparr>"
  from assms(1) have c: "c_sent c = None" "c_body c = []" "c_fail c = None" by (simp_all add: fresh_conn_def)
  have nb: "\<not> no_body 200" by (simp add: no_body_def)
  have "rw_flush Z (GzipW (Conn c) zstate0) = GzipW (Conn ?c1) (zstate0\<lparr>z_hist := [ZFlush]\<rparr>)"
    using c nb by (auto simp: gzip_sync_def Let_def conn_flush_def conn_write_header_fresh conn_write_def zstate0_def)
  moreover have "\<exists>s. rw_write Z p (GzipW (Conn ?c1) (zstate0\<lparr>z_hist := [ZFlush]\<rparr>)) = (GzipW (Conn ?c2) s, None)"
    using c nb by (auto simp: Let_def conn_write_def compressed_hdrs_def coding_hdrs_def wrap_err_def zstate0_def)
  moreover have "emitted ?z [ZFlush, ZWrite p] = zemit ?z [ZFlush] @ zemit ?z [ZFlush, ZWrite p]"
    using emitted_snoc [of ?z "[ZFlush]" "ZWrite p"] emitted_snoc [of ?z "[]" ZFlush] by simp
  ultimately show ?thesis using assms(2) by auto
qed

text \<open>The logger's writer hides the \<open>Flush\<close> of the connection: nothing is flushed behind it.\<close>

lemma no_flush_behind_logger: "snd (new_flush_writer (StatusW w s)) = False"
  by (simp add: new_flush_writer_def)

text \<open>
  A \<open>Flush\<close> behind ETag commits 200: a client that already has the page and asks for it
  conditionally gets 200 with an empty body in place of 304.
\<close>

lemma etag_flush_empty_page:
  assumes "is_cacheable r skip" "fresh_conn c" "hget (rq_hdrs r) ''If-None-Match'' = etag_value Z p"
  shows "\<exists>ce h. etag_mw Z skip (\<lambda>r. run_prog Z (PWrite p (\<lambda>_. PFlush (\<lambda>_. PRet HNil)))) r (Conn c) = (Conn ce, HNil) \<and>
     c_sent ce = Some (200, h) \<and> c_body ce = []"
  using assms by (simp add: etag_mw_def etag_finish_def estate0_def conn_flush_def fresh_conn_def conn_write_header_fresh Let_def)

section \<open>Reading a body line by line\<close>

text \<open>
  The lines of \<open>ReadLines\<close>: \<open>bufio.Scanner\<close> with lines of up to 4 MiB, newline included,
  over a body that ends with \<open>rd\<close> (\<open>None\<close> at its end); with the error \<open>Err\<close> gives.
\<close>

definition max_line :: nat where
  "max_line = 4 * 2 ^ 20"

function scan_lines :: "nat \<Rightarrow> string \<Rightarrow> goerr option \<Rightarrow> string list \<times> goerr option" where
  "scan_lines mx s rd =
     (if s = [] then ([], rd)
      else case cut s [newline] of
          Some (line, rest) \<Rightarrow>
            (if mx \<le> length line then ([], Some err_too_long)
             else apfst (Cons (drop_cr line)) (scan_lines mx rest rd))
        | None \<Rightarrow> (if mx \<le> length s then ([], Some err_too_long) else ([drop_cr s], rd)))"
  by pat_completeness auto
termination
  by (relation "measure (\<lambda>(mx, s, rd). length s)") (auto dest!: cut_Some simp: newline_def)

declare scan_lines.simps [simp del]

definition read_lines :: "string \<times> goerr option \<Rightarrow> string list \<times> goerr option" where
  "read_lines body = scan_lines max_line (fst body) (snd body)"

text \<open>
  A body of lines is read back. If every line is shorter than 4 MiB, contains no newline and
  does not end in a carriage return, ReadLines over the lines, each followed by a newline, delivers
  exactly the lines, in order, and ends with the error reading the body ended with (none at its
  end); whether or not the last line has its newline makes no difference.
\<close>

theorem read_lines_roundtrip:
  assumes "\<And>l. l \<in> set (ls @ [x]) \<Longrightarrow> newline \<notin> set l \<and> length l < max_line \<and> drop_cr l = l" "x \<noteq> []"
  shows "read_lines (concat (map (\<lambda>l. l @ [newline]) ls) @ x, rd) = (ls @ [x], rd) \<and>
    read_lines (concat (map (\<lambda>l. l @ [newline]) (ls @ [x])), rd) = (ls @ [x], rd)"
proof -
  have x: "newline \<notin> set x" "length x < max_line" "drop_cr x = x" using assms(1) [of x] by auto
  have line: "scan_lines max_line (l @ newline # rest) rd = apfst (Cons l) (scan_lines max_line rest rd)"
    if "l \<in> set (ls @ [x])" for l rest
    using assms(1) [OF that] cut_at_char [of newline l rest]
    by (subst scan_lines.simps) simp
  have lines: "scan_lines max_line (concat (map (\<lambda>l. l @ [newline]) ks) @ rest) rd =
      apfst (append ks) (scan_lines max_line rest rd)" if "set ks \<subseteq> set (ls @ [x])" for ks rest
    using that by (induction ks) (auto simp: line apfst_def map_prod_def split: prod.splits)
  have "cut x [newline] = None" using x(1) by (auto simp: cut_None)
  then have last: "scan_lines max_line x rd = ([x], rd)"
    using x assms(2) by (subst scan_lines.simps) simp
  have "scan_lines max_line [] rd = ([], rd)" by (subst scan_lines.simps) simp
  with lines [of "ls @ [x]" "[]"] lines [of ls x] last show ?thesis by (auto simp: read_lines_def)
qed

theorem read_lines_roundtrip_witness:
  "read_lines (''{}'' @ [newline] @ ''[1]'', None) = ([''{}'', ''[1]''], None) \<and>
   read_lines (''{}'' @ [newline] @ ''[1]'' @ [newline], None) = ([''{}'', ''[1]''], None)"
proof -
  have "newline \<notin> set l \<and> length l < max_line \<and> drop_cr l = l" if "l \<in> set ([''{}''] @ [''[1]''])" for l
    using that by (auto simp: newline_def max_line_def drop_cr_def)
  from read_lines_roundtrip [where rd = None and ls = "[''{}'']" and x = "''[1]''", OF this] show ?thesis by simp
qed

end
