(* ===== verification/Etag_Pool.thy ===== *)
theory Etag_Pool
  imports Compress Steps
begin

text \<open>
  The pool of ETag writers (\<open>middleware/etag\<close>). Theory Compress gives every request a fresh
  writer; here the writers are the pooled objects of \<open>writerPool\<close> over a store of buffer
  arrays, used by any number of requests at once, whose steps interleave: taking a writer,
  writing, giving it back with the tag computed, and sending the body that was sliced off its
  buffer. The tag is always that of the request's own page; the body is, unless another request
  comes between giving the writer back and sending.
\<close>

section \<open>Writers, arrays and requests\<close>

text \<open>
  A pooled writer: the array its \<open>bytes.Buffer\<close> stands on, how much of it is used, and what
  the hash has been fed since its reset.
\<close>

record pooled =
  pw_arr :: nat
  pw_len :: nat
  pw_hash :: string

text \<open>
  Where a request is: not begun, in the handler with a writer, holding tag and body slice (an
  array and a length), or done. The string \<open>own\<close> records what its handler wrote.
\<close>

datatype epc =
    EIdle
  | EHandling nat string
  | EReady string nat nat string
  | ESent string string string

record epool =
  ep_next :: nat
  ep_arrays :: "nat \<Rightarrow> string"
  ep_writers :: "nat \<rightharpoonup> pooled"
  ep_free :: "nat list"
  ep_reqs :: "nat \<Rightarrow> epc"

text \<open>
  \<open>bytes.Buffer.Write\<close>: in place while the array has room, else into a new array of at least
  twice the capacity (64 bytes at first).
\<close>

definition new_capacity :: "nat \<Rightarrow> nat \<Rightarrow> nat" where
  "new_capacity capacity need =
     (if capacity = 0 \<and> need \<le> 64 then 64 else max need (2 * capacity))"

definition buf_write :: "string \<Rightarrow> pooled \<Rightarrow> epool \<Rightarrow> pooled \<times> epool" where
  "buf_write p w s =
     (let arr = ep_arrays s (pw_arr w); n = pw_len w + length p; kept = take (pw_len w) arr in
      if n \<le> length arr
      then (w\<lparr>pw_len := n\<rparr>, s\<lparr>ep_arrays := (ep_arrays s)(pw_arr w := kept @ p @ drop n arr)\<rparr>)
      else (w\<lparr>pw_arr := ep_next s, pw_len := n\<rparr>,
            s\<lparr>ep_arrays := (ep_arrays s)(ep_next s :=
                kept @ p @ replicate (new_capacity (length arr) n - n) (CHR 0x00)),
              ep_next := Suc (ep_next s)\<rparr>))"

text \<open>Taking a writer: one from the pool, or a new one over an empty array; \<open>reset\<close> empties it.\<close>

definition pool_take :: "nat option \<Rightarrow> epool \<Rightarrow> (nat \<times> epool) option" where
  "pool_take choice s =
     (case choice of
        Some w \<Rightarrow> if w \<in> set (ep_free s) then Some (w, s\<lparr>ep_free := remove1 w (ep_free s)\<rparr>) else None
      | None \<Rightarrow> Some (ep_next s, s\<lparr>ep_next := Suc (ep_next s), ep_arrays := (ep_arrays s)(ep_next s := []),
                    ep_writers := (ep_writers s)(ep_next s \<mapsto> \<lparr>pw_arr = ep_next s, pw_len = 0, pw_hash = []\<rparr>)\<rparr>))"

definition pooled_reset :: "pooled \<Rightarrow> pooled" where
  "pooled_reset w = w\<lparr>pw_len := 0, pw_hash := []\<rparr>"

text \<open>Giving it back, unless its buffer has grown past 512 KiB.\<close>

definition give_back :: "nat \<Rightarrow> pooled \<Rightarrow> epool \<Rightarrow> epool" where
  "give_back w pw s =
     (if length (ep_arrays s (pw_arr pw)) > 512 * 1024 then s else s\<lparr>ep_free := w # ep_free s\<rparr>)"

datatype eevent =
    EGet nat "nat option"
  | EWrite nat string
  | EFinish nat
  | EFail nat
  | ESend nat

definition set_req :: "nat \<Rightarrow> epc \<Rightarrow> epool \<Rightarrow> epool" where
  "set_req t pc s = s\<lparr>ep_reqs := (ep_reqs s)(t := pc)\<rparr>"

text \<open>
  \<open>EGet\<close>, \<open>EFinish\<close>, \<open>EFail\<close> and \<open>ESend\<close> are the lines of \<open>New\<close> around and after the
  call of the handler, for a request that is cacheable and answered with 200 unconditionally;
  \<open>EWrite\<close> is a \<open>Write\<close> of its handler.
\<close>

fun estep :: "(string \<Rightarrow> string) \<Rightarrow> epool \<Rightarrow> eevent \<Rightarrow> epool option" where
  "estep sha s (EGet t choice) =
     (case ep_reqs s t of
        EIdle \<Rightarrow>
          (case pool_take choice s of
             None \<Rightarrow> None
           | Some (w, s1) \<Rightarrow>
               Some (set_req t (EHandling w [])
                 (s1\<lparr>ep_writers := (ep_writers s1)(w := map_option pooled_reset (ep_writers s1 w))\<rparr>)))
      | _ \<Rightarrow> None)"
| "estep sha s (EWrite t p) =
     (case ep_reqs s t of
        EHandling w own \<Rightarrow>
          (case ep_writers s w of
             None \<Rightarrow> None
           | Some pw \<Rightarrow>
               (let (pw1, s1) = buf_write p pw s
                in Some (set_req t (EHandling w (own @ p))
                     (s1\<lparr>ep_writers := (ep_writers s1)(w \<mapsto> pw1\<lparr>pw_hash := pw_hash pw1 @ p\<rparr>)\<rparr>))))
      | _ \<Rightarrow> None)"
| "estep sha s (EFinish t) =
     (case ep_reqs s t of
        EHandling w own \<Rightarrow>
          (case ep_writers s w of
             None \<Rightarrow> None
           | Some pw \<Rightarrow> Some (set_req t (EReady (sha (pw_hash pw)) (pw_arr pw) (pw_len pw) own) (give_back w pw s)))
      | _ \<Rightarrow> None)"
| "estep sha s (EFail t) =
     (case ep_reqs s t of
        EHandling w own \<Rightarrow>
          (case ep_writers s w of
             None \<Rightarrow> None
           | Some pw \<Rightarrow> Some (set_req t EIdle (give_back w pw s)))
      | _ \<Rightarrow> None)"
| "estep sha s (ESend t) =
     (case ep_reqs s t of
        EReady tag arr n own \<Rightarrow> Some (set_req t (ESent tag (take n (ep_arrays s arr)) own) s)
      | _ \<Rightarrow> None)"

fun erun :: "(string \<Rightarrow> string) \<Rightarrow> epool \<Rightarrow> eevent list \<Rightarrow> epool option" where
  "erun sha s [] = Some s"
| "erun sha s (e # es) = (case estep sha s e of None \<Rightarrow> None | Some s' \<Rightarrow> erun sha s' es)"

definition epool_init :: epool where
  "epool_init = \<lparr>ep_next = 0, ep_arrays = (\<lambda>_. []), ep_writers = Map.empty, ep_free = [], ep_reqs = (\<lambda>_. EIdle)\<rparr>"

section \<open>A writer has one user\<close>

definition handling :: "epool \<Rightarrow> nat \<Rightarrow> nat \<Rightarrow> bool" where
  "handling s t w \<longleftrightarrow> (\<exists>own. ep_reqs s t = EHandling w own)"

text \<open>
  Free writers are distinct and in nobody's hands, two requests never hold one writer, two
  writers never stand on one array, and names in use are below \<open>ep_next\<close>.
\<close>

definition exclusive :: "epool \<Rightarrow> bool" where
  "exclusive s \<longleftrightarrow> distinct (ep_free s) \<and> set (ep_free s) \<subseteq> dom (ep_writers s) \<and>
     (\<forall>t w. handling s t w \<longrightarrow> w \<in> dom (ep_writers s) \<and> w \<notin> set (ep_free s)) \<and>
     (\<forall>t u w. handling s t w \<and> handling s u w \<longrightarrow> t = u)"

definition apart :: "epool \<Rightarrow> bool" where
  "apart s \<longleftrightarrow> (\<forall>w pw. ep_writers s w = Some pw \<longrightarrow> w < ep_next s \<and> pw_arr pw < ep_next s) \<and>
     (\<forall>v w pv pw. ep_writers s v = Some pv \<and> ep_writers s w = Some pw \<and> pw_arr pv = pw_arr pw \<longrightarrow> v = w)"

text \<open>What a writer in use holds is what its request has written.\<close>

definition holds_own :: "epool \<Rightarrow> bool" where
  "holds_own s \<longleftrightarrow> (\<forall>t w own. ep_reqs s t = EHandling w own \<longrightarrow>
     (\<exists>pw. ep_writers s w = Some pw \<and> pw_hash pw = own \<and> pw_len pw = length own \<and>
        take (length own) (ep_arrays s (pw_arr pw)) = own))"

definition tags_own :: "(string \<Rightarrow> string) \<Rightarrow> epool \<Rightarrow> bool" where
  "tags_own sha s \<longleftrightarrow> (\<forall>t tag a n body own.
     (ep_reqs s t = EReady tag a n own \<longrightarrow> tag = sha own \<and> n = length own) \<and>
     (ep_reqs s t = ESent tag body own \<longrightarrow> tag = sha own))"

definition epool_inv :: "(string \<Rightarrow> string) \<Rightarrow> epool \<Rightarrow> bool" where
  "epool_inv sha s \<longleftrightarrow> exclusive s \<and> apart s \<and> holds_own s \<and> tags_own sha s"

end
