(* ===== verification/Etag_Pool_Claims.thy ===== *)
theory Etag_Pool_Claims
  imports Etag_Pool Compress_Claims
begin

text \<open>
  The invariant of the pool of ETag writers, by one lemma per step, and what it gives: whatever
  the interleaving, a writer has one user and a tag belongs to the page of its request; the
  body does when the request sends at once.
\<close>

lemma set_req_simps [simp]:
  "ep_reqs (set_req t pc s) = (ep_reqs s)(t := pc)" "ep_next (set_req t pc s) = ep_next s"
  "ep_arrays (set_req t pc s) = ep_arrays s" "ep_writers (set_req t pc s) = ep_writers s"
  "ep_free (set_req t pc s) = ep_free s"
  by (simp_all add: set_req_def)

lemma pooled_reset_simps [simp]:
  "pw_arr (pooled_reset w) = pw_arr w" "pw_len (pooled_reset w) = 0" "pw_hash (pooled_reset w) = []"
  by (simp_all add: pooled_reset_def)

lemma give_back_simps [simp]:
  "ep_next (give_back w pw s) = ep_next s" "ep_arrays (give_back w pw s) = ep_arrays s"
  "ep_writers (give_back w pw s) = ep_writers s" "ep_reqs (give_back w pw s) = ep_reqs s"
  by (simp_all add: give_back_def)

lemma give_back_free: "ep_free (give_back w pw s) = ep_free s \<or> ep_free (give_back w pw s) = w # ep_free s"
  by (simp add: give_back_def)

text \<open>The conjuncts as rules.\<close>

definition writer_holds :: "epool \<Rightarrow> nat \<Rightarrow> string \<Rightarrow> bool" where
  "writer_holds s w own \<longleftrightarrow> (\<exists>pw. ep_writers s w = Some pw \<and> pw_hash pw = own \<and> pw_len pw = length own \<and>
     take (length own) (ep_arrays s (pw_arr pw)) = own)"

lemma holds_own_iff: "holds_own s \<longleftrightarrow> (\<forall>t w own. ep_reqs s t = EHandling w own \<longrightarrow> writer_holds s w own)"
  by (simp add: holds_own_def writer_holds_def)

lemma writer_holds_keep:
  assumes "writer_holds s w own" "ep_writers s' w = ep_writers s w"
    "\<And>pw. ep_writers s w = Some pw \<Longrightarrow> ep_arrays s' (pw_arr pw) = ep_arrays s (pw_arr pw)"
  shows "writer_holds s' w own"
  using assms by (auto simp: writer_holds_def)

lemma apartD:
  assumes "apart s" "ep_writers s w = Some pw"
  shows "w < ep_next s" "pw_arr pw < ep_next s"
    "ep_writers s v = Some pv \<Longrightarrow> pw_arr pv = pw_arr pw \<Longrightarrow> v = w"
  using assms unfolding apart_def by blast+

definition arr_of :: "epool \<Rightarrow> nat \<Rightarrow> nat option" where
  "arr_of s w = map_option pw_arr (ep_writers s w)"

lemma apart_iff: "apart s \<longleftrightarrow>
  (\<forall>w a. arr_of s w = Some a \<longrightarrow> w < ep_next s \<and> a < ep_next s) \<and>
  (\<forall>v w a. arr_of s v = Some a \<and> arr_of s w = Some a \<longrightarrow> v = w)"
  unfolding apart_def arr_of_def by (auto simp: map_option_case split: option.splits)

lemma apart_same: "apart s \<Longrightarrow> ep_next s' = ep_next s \<Longrightarrow> arr_of s' = arr_of s \<Longrightarrow> apart s'"
  by (simp add: apart_iff)

lemma apart_new:
  assumes "apart s" "ep_next s' = Suc (ep_next s)" "arr_of s' = (arr_of s)(w \<mapsto> ep_next s)" "w \<le> ep_next s"
  shows "apart s'"
  using assms unfolding apart_iff by (auto simp: less_Suc_eq)

lemma invD:
  assumes "epool_inv sha s"
  shows "exclusive s" "apart s" "holds_own s" "tags_own sha s"
  using assms by (simp_all add: epool_inv_def)

lemma handling_holds: "epool_inv sha s \<Longrightarrow> ep_reqs s t = EHandling w own \<Longrightarrow> writer_holds s w own"
  by (auto simp: epool_inv_def holds_own_iff)

lemma one_user: "epool_inv sha s \<Longrightarrow> handling s t w \<Longrightarrow> handling s u w \<Longrightarrow> t = u"
  unfolding epool_inv_def exclusive_def by blast

lemma not_free: "epool_inv sha s \<Longrightarrow> handling s t w \<Longrightarrow> w \<notin> set (ep_free s)"
  unfolding epool_inv_def exclusive_def by blast

lemma get_inv:
  assumes inv: "epool_inv sha s" and step: "estep sha s (EGet t choice) = Some s'"
  shows "epool_inv sha s'"
proof -
  from step obtain w s1 where idle: "ep_reqs s t = EIdle" and take: "pool_take choice s = Some (w, s1)"
    and s': "s' = set_req t (EHandling w []) (s1\<lparr>ep_writers := (ep_writers s1)(w := map_option pooled_reset (ep_writers s1 w))\<rparr>)"
    by (auto split: epc.splits option.splits)
  have reqs: "ep_reqs s1 = ep_reqs s" using take by (auto simp: pool_take_def split: option.splits if_splits)
  show ?thesis
  proof (cases choice)
    case None
    with take have w: "w = ep_next s"
      and s1: "s1 = s\<lparr>ep_next := Suc (ep_next s), ep_arrays := (ep_arrays s)(ep_next s := []),
                 ep_writers := (ep_writers s)(ep_next s \<mapsto> \<lparr>pw_arr = ep_next s, pw_len = 0, pw_hash = []\<rparr>)\<rparr>"
      by (auto simp: pool_take_def)
    have new: "w \<notin> dom (ep_writers s)" using inv by (auto simp: epool_inv_def apart_def w)
    have "exclusive s'"
      using invD(1) [OF inv] new unfolding exclusive_def handling_def s' s1 w by (auto split: if_splits)
    moreover have "apart s'"
      by (intro apart_new [OF invD(2) [OF inv], of _ w]) (auto simp: s' s1 w arr_of_def)
    moreover have "holds_own s'"
      unfolding holds_own_iff
    proof (intro allI impI)
      fix u v own
      assume u: "ep_reqs s' u = EHandling v own"
      show "writer_holds s' v own"
      proof (cases "u = t")
        case True
        with u show ?thesis by (simp add: s' s1 w writer_holds_def)
      next
        case False
        with u have "ep_reqs s u = EHandling v own" by (simp add: s' s1)
        from handling_holds [OF inv this] have own: "writer_holds s v own" .
        then obtain pv where pv: "ep_writers s v = Some pv" by (auto simp: writer_holds_def)
        with apartD(1,2) [OF invD(2) [OF inv] pv] have "v < ep_next s" "pw_arr pv < ep_next s" by auto
        with pv show ?thesis by (intro writer_holds_keep [OF own]) (auto simp: s' s1 w)
      qed
    qed
    moreover have "tags_own sha s'"
      using invD(4) [OF inv] unfolding tags_own_def s' s1 by auto
    ultimately show ?thesis by (simp add: epool_inv_def)
  next
    case (Some v)
    with take have w: "w = v" "w \<in> set (ep_free s)" and s1: "s1 = s\<lparr>ep_free := remove1 w (ep_free s)\<rparr>"
      by (auto simp: pool_take_def split: if_splits)
    from inv w(2) obtain pw where pw: "ep_writers s w = Some pw"
      by (auto simp: epool_inv_def exclusive_def)
    have free: "\<not> handling s u w" for u using inv w(2) by (auto simp: epool_inv_def exclusive_def)
    have "exclusive s'"
      using invD(1) [OF inv] free pw unfolding exclusive_def handling_def s' s1
      by (auto simp: set_remove1_eq distinct_remove1 split: if_splits)
    moreover have "apart s'"
      using pw by (intro apart_same [OF invD(2) [OF inv]]) (auto simp: s' s1 arr_of_def)
    moreover have "holds_own s'"
      unfolding holds_own_iff
    proof (intro allI impI)
      fix u x own
      assume u: "ep_reqs s' u = EHandling x own"
      show "writer_holds s' x own"
      proof (cases "u = t")
        case True
        with u pw show ?thesis by (simp add: s' s1 writer_holds_def)
      next
        case False
        with u have r: "ep_reqs s u = EHandling x own" by (simp add: s' s1)
        with free [of u] have "x \<noteq> w" by (auto simp: handling_def)
        then show ?thesis by (intro writer_holds_keep [OF handling_holds [OF inv r]]) (auto simp: s' s1)
      qed
    qed
    moreover have "tags_own sha s'"
      using invD(4) [OF inv] unfolding tags_own_def s' s1 by auto
    ultimately show ?thesis by (simp add: epool_inv_def)
  qed
qed

text \<open>A write goes into the array of the writer, or into a new one; the bytes are those written.\<close>

lemma buf_write_spec:
  assumes "buf_write p pw s = (pw1, s1)" "pw_len pw = length own" "take (length own) (ep_arrays s (pw_arr pw)) = own"
  shows "pw_len pw1 = length (own @ p) \<and> take (length (own @ p)) (ep_arrays s1 (pw_arr pw1)) = own @ p \<and>
    pw_hash pw1 = pw_hash pw \<and> ep_writers s1 = ep_writers s \<and> ep_free s1 = ep_free s \<and> ep_reqs s1 = ep_reqs s \<and>
    (\<forall>a. a \<noteq> pw_arr pw1 \<longrightarrow> ep_arrays s1 a = ep_arrays s a) \<and>
    (pw_arr pw1 = pw_arr pw \<and> ep_next s1 = ep_next s \<or>
     pw_arr pw1 = ep_next s \<and> ep_next s1 = Suc (ep_next s))"
  using assms by (auto simp: buf_write_def Let_def split: if_splits)

lemma write_inv:
  assumes inv: "epool_inv sha s" and step: "estep sha s (EWrite t p) = Some s'"
  shows "epool_inv sha s'"
proof -
  from step obtain w own pw pw1 s1 where r: "ep_reqs s t = EHandling w own" and pw: "ep_writers s w = Some pw"
    and b: "buf_write p pw s = (pw1, s1)"
    and s': "s' = set_req t (EHandling w (own @ p)) (s1\<lparr>ep_writers := (ep_writers s1)(w \<mapsto> pw1\<lparr>pw_hash := pw_hash pw1 @ p\<rparr>)\<rparr>)"
    by (auto split: epc.splits option.splits prod.splits)
  from handling_holds [OF inv r] pw have own: "pw_len pw = length own" "pw_hash pw = own"
    "take (length own) (ep_arrays s (pw_arr pw)) = own" by (auto simp: writer_holds_def)
  note spec = buf_write_spec [OF b own(1,3)]
  have hand: "handling s' = handling s" using spec r by (auto simp: handling_def s' fun_eq_iff)
  have "exclusive s'"
    using invD(1) [OF inv] spec pw unfolding exclusive_def hand by (auto simp: s')
  moreover have "apart s'"
  proof (cases "pw_arr pw1 = pw_arr pw \<and> ep_next s1 = ep_next s")
    case True
    with spec pw show ?thesis by (intro apart_same [OF invD(2) [OF inv]]) (auto simp: s' arr_of_def)
  next
    case False
    with spec have "pw_arr pw1 = ep_next s" "ep_next s1 = Suc (ep_next s)" by auto
    with spec pw apartD(1) [OF invD(2) [OF inv] pw] show ?thesis
      by (intro apart_new [OF invD(2) [OF inv], of _ w]) (auto simp: s' arr_of_def)
  qed
  moreover have "holds_own s'"
    unfolding holds_own_iff
  proof (intro allI impI)
    fix u v own'
    assume u: "ep_reqs s' u = EHandling v own'"
    show "writer_holds s' v own'"
    proof (cases "u = t")
      case True
      with u spec own(2) show ?thesis by (simp add: s' writer_holds_def)
    next
      case False
      with u spec have ru: "ep_reqs s u = EHandling v own'" by (simp add: s')
      have "v \<noteq> w" using one_user [OF inv, of u v t] ru r False by (auto simp: handling_def)
      have "pw_arr pv \<noteq> pw_arr pw1" if "ep_writers s v = Some pv" for pv
        using apartD [OF invD(2) [OF inv] that] apartD(3) [OF invD(2) [OF inv] that pw] \<open>v \<noteq> w\<close> spec by auto
      with spec \<open>v \<noteq> w\<close> show ?thesis
        by (intro writer_holds_keep [OF handling_holds [OF inv ru]]) (auto simp: s')
    qed
  qed
  moreover have "tags_own sha s'"
    using invD(4) [OF inv] spec unfolding tags_own_def by (auto simp: s')
  ultimately show ?thesis by (simp add: epool_inv_def)
qed

text \<open>The steps that end the handling and give the writer back.\<close>

lemma release_inv:
  assumes inv: "epool_inv sha s" and r: "ep_reqs s t = EHandling w own" and pw: "ep_writers s w = Some pw"
    and pc: "pc = EIdle \<or> pc = EReady (sha (pw_hash pw)) (pw_arr pw) (pw_len pw) own"
  shows "epool_inv sha (set_req t pc (give_back w pw s))"
proof -
  let ?s = "set_req t pc (give_back w pw s)"
  have h: "handling ?s u v \<longleftrightarrow> u \<noteq> t \<and> handling s u v" for u v
    using pc by (auto simp: handling_def)
  have mine: "handling s t w" using r by (simp add: handling_def)
  have "exclusive ?s"
    using invD(1) [OF inv] one_user [OF inv _ mine] not_free [OF inv mine] pw give_back_free [of w pw s]
    unfolding exclusive_def h by (auto intro: one_user [OF inv])
  moreover have "apart ?s"
    by (intro apart_same [OF invD(2) [OF inv]]) (auto simp: arr_of_def)
  moreover have "holds_own ?s"
    unfolding holds_own_iff
  proof (intro allI impI)
    fix u v own'
    assume "ep_reqs ?s u = EHandling v own'"
    with pc have "ep_reqs s u = EHandling v own'" by (auto split: if_splits)
    then show "writer_holds ?s v own'" by (intro writer_holds_keep [OF handling_holds [OF inv]]) auto
  qed
  moreover have "tags_own sha ?s"
    using invD(4) [OF inv] pc handling_holds [OF inv r] pw unfolding tags_own_def
    by (auto simp: writer_holds_def split: if_splits)
  ultimately show ?thesis by (simp add: epool_inv_def)
qed

lemma send_inv:
  assumes inv: "epool_inv sha s" and step: "estep sha s (ESend t) = Some s'"
  shows "epool_inv sha s'"
proof -
  from step obtain tag a n own where r: "ep_reqs s t = EReady tag a n own"
    and s': "s' = set_req t (ESent tag (take n (ep_arrays s a)) own) s"
    by (auto split: epc.splits)
  have h: "handling s' = handling s" using r by (auto simp: handling_def s' fun_eq_iff)
  have "exclusive s'" using invD(1) [OF inv] unfolding exclusive_def h by (simp add: s')
  moreover have "apart s'" by (intro apart_same [OF invD(2) [OF inv]]) (auto simp: s' arr_of_def)
  moreover have "holds_own s'"
    using invD(3) [OF inv] unfolding holds_own_def by (auto simp: s')
  moreover have "tags_own sha s'"
    using invD(4) [OF inv] r unfolding tags_own_def by (auto simp: s' split: if_splits)
  ultimately show ?thesis by (simp add: epool_inv_def)
qed

lemma estep_inv: "epool_inv sha s \<Longrightarrow> estep sha s e = Some s' \<Longrightarrow> epool_inv sha s'"
proof (cases e)
  case (EFinish t)
  moreover assume "epool_inv sha s" "estep sha s e = Some s'"
  ultimately show ?thesis by (auto split: epc.splits option.splits intro: release_inv)
next
  case (EFail t)
  moreover assume "epool_inv sha s" "estep sha s e = Some s'"
  ultimately show ?thesis by (auto split: epc.splits option.splits intro: release_inv)
qed (blast intro: get_inv write_inv send_inv)+

interpretation ep: guarded_machine "estep sha" "erun sha" "epool_inv sha" for sha
  by unfold_locales (auto intro: estep_inv)

lemma epool_inv_init: "epool_inv sha epool_init"
  by (simp add: epool_inv_def exclusive_def apart_def holds_own_def tags_own_def handling_def epool_init_def)

lemma epool_reachable: "erun sha epool_init es = Some s \<Longrightarrow> epool_inv sha s"
  by (rule ep.machine_inv [OF _ epool_inv_init])

section \<open>What the pool promises\<close>

text \<open>
  C16: a pooled ETag writer serves one request at a time. However the requests interleave, two
  requests in their handlers never hold the same writer, the writer of a request holds exactly
  what that request has written, and every tag computed or sent is the hash of the page of its
  own request.
\<close>

theorem etag_tags_own_page:
  assumes "erun sha epool_init es = Some s"
  shows "(\<forall>t u w a b. ep_reqs s t = EHandling w a \<and> ep_reqs s u = EHandling w b \<longrightarrow> t = u) \<and>
    (\<forall>t w own. ep_reqs s t = EHandling w own \<longrightarrow>
       (\<exists>pw. ep_writers s w = Some pw \<and> take (pw_len pw) (ep_arrays s (pw_arr pw)) = own)) \<and>
    (\<forall>t tag a n own. ep_reqs s t = EReady tag a n own \<longrightarrow> tag = sha own) \<and>
    (\<forall>t tag body own. ep_reqs s t = ESent tag body own \<longrightarrow> tag = sha own)"
proof (intro conjI allI impI)
  note inv = epool_reachable [OF assms]
  show "t = u" if "ep_reqs s t = EHandling w a \<and> ep_reqs s u = EHandling w b" for t u w a b
    using that by (intro one_user [OF inv, of _ w]) (auto simp: handling_def)
  show "\<exists>pw. ep_writers s w = Some pw \<and> take (pw_len pw) (ep_arrays s (pw_arr pw)) = own"
    if "ep_reqs s t = EHandling w own" for t w own
    using handling_holds [OF inv that] by (auto simp: writer_holds_def)
  show "tag = sha own" if "ep_reqs s t = EReady tag a n own" for t tag a n own
    using invD(4) [OF inv] that by (auto simp: tags_own_def)
  show "tag = sha own" if "ep_reqs s t = ESent tag body own" for t tag body own
    using invD(4) [OF inv] that by (auto simp: tags_own_def)
qed

lemmas erun_simps = epool_init_def pool_take_def pooled_reset_def buf_write_def new_capacity_def
  give_back_def set_req_def Let_def

lemma demo_pool_run:
  "\<exists>s. erun sha epool_init [EGet 0 None, EWrite 0 ''aaaa'', EFinish 0, EGet 1 (Some 0), EWrite 1 ''bb'', ESend 0] = Some s \<and>
     ep_reqs s 0 = ESent (sha ''aaaa'') ''bbaa'' ''aaaa'' \<and> ep_reqs s 1 = EHandling 0 ''bb''"
  by (simp add: erun_simps)

theorem etag_tags_own_page_witness:
  "\<exists>s. erun id epool_init [EGet 0 None, EWrite 0 ''aaaa'', EFinish 0, EGet 1 (Some 0), EWrite 1 ''bb'', ESend 0] = Some s \<and>
     (\<forall>t tag body own. ep_reqs s t = ESent tag body own \<longrightarrow> tag = own)"
proof -
  from demo_pool_run [of id] obtain s where
    s: "erun id epool_init [EGet 0 None, EWrite 0 ''aaaa'', EFinish 0, EGet 1 (Some 0), EWrite 1 ''bb'', ESend 0] = Some s"
    by blast
  with etag_tags_own_page [OF s] show ?thesis by simp
qed

text \<open>
  A request that sends as soon as it has given its writer back sends its own page under its
  own tag, whatever the other requests have done with the pool before: with no request between
  the two steps, pooled writers are as good as fresh ones.
\<close>

theorem etag_sends_own_page:
  assumes "erun sha epool_init es = Some s" "ep_reqs s t = EHandling w own"
  shows "\<exists>s1 s2. estep sha s (EFinish t) = Some s1 \<and> estep sha s1 (ESend t) = Some s2 \<and>
    ep_reqs s2 t = ESent (sha own) own own"
  using handling_holds [OF epool_reachable [OF assms(1)] assms(2)] assms(2)
  by (auto simp: writer_holds_def)

theorem etag_sends_own_page_witness:
  "\<exists>s s1 s2. erun id epool_init [EGet 0 None, EWrite 0 ''aaaa'', EFinish 0, EGet 1 (Some 0), EWrite 1 ''bb'', ESend 0] = Some s \<and>
     estep id s (EFinish 1) = Some s1 \<and> estep id s1 (ESend 1) = Some s2 \<and> ep_reqs s2 1 = ESent ''bb'' ''bb'' ''bb''"
proof -
  from demo_pool_run [of id] obtain s where
    s: "erun id epool_init [EGet 0 None, EWrite 0 ''aaaa'', EFinish 0, EGet 1 (Some 0), EWrite 1 ''bb'', ESend 0] = Some s"
    "ep_reqs s 1 = EHandling 0 ''bb''" by blast
  from etag_sends_own_page [OF s] s(1) show ?thesis by (metis id_apply)
qed

text \<open>
  The body of a page can be replaced by another's. The writer is given back before the body
  sliced off its buffer is sent; if another request takes it and writes in between, the first
  one sends the other's bytes under its own tag. (Here four bytes of which the other request has
  overwritten two.)
\<close>

theorem etag_body_overwritten:
  "\<exists>es s. erun sha epool_init es = Some s \<and> ep_reqs s 0 = ESent (sha ''aaaa'') ''bbaa'' ''aaaa''"
  using demo_pool_run [of sha] by blast

end
