(* ===== verification/Cli_Init.thy ===== *)
theory Cli_Init
  imports Cli
begin

text \<open>
  The dispatch of the command line tool, and \<open>revelt init\<close> (\<open>cmd/revelt/main.go\<close>,
  \<open>template.go\<close>): the placeholders' values, the directories and files it creates, in order,
  and the installation of dependencies. What the flag parser, the file system and the commands
  answer is an argument; progress messages are not modelled.
\<close>

section \<open>Dispatch\<close>

definition usage :: "string list" where
  "usage =
     [''Usage: revelt <command> [arguments]'',
      [], ''Commands:'',
      ''  init     Initialize a new revelt project'',
      ''  build    Build frontend assets (server and client bundles)'',
      ''  dev      Start the development environment (watcher + auto-reloading server)'',
      ''  generate Generate new components (shorthand: g)'',
      ''  clean    Purge compiled frontend assets, build caches, and dev binaries'',
      ''  update   Update framework files (build.mjs, render-server.js, client entry)'',
      ''  version  Print the revelt version'']"

datatype subcommand = SubInit | SubBuild | SubDev | SubGenerate | SubClean | SubUpdate

text \<open>\<open>main\<close>: \<open>run\<close> is what a subcommand does; the text is what \<open>main\<close> prints itself.\<close>

definition cli_main :: "(subcommand \<Rightarrow> cli_exit) \<Rightarrow> string list \<Rightarrow> string \<times> cli_exit" where
  "cli_main run args =
     (if length args < 2 then (text_lines usage, CliFail [])
      else
        (let cmd = args ! 1 in
         if cmd = ''init'' then ([], run SubInit)
         else if cmd = ''build'' then ([], run SubBuild)
         else if cmd = ''dev'' then ([], run SubDev)
         else if cmd = ''generate'' \<or> cmd = ''g'' then ([], run SubGenerate)
         else if cmd = ''clean'' then ([], run SubClean)
         else if cmd = ''update'' then ([], run SubUpdate)
         else if cmd = ''version'' then (''revelt v0.1.0'' @ [newline], CliOk)
         else (''Unknown subcommand: '' @ cmd @ [newline] @ text_lines usage, CliFail [])))"

text \<open>\<open>runDevCmd\<close>: the directories the development server is started on.\<close>

definition run_dev_cmd :: "(rune \<Rightarrow> bool) \<Rightarrow> project_config go \<Rightarrow> cli_exit \<times> (string \<times> string) option" where
  "run_dev_cmd ip loaded =
     (case load_valid ip loaded of
        Inl x \<Rightarrow> (x, None)
      | Inr c \<Rightarrow> (CliOk, Some (source_dir c, path_join [out_dir c, ''client''])))"

section \<open>Dependencies\<close>

definition package_managers :: "(string \<times> string list) list" where
  "package_managers =
     [(''bun'', [''install'']), (''pnpm'', [''install'']), (''yarn'', [''install'']), (''npm'', [''install''])]"

text \<open>
  \<open>found\<close> is whether \<open>exec.LookPath\<close> finds a program: the command run, if any, and its
  directory. A failure of the command is printed only.
\<close>

definition install_dependencies :: "(string \<Rightarrow> bool) \<Rightarrow> string \<Rightarrow> (string list \<times> string) option" where
  "install_dependencies found dir =
     (case find (\<lambda>m. found (fst m)) package_managers of
        None \<Rightarrow> None
      | Some (name, args) \<Rightarrow> Some (name # args, dir))"

section \<open>Options and placeholders of init\<close>

record init_opts =
  io_framework :: string
  io_dir :: string
  io_source_dir :: string
  io_component_dir :: string
  io_tailwind :: bool
  io_install :: bool

definition init_flag_defaults :: init_opts where
  "init_flag_defaults = \<lparr>io_framework = ''react'', io_dir = ''.'', io_source_dir = ''frontend'',
     io_component_dir = ''src/components'', io_tailwind = False, io_install = False\<rparr>"

definition init_css_parent :: "init_opts \<Rightarrow> string" where
  "init_css_parent o1 = path_dir (path_clean (io_component_dir o1))"

definition tailwind_deps :: "init_opts \<Rightarrow> string" where
  "tailwind_deps o1 =
     (let dep = (\<lambda>name version. '','' @ [newline] @ ''    '' @ quoted name @ '': '' @ quoted version) in
      if \<not> io_tailwind o1 then []
      else if to_lower (io_framework o1) = ''react''
      then dep ''tailwindcss'' ''^4.0.0'' @ dep ''@tailwindcss/postcss'' ''^4.0.0'' @ dep ''postcss'' ''^8.4.38''
      else dep ''tailwindcss'' ''^4.0.0'' @ dep ''@tailwindcss/vite'' ''^4.0.0'')"

definition tailwind_css_import :: "init_opts \<Rightarrow> string" where
  "tailwind_css_import o1 =
     (if io_tailwind o1 \<and> to_lower (io_framework o1) \<noteq> ''react'' then css_import (init_css_parent o1) else [])"

definition init_vars :: "init_opts \<Rightarrow> (string \<times> string) list" where
  "init_vars o1 =
     [(''SOURCE_DIR'', path_clean (io_source_dir o1)), (''COMPONENT_DIR'', io_component_dir o1),
      (''TAILWIND'', if io_tailwind o1 then ''true'' else ''false''), (''TAILWIND_DEPS'', tailwind_deps o1),
      (''TAILWIND_CSS_IMPORT'', tailwind_css_import o1),
      (''COMP_PARENT_PATH'', if init_css_parent o1 = ''.'' then [] else init_css_parent o1 @ ''/'')]"

section \<open>The project's files\<close>

text \<open>\<open>ReactTemplates\<close> and \<open>SvelteTemplates\<close>: template and output path.\<close>

definition in_source :: "string \<Rightarrow> string" where
  "in_source f = ''{{SOURCE_DIR}}/'' @ f"

definition in_components :: "string \<Rightarrow> string" where
  "in_components f = ''{{SOURCE_DIR}}/{{COMPONENT_DIR}}/'' @ f"

definition react_paths :: "(string \<times> string) list" where
  "react_paths =
     [(''templates/react/revelt.json.tpl'', ''revelt.json''),
      (''templates/react/package.json.tpl'', in_source ''package.json''),
      (''templates/react/tsconfig.json.tpl'', in_source ''tsconfig.json''),
      (''templates/react/global.d.ts.tpl'', in_source ''global.d.ts''),
      (''templates/react/revelt.types.d.ts.tpl'', in_source ''revelt.types.d.ts''),
      (''templates/react/components_Counter.tsx.tpl'', in_components ''Counter.tsx''),
      (''templates/react/components_Header.tsx.tpl'', in_components ''Header.tsx''),
      (''templates/react/components_ClientChart.tsx.tpl'', in_components ''ClientChart.tsx''),
      (''templates/react/client.tsx.tpl'', in_source ''client.tsx''),
      (''templates/react/render-server.js.tpl'', in_source ''render-server.js''),
      (''templates/react/build.mjs.tpl'', in_source ''build.mjs''),
      (''templates/react/main.go.tpl'', ''main.go''),
      (''templates/react/embed.go.tpl'', ''embed.go''),
      (''templates/react/go.mod.tpl'', ''go.mod'')]"

definition svelte_paths :: "(string \<times> string) list" where
  "svelte_paths =
     [(''templates/svelte/revelt.json.tpl'', ''revelt.json''),
      (''templates/svelte/package.json.tpl'', in_source ''package.json''),
      (''templates/svelte/tsconfig.json.tpl'', in_source ''tsconfig.json''),
      (''templates/svelte/global.d.ts.tpl'', in_source ''global.d.ts''),
      (''templates/svelte/revelt.types.d.ts.tpl'', in_source ''revelt.types.d.ts''),
      (''templates/svelte/components_Counter.svelte.tpl'', in_components ''Counter.svelte''),
      (''templates/svelte/components_Header.svelte.tpl'', in_components ''Header.svelte''),
      (''templates/svelte/components_ClientChart.svelte.tpl'', in_components ''ClientChart.svelte''),
      (''templates/svelte/client.ts.tpl'', in_source ''client.ts''),
      (''templates/svelte/render-server.js.tpl'', in_source ''render-server.js''),
      (''templates/svelte/build.mjs.tpl'', in_source ''build.mjs''),
      (''templates/svelte/main.go.tpl'', ''main.go''),
      (''templates/svelte/embed.go.tpl'', ''embed.go''),
      (''templates/svelte/go.mod.tpl'', ''go.mod'')]"

definition react_templates :: "(string \<Rightarrow> string go) \<Rightarrow> (string \<times> string) list \<Rightarrow> (string \<times> string) list outcome" where
  "react_templates files vars =
     (case render_templates files react_paths vars of
        Inl e \<Rightarrow> Panicked (err_msg (GWrap ''failed to render react templates'' e)) | Inr fs \<Rightarrow> Done fs)"

definition svelte_templates :: "(string \<Rightarrow> string go) \<Rightarrow> (string \<times> string) list \<Rightarrow> (string \<times> string) list outcome" where
  "svelte_templates files vars =
     (case render_templates files svelte_paths vars of
        Inl e \<Rightarrow> Panicked (err_msg (GWrap ''failed to render svelte templates'' e)) | Inr fs \<Rightarrow> Done fs)"

section \<open>Creating the project\<close>

text \<open>
  A call on the file system, with the message that ends the run if it fails; \<open>None\<close> where the
  code ignores the error.
\<close>

datatype fs_op = MkdirAll string | WriteFile string string

type_synonym plan = "(fs_op \<times> string option) list"

fun run_plan :: "(fs_op \<Rightarrow> goerr option) \<Rightarrow> plan \<Rightarrow> cli_exit \<times> fs_op list" where
  "run_plan os [] = (CliOk, [])"
| "run_plan os ((op1, msg) # rest) =
     (case os op1 of
        None \<Rightarrow> apsnd (Cons op1) (run_plan os rest)
      | Some e \<Rightarrow>
          (case msg of
             Some m \<Rightarrow> (CliFail (err_msg (GWrap m e)), [])
           | None \<Rightarrow> run_plan os rest))"

text \<open>The directories and placeholder files that \<open>go:embed\<close> needs.\<close>

definition embed_plan :: "string \<Rightarrow> init_opts \<Rightarrow> plan" where
  "embed_plan index_page o1 =
     (let sd = io_source_dir o1; client = path_join [io_dir o1, sd, ''dist'', ''client''];
          dist = path_join [io_dir o1, sd, ''dist'']
      in [(MkdirAll sd, Some (''Error creating directory '' @ sd)),
          (MkdirAll client, Some ''Error creating distribution folders''),
          (WriteFile (path_join [client, ''index.html'']) index_page, Some ''Error writing distribution index file''),
          (WriteFile (path_join [io_dir o1, sd, ''index.html'']) index_page, Some ''Error writing template index file''),
          (WriteFile (path_join [dist, ''render-server.cjs'']) (''// placeholder'' @ [newline]),
             Some ''Error writing placeholder render-server file'')])"

definition tailwind_plan :: "init_opts \<Rightarrow> plan" where
  "tailwind_plan o1 =
     (let dir = (if init_css_parent o1 = ''.'' then path_join [io_dir o1, io_source_dir o1]
                 else path_join [io_dir o1, io_source_dir o1, init_css_parent o1])
      in (if \<not> io_tailwind o1 then []
          else [(MkdirAll dir, None),
                (WriteFile (path_join [dir, ''app.css'']) (''@import '' @ quoted ''tailwindcss'' @ '';'' @ [newline]),
                   Some ''Error writing app.css file'')]
               @ (if to_lower (io_framework o1) = ''react''
                  then [(WriteFile (path_join [io_dir o1, io_source_dir o1, ''postcss.config.js''])
                           (text_lines [''export default {'', ''  plugins: {'',
                              ''    '' @ squoted ''@tailwindcss/postcss'' @ '': {},'', ''  },'', ''};'']),
                         Some ''Error writing postcss.config.js file'')]
                  else [])))"

definition template_plan :: "string \<Rightarrow> (string \<times> string) list \<Rightarrow> plan" where
  "template_plan dir fs = concat (map (\<lambda>(path, content).
     (let full = path_join [dir, path] in
      [(MkdirAll (path_dir full), Some (''Error creating directory '' @ path_dir full)),
       (WriteFile full content, Some (''Error writing file '' @ full))])) fs)"

text \<open>\<open>runInit\<close>: how it ends, what it did on the file system, and the command it ran.\<close>

definition run_init ::
  "(string \<Rightarrow> string go) \<Rightarrow> string \<Rightarrow> (fs_op \<Rightarrow> goerr option) \<Rightarrow> (string \<Rightarrow> bool) \<Rightarrow> init_opts go \<Rightarrow>
   cli_exit \<times> fs_op list \<times> (string list \<times> string) option" where
  "run_init files index_page os found flags =
     (case flags of
        Inl e \<Rightarrow> (CliFail (err_msg (GWrap ''Error parsing flags'' e)), [], None)
      | Inr o1 \<Rightarrow>
          (let fw = to_lower (io_framework o1) in
           if fw \<noteq> ''react'' \<and> fw \<noteq> ''svelte''
           then (CliFail (''Error: framework must be either '' @ squoted ''react'' @ '' or '' @ squoted ''svelte''), [], None)
           else case run_plan os (embed_plan index_page o1 @ tailwind_plan o1) of
               (CliOk, ops) \<Rightarrow>
                 (case (if fw = ''react'' then react_templates else svelte_templates) files (init_vars o1) of
                    Panicked m \<Rightarrow> (CliPanic m, ops, None)
                  | Done fs \<Rightarrow>
                      (case run_plan os (template_plan (io_dir o1) fs) of
                         (CliOk, ops2) \<Rightarrow>
                           (CliOk, ops @ ops2,
                            if io_install o1
                            then install_dependencies found (path_join [io_dir o1, io_source_dir o1]) else None)
                       | (x, ops2) \<Rightarrow> (x, ops @ ops2, None)))
             | (x, ops) \<Rightarrow> (x, ops, None)))"

end
