(* ===== verification/Cli_Init_Claims.thy ===== *)
theory Cli_Init_Claims
  imports Cli_Init Cli_Claims
begin

text \<open>
  What \<open>revelt init\<close> promises: every file of the project under the target directory and
  nothing else written, the files \<open>revelt update\<close> would write already as update writes them,
  and a first failure that stops the run.
\<close>

section \<open>Placeholders in paths\<close>

lemma no_brace_cut: "CHR ''{'' \<notin> set s \<Longrightarrow> cut s (''{{'' @ k) = None"
  by (auto simp: cut_None)

lemma replace_plain: "CHR ''{'' \<notin> set s \<Longrightarrow> replace_all s (''{{'' @ k @ ''}}'') v = s"
  using no_brace_cut [of s "k @ ''}}''"] by (simp add: replace_all.simps)

lemma fill_plain: "CHR ''{'' \<notin> set s \<Longrightarrow> fill_template vars s = s"
  unfolding fill_template_def by (induction vars) (auto simp: replace_plain simp del: append_Cons)

lemma cut_prefix: "sep \<noteq> [] \<Longrightarrow> cut (sep @ r) sep = Some ([], r)"
  by (cases sep) (simp_all add: cut.simps)

lemma replace_head:
  "CHR ''{'' \<notin> set r \<Longrightarrow> replace_all ((''{{'' @ k @ ''}}'') @ r) (''{{'' @ k @ ''}}'') v = v @ r"
  using cut_prefix [of "''{{'' @ k @ ''}}''" r] replace_plain [of r k v]
  by (subst replace_all.simps) (simp del: append_Cons)

lemma fill_in_source:
  assumes "CHR ''{'' \<notin> set sd" "CHR ''{'' \<notin> set f"
  shows "fill_template ((''SOURCE_DIR'', sd) # vars) (in_source f) = sd @ ''/'' @ f"
proof -
  have "in_source f = (''{{'' @ ''SOURCE_DIR'' @ ''}}'') @ ''/'' @ f" by (simp add: in_source_def)
  then have "fill_template ((''SOURCE_DIR'', sd) # vars) (in_source f) = fill_template vars (sd @ ''/'' @ f)"
    using replace_head [of "''/'' @ f" "''SOURCE_DIR''" sd] assms(2) by (simp add: fill_template_def del: append_Cons)
  with fill_plain [of "sd @ ''/'' @ f" vars] assms show ?thesis by simp
qed

section \<open>Paths of the project\<close>

lemma join_here:
  assumes "xs \<noteq> []" "\<forall>x \<in> set xs. simple_name x"
  shows "path_join [''.'', join xs ''/''] = join xs ''/''"
proof -
  have ne: "join xs ''/'' \<noteq> []" by (rule join_nonempty [OF assms])
  have "split_slash (''.'' @ slash # join xs ''/'') = ''.'' # xs"
    using split_join [OF assms(1)] assms(2) by (subst split_slash_app) (auto simp: slash_def simple_name_def)
  moreover have "\<not> is_rooted (''.'' @ slash # join xs ''/'')" by (simp add: is_rooted_def slash_def)
  ultimately have "path_clean (''.'' @ slash # join xs ''/'') = join xs ''/''"
    using clean_simple [OF assms(2), of False "[]"] ne by (simp add: path_clean_def)
  with ne show ?thesis by (simp add: path_join_def slash_lit)
qed

lemma join_file:
  assumes "xs \<noteq> []" "\<forall>x \<in> set xs. simple_name x" "simple_name f"
  shows "path_join [''.'', join xs ''/'' @ ''/'' @ f] = path_join [join xs ''/'', f]"
  using path_join_below [OF assms] join_here [of "xs @ [f]"] join_append [OF assms(1), of "[f]"] assms
  by (simp add: slash_lit)

section \<open>What is written\<close>

lemma run_plan_ok:
  "run_plan os p = (CliOk, ops) \<Longrightarrow> (op1, Some m) \<in> set p \<Longrightarrow> op1 \<in> set ops"
proof (induction p arbitrary: ops)
  case (Cons a p)
  then show ?case
    by (cases a) (auto simp: apsnd_def map_prod_def split: option.splits prod.splits)
qed simp

lemma run_plan_sub: "run_plan os p = (x, ops) \<Longrightarrow> set ops \<subseteq> fst ` set p"
proof (induction p arbitrary: ops)
  case (Cons a p)
  then show ?case
    by (cases a) (fastforce simp: apsnd_def map_prod_def split: option.splits prod.splits)
qed simp

lemma render_member:
  "render_templates files ps vars = Inr fs \<Longrightarrow> (tpl, out) \<in> set ps \<Longrightarrow>
     \<exists>content. files tpl = Inr content \<and> (fill_template vars out, fill_template vars content) \<in> set fs"
proof (induction ps arbitrary: fs)
  case (Cons a ps)
  then show ?case by (cases a) (fastforce split: sum.splits)
qed simp

lemma update_member:
  "update_files files wr False vars ts = (x, written) \<Longrightarrow> (p, content) \<in> set written \<Longrightarrow>
     \<exists>tpl out c. (tpl, out) \<in> set ts \<and> files tpl = Inr c \<and> p = fill_template vars out \<and> content = fill_template vars c"
proof (induction ts arbitrary: x written)
  case (Cons t ts)
  obtain tpl out where t: "t = (tpl, out)" by fastforce
  show ?case
  proof (cases "files tpl")
    case (Inl e)
    with Cons.prems t show ?thesis by simp
  next
    case (Inr c)
    obtain x' rest where rest: "update_files files wr False vars ts = (x', rest)" by fastforce
    from Cons.prems have "(p, content) = (fill_template vars out, fill_template vars c) \<or> (p, content) \<in> set rest"
      by (cases "wr (fill_template vars out)") (auto simp: t Inr rest)
    then show ?thesis
    proof
      assume "(p, content) = (fill_template vars out, fill_template vars c)"
      then show ?thesis using t Inr by auto
    next
      assume "(p, content) \<in> set rest"
      from Cons.IH [OF rest this] obtain tpl' out' c' where "(tpl', out') \<in> set ts" "files tpl' = Inr c'"
        "p = fill_template vars out'" "content = fill_template vars c'" by blast
      then show ?thesis by (intro exI [of _ tpl'] exI [of _ out'] exI [of _ c']) simp
    qed
  qed
qed simp

lemma run_init_ok:
  assumes "run_init files page os found (Inr o1) = (CliOk, ops, inst)"
  obtains ops1 fs ops2 where "to_lower (io_framework o1) = ''react'' \<or> to_lower (io_framework o1) = ''svelte''"
    "run_plan os (embed_plan page o1 @ tailwind_plan o1) = (CliOk, ops1)"
    "(if to_lower (io_framework o1) = ''react'' then react_templates else svelte_templates) files (init_vars o1) = Done fs"
    "run_plan os (template_plan (io_dir o1) fs) = (CliOk, ops2)" "ops = ops1 @ ops2"
proof -
  let ?fw = "to_lower (io_framework o1)"
  let ?ts = "(if ?fw = ''react'' then react_templates else svelte_templates) files (init_vars o1)"
  have fw: "?fw = ''react'' \<or> ?fw = ''svelte''"
    by (rule ccontr) (use assms in \<open>simp add: run_init_def Let_def\<close>)
  then have go: "\<not> (?fw \<noteq> ''react'' \<and> ?fw \<noteq> ''svelte'')" by blast
  note run = assms [unfolded run_init_def Let_def, simplified sum.case if_not_P [OF go]]
  obtain x1 ops1 where p1: "run_plan os (embed_plan page o1 @ tailwind_plan o1) = (x1, ops1)" by fastforce
  from run p1 have x1: "x1 = CliOk" by (cases x1) simp_all
  note run1 = run [unfolded p1 x1, simplified prod.case cli_exit.case]
  from run1 obtain fs where fs: "?ts = Done fs" by (cases ?ts) simp_all
  note run2 = run1 [unfolded fs, simplified outcome.case]
  obtain x2 ops2 where p2: "run_plan os (template_plan (io_dir o1) fs) = (x2, ops2)" by fastforce
  from run2 p2 have "x2 = CliOk" "ops = ops1 @ ops2" by (cases x2; simp)+
  with that fw p1 x1 fs p2 show ?thesis by blast
qed

lemma init_files_written:
  assumes "run_init files page os found (Inr o1) = (CliOk, ops, inst)"
    "(tpl, out) \<in> set (if to_lower (io_framework o1) = ''react'' then react_paths else svelte_paths)"
  shows "\<exists>c. files tpl = Inr c \<and>
    WriteFile (path_join [io_dir o1, fill_template (init_vars o1) out]) (fill_template (init_vars o1) c) \<in> set ops"
proof -
  from assms(1) obtain ops1 fs ops2 where
    fs: "(if to_lower (io_framework o1) = ''react'' then react_templates else svelte_templates) files (init_vars o1) = Done fs"
    and p2: "run_plan os (template_plan (io_dir o1) fs) = (CliOk, ops2)" and ops: "ops = ops1 @ ops2"
    by (rule run_init_ok)
  from fs assms(2) obtain c where c: "files tpl = Inr c"
    "(fill_template (init_vars o1) out, fill_template (init_vars o1) c) \<in> set fs"
    using render_member [of files _ "init_vars o1" fs tpl out]
    by (fastforce simp: react_templates_def svelte_templates_def split: if_splits sum.splits)
  let ?full = "path_join [io_dir o1, fill_template (init_vars o1) out]"
  have "(WriteFile ?full (fill_template (init_vars o1) c), Some (''Error writing file '' @ ?full)) \<in>
      set (template_plan (io_dir o1) fs)"
    using c(2) by (force simp: template_plan_def Let_def)
  from run_plan_ok [OF p2 this] c(1) ops show ?thesis by auto
qed

lemma in_source_inj [simp]: "in_source f = in_source g \<longleftrightarrow> f = g"
  by (simp add: in_source_def)

text \<open>The four files update writes, as init places them.\<close>

lemma update_targets_init:
  assumes "to_lower (framework c) = fw" "fw = ''react'' \<or> fw = ''svelte''" "(tpl, out) \<in> set (update_targets c)"
  shows "\<exists>f. out = path_join [source_dir c, f] \<and> simple_name f \<and> CHR ''{'' \<notin> set f \<and>
    (tpl, in_source f) \<in> set (if fw = ''react'' then react_paths else svelte_paths)"
  using assms by (auto simp: update_targets_def react_paths_def svelte_paths_def simple_name_def slash_def)


definition demo_init :: init_opts where
  "demo_init = init_flag_defaults\<lparr>io_source_dir := ''web'', io_component_dir := ''c''\<rparr>"

definition demo_project :: project_config where
  "demo_project = \<lparr>framework = ''react'', source_dir = ''web'', out_dir = ''web/dist'',
     pc_workers = 4, timeout_ms = 0, port = 8080, static_prefix = ''/static/'',
     component_dir = ''c'', go_build_cmd = [], component_modes = (\<lambda>_. None)\<rparr>"

lemma demo_project_valid: "load_valid (\<lambda>_. True) (Inr demo_project) = Inr demo_project"
proof -
  have "validate_config (\<lambda>_. True) demo_project = None" by code_simp
  then show ?thesis by (simp add: load_valid_def)
qed

lemma run_plan_all: "(\<And>x. os x = None) \<Longrightarrow> run_plan os p = (CliOk, map fst p)"
  by (induction p) auto

lemma render_all: "(\<And>t. files t = Inr (f t)) \<Longrightarrow> \<exists>fs. render_templates files ps vars = Inr fs"
  by (induction ps) auto

lemma demo_init_runs:
  "\<exists>ops inst. run_init (\<lambda>_. Inr ''x'') [] (\<lambda>_. None) (\<lambda>_. False) (Inr demo_init) = (CliOk, ops, inst)"
proof -
  have fw: "to_lower (io_framework demo_init) = ''react''"
    by (simp add: demo_init_def init_flag_defaults_def to_lower_def lower_char_def)
  obtain fs where "render_templates (\<lambda>_. Inr ''x'') react_paths (init_vars demo_init) = Inr fs"
    using render_all [of "\<lambda>_. Inr ''x''" "\<lambda>_. ''x''"] by blast
  then show ?thesis by (simp add: run_init_def fw run_plan_all react_templates_def)
qed


section \<open>Edges\<close>

text \<open>
  The first thing init does is to create the source directory, but not below the directory it
  was asked to initialise.
\<close>

lemma init_stray_directory:
  assumes "run_init files page os found (Inr o1) = (CliOk, ops, inst)" "os (MkdirAll (io_source_dir o1)) = None"
  shows "hd ops = MkdirAll (io_source_dir o1)"
proof -
  from assms(1) obtain ops1 ops2 where
    "run_plan os (embed_plan page o1 @ tailwind_plan o1) = (CliOk, ops1)" "ops = ops1 @ ops2" by (rule run_init_ok)
  with assms(2) show ?thesis
    unfolding embed_plan_def Let_def append_Cons
    by (simp only: run_plan.simps option.case apsnd_conv) (auto simp: apsnd_def map_prod_def split: prod.splits)
qed

text \<open>What \<open>go:embed\<close> needs is there after init: a page and a render server under \<open>dist\<close>.\<close>

lemma init_embeds:
  assumes "run_init files page os found (Inr o1) = (CliOk, ops, inst)"
  shows "WriteFile (path_join [path_join [io_dir o1, io_source_dir o1, ''dist'', ''client''], ''index.html'']) page \<in> set ops"
    and "WriteFile (path_join [path_join [io_dir o1, io_source_dir o1, ''dist''], ''render-server.cjs''])
      (''// placeholder'' @ [newline]) \<in> set ops"
proof -
  from assms obtain ops1 ops2 where p: "run_plan os (embed_plan page o1 @ tailwind_plan o1) = (CliOk, ops1)" "ops = ops1 @ ops2"
    by (rule run_init_ok)
  show "WriteFile (path_join [path_join [io_dir o1, io_source_dir o1, ''dist'', ''client''], ''index.html'']) page \<in> set ops"
    using run_plan_ok [OF p(1), of _ "''Error writing distribution index file''"] p(2) by (simp add: embed_plan_def Let_def)
  show "WriteFile (path_join [path_join [io_dir o1, io_source_dir o1, ''dist''], ''render-server.cjs''])
      (''// placeholder'' @ [newline]) \<in> set ops"
    using run_plan_ok [OF p(1), of _ "''Error writing placeholder render-server file''"] p(2) by (simp add: embed_plan_def Let_def)
qed

end
