(* ===== verification/Dev.thy ===== *)
theory Dev
  imports Steps Config
begin

text \<open>
  The development server of the command line tool (\<open>cmd/revelt/dev.go\<close>): the loop that
  builds, starts and restarts the Go server, as a machine over the events of its goroutines;
  the debounced watchers; the snapshots of files they compare.
\<close>

section \<open>The restart loop\<close>

text \<open>
  Where \<open>runGoWithRestart\<close> stands: at its \<open>select\<close>, in \<open>killProcess\<close> waiting for the
  process (on the way out or on the way to a build), building (\<open>True\<close> if the context had
  ended before the build began), about to start the binary, about to remove it, returned.
\<close>

datatype dev_pc =
    AtSelect
  | KillingToReturn
  | KillingToBuild
  | Building bool
  | Starting
  | Removing
  | Returned

text \<open>
  \<open>d_cmd\<close> is the process in \<open>cmd\<close>, \<open>d_alive\<close> the server processes running, \<open>d_waits\<close>
  the goroutines in \<open>c.Wait()\<close>, \<open>d_exited\<close> the channel \<open>processExited\<close> (capacity 1),
  \<open>d_tokens\<close> the fill of the channel \<open>restart\<close> (capacity 2), \<open>d_ended\<close> whether the context
  is cancelled, \<open>d_binary\<close> whether the binary exists.
\<close>

record dev =
  d_pc :: dev_pc
  d_cmd :: "nat option"
  d_alive :: "nat set"
  d_waits :: "nat set"
  d_exited :: "nat list"
  d_tokens :: nat
  d_ended :: bool
  d_binary :: bool
  d_next :: nat

text \<open>\<open>select { case restart <- struct{}{}: default: }\<close>\<close>

definition send_restart :: "dev \<Rightarrow> dev" where
  "send_restart s = s\<lparr>d_tokens := (if d_tokens s < 2 then d_tokens s + 1 else d_tokens s)\<rparr>"

text \<open>The state at the loop, after the initial send.\<close>

definition dev_init :: dev where
  "dev_init = send_restart \<lparr>d_pc = AtSelect, d_cmd = None, d_alive = {}, d_waits = {}, d_exited = [],
     d_tokens = 0, d_ended = False, d_binary = False, d_next = 0\<rparr>"

datatype dev_event =
    VChange               \<comment> \<open>a watcher sends on \<open>restart\<close>\<close>
  | VEnd                  \<comment> \<open>the context is cancelled\<close>
  | VExit nat             \<comment> \<open>a server process ends by itself\<close>
  | VReport nat           \<comment> \<open>its \<open>Wait\<close> returns and is sent on \<open>processExited\<close>\<close>
  | VSelectDone           \<comment> \<open>\<open>case <-ctx.Done()\<close>, the kill\<close>
  | VSelectExited         \<comment> \<open>\<open>case err := <-processExited\<close>\<close>
  | VSelectRestart        \<comment> \<open>\<open>case <-restart\<close>, the kill\<close>
  | VReceive              \<comment> \<open>\<open>killProcess\<close> receives\<close>
  | VBuilt bool           \<comment> \<open>the build ends, with success or not\<close>
  | VStarted bool         \<comment> \<open>\<open>cmd.Start()\<close> returns\<close>
  | VRemove               \<comment> \<open>the binary is removed, return\<close>

definition kill :: "nat \<Rightarrow> dev \<Rightarrow> dev" where
  "kill p s = s\<lparr>d_alive := d_alive s - {p}\<rparr>"

fun dstep :: "dev \<Rightarrow> dev_event \<Rightarrow> dev option" where
  "dstep s VChange = Some (send_restart s)"
| "dstep s VEnd = Some (s\<lparr>d_ended := True\<rparr>)"
| "dstep s (VExit p) = (if p \<in> d_alive s then Some (kill p s) else None)"
| "dstep s (VReport p) =
     (if p \<in> d_waits s \<and> p \<notin> d_alive s \<and> d_exited s = []
      then Some (s\<lparr>d_waits := d_waits s - {p}, d_exited := [p]\<rparr>) else None)"
| "dstep s VSelectDone =
     (if d_pc s = AtSelect \<and> d_ended s
      then Some (case d_cmd s of
          Some p \<Rightarrow> kill p s\<lparr>d_pc := KillingToReturn\<rparr>
        | None \<Rightarrow> s\<lparr>d_pc := Removing\<rparr>)
      else None)"
| "dstep s VSelectExited =
     (if d_pc s = AtSelect \<and> d_exited s \<noteq> []
      then (let s1 = s\<lparr>d_exited := tl (d_exited s), d_cmd := None\<rparr>
            in Some (if \<not> d_ended s then send_restart s1 else s1))
      else None)"
| "dstep s VSelectRestart =
     (if d_pc s = AtSelect \<and> d_tokens s > 0
      then (let s1 = s\<lparr>d_tokens := d_tokens s - 1\<rparr>
            in Some (case d_cmd s of
                Some p \<Rightarrow> kill p s1\<lparr>d_pc := KillingToBuild\<rparr>
              | None \<Rightarrow> s1\<lparr>d_pc := Building (d_ended s)\<rparr>))
      else None)"
| "dstep s VReceive =
     (if d_exited s = [] then None
      else (let s1 = s\<lparr>d_exited := tl (d_exited s), d_cmd := None\<rparr>
            in case d_pc s of
                KillingToReturn \<Rightarrow> Some (s1\<lparr>d_pc := Removing\<rparr>)
              | KillingToBuild \<Rightarrow> Some (s1\<lparr>d_pc := Building (d_ended s)\<rparr>)
              | _ \<Rightarrow> None))"
| "dstep s (VBuilt ok) =
     (case d_pc s of
        Building ended \<Rightarrow>
          if ok then (if ended then None else Some (s\<lparr>d_pc := Starting, d_binary := True\<rparr>))
          else Some (s\<lparr>d_pc := AtSelect\<rparr>)
      | _ \<Rightarrow> None)"
| "dstep s (VStarted ok) =
     (if d_pc s = Starting
      then Some (if ok
          then s\<lparr>d_pc := AtSelect, d_cmd := Some (d_next s), d_alive := insert (d_next s) (d_alive s),
                 d_waits := insert (d_next s) (d_waits s), d_next := d_next s + 1\<rparr>
          else s\<lparr>d_pc := AtSelect\<rparr>)
      else None)"
| "dstep s VRemove = (if d_pc s = Removing then Some (s\<lparr>d_pc := Returned, d_binary := False\<rparr>) else None)"

fun drun :: "dev \<Rightarrow> dev_event list \<Rightarrow> dev option" where
  "drun s [] = Some s"
| "drun s (e # es) = (case dstep s e of None \<Rightarrow> None | Some s' \<Rightarrow> drun s' es)"

section \<open>Snapshots of files\<close>

text \<open>
  A snapshot lists paths with modification times or hashes (a Go map, in some order, each path
  once). A path that is missing from a map reads as the zero value.
\<close>

definition snapshot_get :: "(string \<times> nat) list \<Rightarrow> string \<Rightarrow> nat" where
  "snapshot_get m path = (case map_of m path of Some v \<Rightarrow> v | None \<Rightarrow> 0)"

definition has_file_changed :: "(string \<times> nat) list \<Rightarrow> (string \<times> nat) list \<Rightarrow> bool" where
  "has_file_changed prev current =
     (if length current \<noteq> length prev then True
      else list_ex (\<lambda>(path, v). snapshot_get prev path \<noteq> v) current)"

definition skipped_dirs :: "string set" where
  "skipped_dirs = {''node_modules'', ''dist'', ''build'', ''bin'', ''tmp'', ''temp'', ''vendor'', ''coverage''}"

text \<open>
  The walk of \<open>collectMtimes\<close> and \<open>collectHashes\<close>: \<open>info\<close> is the modification time or the
  hash of the content, if it can be had.
\<close>

fun collect ::
    "(string \<Rightarrow> string \<Rightarrow> bool) \<Rightarrow> ((string \<times> goerr option) go \<Rightarrow> nat option) \<Rightarrow> string \<Rightarrow>
     string \<Rightarrow> string \<Rightarrow> fsnode \<Rightarrow> (string \<times> nat) list"
and collect_list ::
    "(string \<Rightarrow> string \<Rightarrow> bool) \<Rightarrow> ((string \<times> goerr option) go \<Rightarrow> nat option) \<Rightarrow> string \<Rightarrow>
     string \<Rightarrow> (string \<times> fsnode) list \<Rightarrow> (string \<times> nat) list" where
  "collect match info base path name (FFile content) =
     (if match path name then (case info content of Some v \<Rightarrow> [(path, v)] | None \<Rightarrow> []) else [])"
| "collect match info base path name (FDir es err) =
     (if path = base then collect_list match info base path es
      else if has_prefix name ''.'' then []
      else if name \<in> skipped_dirs then []
      else collect_list match info base path es)"
| "collect_list match info base path [] = []"
| "collect_list match info base path ((name, node) # es) =
     collect match info base (path_join [path, name]) name node @ collect_list match info base path es"

definition collect_files ::
  "(string \<Rightarrow> string \<Rightarrow> bool) \<Rightarrow> ((string \<times> goerr option) go \<Rightarrow> nat option) \<Rightarrow> sys_fs \<Rightarrow> string \<Rightarrow> (string \<times> nat) list" where
  "collect_files match info fs base =
     (case fs base of Inl e \<Rightarrow> [] | Inr (name, node) \<Rightarrow> collect match info base base name node)"

definition match_client_asset :: "string \<Rightarrow> string \<Rightarrow> bool" where
  "match_client_asset path name \<longleftrightarrow> path_ext path \<in> {''.js'', ''.css'', ''.html'', ''.map''}"

definition match_go_source :: "string \<Rightarrow> string \<Rightarrow> bool" where
  "match_go_source path name \<longleftrightarrow> path_ext path = ''.go'' \<or> name = ''revelt.json''"

section \<open>Watchers\<close>

text \<open>
  One tick of a watcher at time \<open>now\<close> (nanoseconds), with the files it finds: its new state
  and whether it sends a restart. \<open>differs\<close> compares snapshots, by content for the client
  assets and by time for the Go sources.
\<close>

record 'v watcher =
  w_files :: "(string \<times> 'v) list"
  w_pending :: bool
  w_changed_at :: int

definition go_restart_debounce :: int where
  "go_restart_debounce = 300000000"

definition watch_tick ::
  "((string \<times> 'v) list \<Rightarrow> (string \<times> 'v) list \<Rightarrow> bool) \<Rightarrow> (string \<times> 'v) list \<Rightarrow> int \<Rightarrow> 'v watcher \<Rightarrow> 'v watcher \<times> bool" where
  "watch_tick differs current now s =
     (let s1 = (if differs (w_files s) current
                then s\<lparr>w_files := current, w_pending := True, w_changed_at := now\<rparr> else s)
      in if w_pending s1 \<and> now - w_changed_at s1 \<ge> go_restart_debounce
         then (s1\<lparr>w_pending := False\<rparr>, True) else (s1, False))"

text \<open>A watcher over time: files found and time of each tick, and whether each sends a restart.\<close>

fun watch_ticks ::
  "((string \<times> 'v) list \<Rightarrow> (string \<times> 'v) list \<Rightarrow> bool) \<Rightarrow> ((string \<times> 'v) list \<times> int) list \<Rightarrow> 'v watcher \<Rightarrow>
   'v watcher \<times> bool list" where
  "watch_ticks differs [] s = (s, [])"
| "watch_ticks differs ((files, now) # ts) s =
     (let (s1, sent) = watch_tick differs files now s; (s2, rest) = watch_ticks differs ts s1 in (s2, sent # rest))"

text \<open>The two watchers, from the snapshot they begin with.\<close>

definition watch_go_sources :: "(string \<times> nat) list \<Rightarrow> ((string \<times> nat) list \<times> int) list \<Rightarrow> bool list" where
  "watch_go_sources first ticks =
     snd (watch_ticks has_file_changed ticks \<lparr>w_files = first, w_pending = False, w_changed_at = 0\<rparr>)"

text \<open>
  \<open>hasFileChangedByHash\<close>: the values are SHA-256 sums; a path missing from the snapshot reads as
  the sum of 32 zero bytes.
\<close>

definition hash_get :: "(string \<times> string) list \<Rightarrow> string \<Rightarrow> string" where
  "hash_get m path = (case map_of m path of Some h \<Rightarrow> h | None \<Rightarrow> replicate 32 (CHR 0x00))"

definition has_file_changed_by_hash :: "(string \<times> string) list \<Rightarrow> (string \<times> string) list \<Rightarrow> bool" where
  "has_file_changed_by_hash prev current =
     (if length current \<noteq> length prev then True
      else list_ex (\<lambda>(path, h). hash_get prev path \<noteq> h) current)"

definition watch_client_assets :: "(string \<times> string) list \<Rightarrow> ((string \<times> string) list \<times> int) list \<Rightarrow> bool list" where
  "watch_client_assets first ticks =
     snd (watch_ticks has_file_changed_by_hash ticks \<lparr>w_files = first, w_pending = False, w_changed_at = 0\<rparr>)"

end
