(* ===== verification/Dev_Claims.thy ===== *)
theory Dev_Claims
  imports Dev
begin

text \<open>
  What the development server promises: never two server processes at once, none while a build
  runs, none left behind on return, and a way out of the loop in boundedly many of its steps
  once the context ends. The loop is a guarded machine of theory Steps.
\<close>

section \<open>The loop as a guarded machine\<close>

text \<open>The process in \<open>cmd\<close> is the one somebody waits for or whose end is in the channel.\<close>

definition tracked :: "dev \<Rightarrow> bool" where
  "tracked s \<longleftrightarrow>
     (case d_cmd s of
        None \<Rightarrow> d_waits s = {} \<and> d_exited s = []
      | Some p \<Rightarrow> (d_waits s = {p} \<and> d_exited s = []) \<or> (d_waits s = {} \<and> d_exited s = [p]))"

definition pc_ok :: "dev \<Rightarrow> bool" where
  "pc_ok s \<longleftrightarrow>
     (case d_pc s of
        AtSelect \<Rightarrow> True
      | KillingToReturn \<Rightarrow> d_cmd s \<noteq> None \<and> d_alive s = {}
      | KillingToBuild \<Rightarrow> d_cmd s \<noteq> None \<and> d_alive s = {}
      | Returned \<Rightarrow> d_cmd s = None \<and> \<not> d_binary s
      | _ \<Rightarrow> d_cmd s = None)"

definition dev_inv :: "dev \<Rightarrow> bool" where
  "dev_inv s \<longleftrightarrow> tracked s \<and> d_alive s \<subseteq> d_waits s \<and> d_tokens s \<le> 2 \<and> pc_ok s"

lemma send_restart_simps [simp]:
  "d_pc (send_restart s) = d_pc s" "d_cmd (send_restart s) = d_cmd s" "d_alive (send_restart s) = d_alive s"
  "d_waits (send_restart s) = d_waits s" "d_exited (send_restart s) = d_exited s"
  "d_ended (send_restart s) = d_ended s" "d_binary (send_restart s) = d_binary s"
  "d_tokens (send_restart s) = (if d_tokens s < 2 then d_tokens s + 1 else d_tokens s)"
  by (simp_all add: send_restart_def)

lemma kill_simps [simp]:
  "d_pc (kill p s) = d_pc s" "d_cmd (kill p s) = d_cmd s" "d_alive (kill p s) = d_alive s - {p}"
  "d_waits (kill p s) = d_waits s" "d_exited (kill p s) = d_exited s" "d_ended (kill p s) = d_ended s"
  "d_tokens (kill p s) = d_tokens s" "d_binary (kill p s) = d_binary s"
  by (simp_all add: kill_def)

lemma dev_inv_step: "dev_inv s \<Longrightarrow> dstep s e = Some s' \<Longrightarrow> dev_inv s'"
  unfolding dev_inv_def tracked_def pc_ok_def
  by (cases e; cases "d_pc s"; cases "d_cmd s")
     (auto simp: Let_def split: if_splits)

interpretation dm: guarded_machine dstep drun dev_inv
  by unfold_locales (auto intro: dev_inv_step)

lemma dev_inv_init: "dev_inv dev_init"
  by (simp add: dev_inv_def tracked_def pc_ok_def dev_init_def)

lemma dev_reachable: "drun dev_init es = Some s \<Longrightarrow> dev_inv s"
  by (rule dm.machine_inv [OF _ dev_inv_init])

text \<open>
  C33: there is one development server at a time. However changes, crashes, failed builds and the
  end of the context interleave, at most one server process is running, none while a build runs
  or a server is started or after the return, and when the loop has returned nothing is left: no
  process, no waiting goroutine, no binary.
\<close>

theorem dev_one_server:
  assumes "drun dev_init es = Some s"
  shows "card (d_alive s) \<le> 1 \<and> finite (d_alive s) \<and>
     (d_pc s \<notin> {AtSelect} \<longrightarrow> d_alive s = {}) \<and>
     (d_pc s = Returned \<longrightarrow> d_waits s = {} \<and> d_exited s = [] \<and> \<not> d_binary s)"
proof -
  from dev_reachable [OF assms] have i: "tracked s" "d_alive s \<subseteq> d_waits s" "pc_ok s"
    by (simp_all add: dev_inv_def)
  from i(1) obtain p where "d_waits s \<subseteq> {p}" by (auto simp: tracked_def split: option.splits)
  with i(2) have alive: "d_alive s = {} \<or> d_alive s = {p}" by blast
  from i have "d_pc s \<noteq> AtSelect \<Longrightarrow> d_alive s = {}"
    by (cases "d_pc s"; cases "d_cmd s") (auto simp: tracked_def pc_ok_def)
  moreover from i have "d_pc s = Returned \<Longrightarrow> d_waits s = {} \<and> d_exited s = [] \<and> \<not> d_binary s"
    by (auto simp: tracked_def pc_ok_def)
  ultimately show ?thesis using alive by auto
qed

definition demo_session :: "dev_event list" where
  "demo_session = [VSelectRestart, VBuilt True, VStarted True, VChange, VSelectRestart, VReport 0, VReceive,
     VBuilt True, VStarted True]"

theorem dev_one_server_witness:
  "\<exists>s. drun dev_init demo_session = Some s \<and> card (d_alive s) \<le> 1"
proof -
  have "drun dev_init demo_session \<noteq> None"
    by (simp add: demo_session_def dev_init_def send_restart_def kill_def)
  then obtain s where s: "drun dev_init demo_session = Some s" by blast
  from dev_one_server [OF s] s show ?thesis by blast
qed

section \<open>The way out\<close>

fun pc_rank :: "dev_pc \<Rightarrow> nat" where
  "pc_rank AtSelect = 2"
| "pc_rank KillingToReturn = 1"
| "pc_rank KillingToBuild = 4"
| "pc_rank (Building ended) = (if ended then 3 else 6)"
| "pc_rank Starting = 5"
| "pc_rank Removing = 1"
| "pc_rank Returned = 0"

definition dev_rank :: "dev \<Rightarrow> nat" where
  "dev_rank s = 3 * d_tokens s + (if d_cmd s = None then 0 else 2) + pc_rank (d_pc s)"

text \<open>The steps the loop itself takes.\<close>

fun loop_event :: "dev_event \<Rightarrow> bool" where
  "loop_event VChange = False"
| "loop_event VEnd = False"
| "loop_event (VExit p) = False"
| "loop_event (VReport p) = False"
| "loop_event _ = True"

lemma dev_rank_step:
  assumes "dev_inv s" "d_ended s" "dstep s e = Some s'"
  shows "d_ended s' \<and> (if loop_event e then 1 else 0) + dev_rank s' \<le> dev_rank s + (if e = VChange then 3 else 0)"
  using assms unfolding dev_rank_def dev_inv_def tracked_def pc_ok_def
  by (cases e; cases "d_pc s"; cases "d_cmd s") (auto simp: Let_def split: if_splits)

lemma dev_rank_run:
  assumes "drun s es = Some u" "dev_inv s" "d_ended s"
  shows "length (filter loop_event es) + dev_rank u \<le> dev_rank s + 3 * length (filter ((=) VChange) es)"
  using assms
proof (induction es arbitrary: s)
  case (Cons e es)
  from Cons.prems(1) obtain s' where s': "dstep s e = Some s'" "drun s' es = Some u"
    by (auto split: option.splits)
  note r = dev_rank_step [OF Cons.prems(2,3) s'(1)]
  with Cons.IH [OF s'(2) dev_inv_step [OF Cons.prems(2) s'(1)]] show ?case
    by (cases "e = VChange") (auto split: if_splits)
qed simp

lemma dev_rank_bound: "dev_inv s \<Longrightarrow> dev_rank s \<le> 14"
  by (cases "d_pc s") (auto simp: dev_rank_def dev_inv_def)

lemma dev_not_stuck:
  assumes "dev_inv s" "d_ended s" "d_pc s \<noteq> Returned"
  shows "\<exists>e s'. dstep s e = Some s' \<and> (loop_event e \<or> (\<exists>p e' s''. e = VReport p \<and> loop_event e' \<and> dstep s' e' = Some s''))"
proof (cases "d_exited s = [] \<and> (d_pc s = KillingToReturn \<or> d_pc s = KillingToBuild)")
  case True
  with assms(1) obtain p where p: "d_cmd s = Some p" "d_waits s = {p}" "d_alive s = {}"
    by (auto simp: dev_inv_def tracked_def pc_ok_def split: dev_pc.splits)
  then have "dstep s (VReport p) = Some (s\<lparr>d_waits := {}, d_exited := [p]\<rparr>)" using True by simp
  moreover have "\<exists>u. dstep (s\<lparr>d_waits := {}, d_exited := [p]\<rparr>) VReceive = Some u" using True by (auto simp: Let_def)
  ultimately show ?thesis using loop_event.simps(8) by blast
next
  case False
  have "\<exists>e s'. dstep s e = Some s' \<and> loop_event e"
  proof (cases "d_pc s")
    case AtSelect
    then have "\<exists>s'. dstep s VSelectDone = Some s'" using assms(2) by simp
    then show ?thesis using loop_event.simps(5) by blast
  next
    case KillingToReturn
    then have "\<exists>s'. dstep s VReceive = Some s'" using False by (simp add: Let_def)
    then show ?thesis using loop_event.simps(8) by blast
  next
    case KillingToBuild
    then have "\<exists>s'. dstep s VReceive = Some s'" using False by (simp add: Let_def)
    then show ?thesis using loop_event.simps(8) by blast
  next
    case (Building b)
    then have "\<exists>s'. dstep s (VBuilt False) = Some s'" by simp
    then show ?thesis using loop_event.simps(9) by blast
  next
    case Starting
    then have "\<exists>s'. dstep s (VStarted False) = Some s'" by simp
    then show ?thesis using loop_event.simps(10) by blast
  next
    case Removing
    then have "\<exists>s'. dstep s VRemove = Some s'" by simp
    then show ?thesis using loop_event.simps(11) by blast
  qed (use assms(3) in simp)
  then show ?thesis by blast
qed

text \<open>
  C34: the development server shuts down. Once the context has ended, the loop takes at most
  fourteen steps more, and three for every restart a watcher still sends; and until it has
  returned it is never stuck: one of its steps is possible, or the killed process is about to be
  reported, after which one is.
\<close>

theorem dev_shutdown_terminates:
  assumes "drun dev_init es = Some s" "d_ended s" "drun s fs = Some u"
  shows "length (filter loop_event fs) \<le> 14 + 3 * length (filter ((=) VChange) fs) \<and>
    (d_pc u \<noteq> Returned \<longrightarrow>
      (\<exists>e v. dstep u e = Some v \<and>
         (loop_event e \<or> (\<exists>p e' x. e = VReport p \<and> loop_event e' \<and> dstep v e' = Some x))))"
proof -
  note i = dev_reachable [OF assms(1)]
  have "d_ended u"
    using assms(3,2) i
  proof (induction fs arbitrary: s)
    case (Cons e fs)
    then show ?case using dev_rank_step dev_inv_step by (auto split: option.splits)
  qed simp
  moreover have "dev_inv u" by (rule dm.machine_inv [OF assms(3) i])
  ultimately show ?thesis
    using dev_not_stuck [of u] dev_rank_run [OF assms(3) i assms(2)] dev_rank_bound [OF i] by auto
qed

theorem dev_shutdown_terminates_witness:
  "\<exists>s u. drun dev_init (demo_session @ [VEnd]) = Some s \<and>
     drun s [VSelectDone, VReport 1, VReceive, VRemove] = Some u \<and> d_pc u = Returned \<and>
     length (filter loop_event [VSelectDone, VReport 1, VReceive, VRemove]) \<le> 14"
proof -
  have "drun dev_init (demo_session @ [VEnd]) \<noteq> None"
    by (simp add: demo_session_def dev_init_def send_restart_def kill_def)
  then obtain s where s: "drun dev_init (demo_session @ [VEnd]) = Some s" by blast
  then have e: "d_ended s" "\<exists>u. drun s [VSelectDone, VReport 1, VReceive, VRemove] = Some u \<and> d_pc u = Returned"
    by (auto simp: demo_session_def dev_init_def send_restart_def kill_def)
  then obtain u where u: "drun s [VSelectDone, VReport 1, VReceive, VRemove] = Some u" "d_pc u = Returned" by blast
  from dev_shutdown_terminates [OF s e(1) u(1)] s u show ?thesis by auto
qed

section \<open>Snapshots\<close>

text \<open>
  The comparison of snapshots: it reports no change exactly when the maps are equal, provided
  no file has the zero time or hash, for any order the maps are walked in.
\<close>

lemma has_file_changed_iff:
  assumes "distinct (map fst prev)" "distinct (map fst current)" "\<forall>(path, v) \<in> set current. v \<noteq> 0"
  shows "has_file_changed prev current \<longleftrightarrow> map_of current \<noteq> map_of prev"
proof -
  have card: "length xs = card (dom (map_of xs))" if "distinct (map fst xs)" for xs :: "(string \<times> nat) list"
    using distinct_card [OF that] by (simp add: dom_map_of_conv_image_fst)
  show ?thesis
  proof (cases "map_of current = map_of prev")
    case True
    with card [OF assms(1)] card [OF assms(2)] have "length current = length prev" by simp
    moreover have "snapshot_get prev path = v" if "(path, v) \<in> set current" for path v
      using True map_of_is_SomeI [OF assms(2) that] by (simp add: snapshot_get_def)
    ultimately show ?thesis using True by (auto simp: has_file_changed_def list_ex_iff)
  next
    case False
    have "has_file_changed prev current"
    proof (rule ccontr)
      assume "\<not> has_file_changed prev current"
      then have len: "length current = length prev"
        and same: "\<And>path v. (path, v) \<in> set current \<Longrightarrow> snapshot_get prev path = v"
        by (auto simp: has_file_changed_def list_ex_iff split: if_splits)
      have sub: "map_of prev path = Some v" if "map_of current path = Some v" for path v
        using same [OF map_of_SomeD [OF that]] assms(3) map_of_SomeD [OF that]
        by (auto simp: snapshot_get_def split: option.splits)
      then have "dom (map_of current) \<subseteq> dom (map_of prev)" by auto
      then have "dom (map_of current) = dom (map_of prev)"
        using card_subset_eq [OF finite_dom_map_of] len card [OF assms(1)] card [OF assms(2)] by metis
      then have none: "map_of current path = None \<Longrightarrow> map_of prev path = None" for path by blast
      have "map_of current path = map_of prev path" for path
        using sub [of path] none [of path] by (cases "map_of current path") simp_all
      with False show False by blast
    qed
    with False show ?thesis by simp
  qed
qed

end
