(* ===== verification/Dev_Run.thy ===== *)
theory Dev_Run
  imports Dev_Claims
begin

text \<open>
  The development server as a whole (\<open>cmd/revelt/dev.go\<close>): the Node watcher and its
  restarts, \<open>run\<close>, which starts the watchers, runs the restart loop and waits for them, and the
  ticks of a watcher over time. On return nothing is left running.
\<close>

section \<open>The Node watcher\<close>

text \<open>
  \<open>runNodeWatcher\<close>: at the top of its loop, in the select, waiting for the killed process,
  asleep before the next start, returned. \<open>n_alive\<close>: the process runs; \<open>n_waits\<close>: the
  goroutine is in \<open>cmd.Wait()\<close>; \<open>n_done\<close>: its answer is in the channel.
\<close>

datatype node_pc = NTop | NSelect | NDrain | NSleep | NReturned

record node_watcher =
  n_pc :: node_pc
  n_alive :: bool
  n_waits :: bool
  n_done :: bool

datatype node_event =
    NStart bool
  | NExit
  | NReport
  | NSelectCtx
  | NSelectDone
  | NReceive
  | NWake

text \<open>\<open>ended\<close> is whether its context is cancelled; \<open>Start\<close> fails under a cancelled context.\<close>

fun nstep :: "bool \<Rightarrow> node_watcher \<Rightarrow> node_event \<Rightarrow> node_watcher option" where
  "nstep ended s (NStart ok) =
     (if n_pc s = NTop \<and> (ok \<longrightarrow> \<not> ended)
      then Some (if ok then s\<lparr>n_pc := NSelect, n_alive := True, n_waits := True, n_done := False\<rparr>
                 else s\<lparr>n_pc := NReturned\<rparr>)
      else None)"
| "nstep ended s NExit = (if n_alive s then Some (s\<lparr>n_alive := False\<rparr>) else None)"
| "nstep ended s NReport =
     (if n_waits s \<and> \<not> n_alive s then Some (s\<lparr>n_waits := False, n_done := True\<rparr>) else None)"
| "nstep ended s NSelectCtx =
     (if n_pc s = NSelect \<and> ended then Some (s\<lparr>n_pc := NDrain, n_alive := False\<rparr>) else None)"
| "nstep ended s NSelectDone =
     (if n_pc s = NSelect \<and> n_done s
      then Some (s\<lparr>n_done := False, n_pc := (if ended then NReturned else NSleep)\<rparr>) else None)"
| "nstep ended s NReceive =
     (if n_pc s = NDrain \<and> n_done s then Some (s\<lparr>n_done := False, n_pc := NReturned\<rparr>) else None)"
| "nstep ended s NWake = (if n_pc s = NSleep then Some (s\<lparr>n_pc := NTop\<rparr>) else None)"

definition node_init :: node_watcher where
  "node_init = \<lparr>n_pc = NTop, n_alive = False, n_waits = False, n_done = False\<rparr>"

text \<open>A process is only around while the watcher is in its select or draining.\<close>

definition node_inv :: "node_watcher \<Rightarrow> bool" where
  "node_inv s \<longleftrightarrow> (n_alive s \<longrightarrow> n_waits s) \<and> \<not> (n_waits s \<and> n_done s) \<and>
     (n_waits s \<or> n_done s \<longleftrightarrow> n_pc s = NSelect \<or> n_pc s = NDrain)"

lemma nstep_inv: "node_inv s \<Longrightarrow> nstep ended s e = Some s' \<Longrightarrow> node_inv s'"
  by (cases e; cases "n_pc s") (auto simp: node_inv_def split: if_splits)

lemma node_returned: "node_inv s \<Longrightarrow> n_pc s = NReturned \<Longrightarrow> \<not> n_alive s \<and> \<not> n_waits s"
  by (auto simp: node_inv_def)

section \<open>The whole\<close>

text \<open>
  \<open>run\<close>: in the restart loop, waiting for the watchers, returned. \<open>r_front\<close> is whether the
  watcher of the client assets has returned, \<open>r_cancelled\<close> whether \<open>nodeCancel\<close> was called.
\<close>

datatype run_pc = InLoop | Waiting | RunReturned

record dev_run =
  r_pc :: run_pc
  r_loop :: dev
  r_node :: node_watcher
  r_front :: bool
  r_cancelled :: bool

definition run_init_state :: dev_run where
  "run_init_state = \<lparr>r_pc = InLoop, r_loop = dev_init, r_node = node_init, r_front = False, r_cancelled = False\<rparr>"

datatype run_event =
    RLoop dev_event      \<comment> \<open>the restart loop, its watcher, the processes, the context\<close>
  | RNode node_event
  | RFront               \<comment> \<open>the watcher of the client assets sends a restart\<close>
  | RFrontReturns        \<comment> \<open>it sees the context ended and returns\<close>
  | RCancel              \<comment> \<open>the loop has returned: \<open>nodeCancel\<close>\<close>
  | RJoin                \<comment> \<open>\<open>wg.Wait\<close> returns\<close>

fun rstep :: "dev_run \<Rightarrow> run_event \<Rightarrow> dev_run option" where
  "rstep s (RLoop e) = (case dstep (r_loop s) e of None \<Rightarrow> None | Some d \<Rightarrow> Some (s\<lparr>r_loop := d\<rparr>))"
| "rstep s (RNode e) =
     (case nstep (d_ended (r_loop s) \<or> r_cancelled s) (r_node s) e of
        None \<Rightarrow> None | Some n \<Rightarrow> Some (s\<lparr>r_node := n\<rparr>))"
| "rstep s RFront = (if r_front s then None else Some (s\<lparr>r_loop := send_restart (r_loop s)\<rparr>))"
| "rstep s RFrontReturns = (if \<not> r_front s \<and> d_ended (r_loop s) then Some (s\<lparr>r_front := True\<rparr>) else None)"
| "rstep s RCancel =
     (if r_pc s = InLoop \<and> d_pc (r_loop s) = Returned then Some (s\<lparr>r_pc := Waiting, r_cancelled := True\<rparr>) else None)"
| "rstep s RJoin =
     (if r_pc s = Waiting \<and> n_pc (r_node s) = NReturned \<and> r_front s then Some (s\<lparr>r_pc := RunReturned\<rparr>) else None)"

fun rrun :: "dev_run \<Rightarrow> run_event list \<Rightarrow> dev_run option" where
  "rrun s [] = Some s"
| "rrun s (e # es) = (case rstep s e of None \<Rightarrow> None | Some s' \<Rightarrow> rrun s' es)"

definition run_inv :: "dev_run \<Rightarrow> bool" where
  "run_inv s \<longleftrightarrow> dev_inv (r_loop s) \<and> node_inv (r_node s) \<and>
     (r_pc s \<noteq> InLoop \<longrightarrow> d_pc (r_loop s) = Returned) \<and>
     (r_pc s = RunReturned \<longrightarrow> n_pc (r_node s) = NReturned \<and> r_front s)"

lemma returned_stays: "dev_inv d \<Longrightarrow> d_pc d = Returned \<Longrightarrow> dstep d e = Some d' \<Longrightarrow> d_pc d' = Returned"
  by (cases e) (auto simp: Let_def split: if_splits)

lemma node_returned_stays: "n_pc s = NReturned \<Longrightarrow> nstep ended s e = Some s' \<Longrightarrow> n_pc s' = NReturned"
  by (cases e) (auto split: if_splits)

lemma rstep_inv: "run_inv s \<Longrightarrow> rstep s e = Some s' \<Longrightarrow> run_inv s'"
proof (cases e)
  case (RLoop d)
  moreover assume "run_inv s" "rstep s e = Some s'"
  ultimately show ?thesis
    by (auto simp: run_inv_def intro: dev_inv_step returned_stays split: option.splits)
next
  case (RNode n)
  moreover assume "run_inv s" "rstep s e = Some s'"
  ultimately show ?thesis
    by (auto simp: run_inv_def intro: nstep_inv node_returned_stays split: option.splits)
next
  case RFront
  moreover assume "run_inv s" "rstep s e = Some s'"
  moreover have "dev_inv d \<Longrightarrow> dev_inv (send_restart d)" for d
    using dev_inv_step [of d VChange "send_restart d"] by simp
  ultimately show ?thesis by (auto simp: run_inv_def split: if_splits)
qed (auto simp: run_inv_def split: if_splits)

interpretation rm: guarded_machine rstep rrun run_inv
  by unfold_locales (auto intro: rstep_inv)

lemma run_inv_init: "run_inv run_init_state"
  using dev_inv_init by (simp add: run_inv_def run_init_state_def node_inv_def node_init_def)

text \<open>
  C39: the development server leaves nothing behind. Whatever the order in which the watchers, the
  restart loop, the processes and the end of the context interleave, when \<open>run\<close> has returned no
  Node process and no server process runs, nobody waits for one, and the server binary is gone.
\<close>

theorem dev_run_leaves_nothing:
  assumes "rrun run_init_state es = Some s" "r_pc s = RunReturned"
  shows "\<not> n_alive (r_node s) \<and> \<not> n_waits (r_node s) \<and> d_alive (r_loop s) = {} \<and> d_waits (r_loop s) = {} \<and>
    \<not> d_binary (r_loop s)"
proof -
  have inv: "run_inv s" by (rule rm.machine_inv [OF assms(1) run_inv_init])
  with assms(2) have "d_pc (r_loop s) = Returned" "n_pc (r_node s) = NReturned" "dev_inv (r_loop s)" "node_inv (r_node s)"
    by (auto simp: run_inv_def)
  then show ?thesis
    using node_returned by (auto simp: dev_inv_def tracked_def pc_ok_def)
qed

definition demo_dev_events :: "run_event list" where
  "demo_dev_events =
     [RNode (NStart True), RLoop VSelectRestart, RLoop (VBuilt True), RLoop (VStarted True), RFront, RLoop VEnd,
      RLoop VSelectDone, RLoop (VReport 0), RLoop VReceive, RLoop VRemove, RCancel, RNode NSelectCtx,
      RNode NReport, RNode NReceive, RFrontReturns, RJoin]"

theorem dev_run_leaves_nothing_witness:
  "\<exists>s. rrun run_init_state demo_dev_events = Some s \<and> r_pc s = RunReturned \<and> d_alive (r_loop s) = {}"
proof -
  have "\<exists>s. rrun run_init_state demo_dev_events = Some s \<and> r_pc s = RunReturned"
    by (simp add: demo_dev_events_def run_init_state_def dev_init_def node_init_def send_restart_def kill_def)
  then obtain s where "rrun run_init_state demo_dev_events = Some s" "r_pc s = RunReturned" by blast
  with dev_run_leaves_nothing [OF this] show ?thesis by blast
qed

section \<open>A watcher over time\<close>

lemma watch_idle:
  assumes "\<not> w_pending s" "\<forall>(files, now) \<in> set ts. \<not> differs (w_files s) files"
  shows "watch_ticks differs ts s = (s, replicate (length ts) False)"
  using assms by (induction ts) (auto simp: watch_tick_def Let_def)

text \<open>
  A burst of changes gives one restart. However snapshots are compared (by content for the
  client assets, by time for the Go sources): after a change has been seen, as long as the files
  stay as they were then, the watcher sends nothing before 300 ms have passed, exactly one
  restart at the first tick after that, and nothing more.
\<close>

theorem one_restart_per_burst:
  assumes "w_pending s" "\<forall>(files, now) \<in> set (early @ (f, t) # late). \<not> differs (w_files s) files"
    "\<forall>(files, now) \<in> set early. now - w_changed_at s < go_restart_debounce"
    "t - w_changed_at s \<ge> go_restart_debounce"
  shows "snd (watch_ticks differs (early @ (f, t) # late) s) =
    replicate (length early) False @ [True] @ replicate (length late) False"
  using assms(2,3)
proof (induction early)
  case Nil
  have "watch_tick differs f t s = (s\<lparr>w_pending := False\<rparr>, True)"
    using Nil assms(1,4) by (simp add: watch_tick_def)
  moreover have "watch_ticks differs late (s\<lparr>w_pending := False\<rparr>) = (s\<lparr>w_pending := False\<rparr>, replicate (length late) False)"
    using Nil by (intro watch_idle) auto
  ultimately show ?case by simp
next
  case (Cons e early)
  obtain g u where e: "e = (g, u)" by fastforce
  have "watch_tick differs g u s = (s, False)" using Cons.prems assms(1) by (simp add: e watch_tick_def)
  with Cons show ?case by (simp add: e case_prod_beta)
qed

theorem one_restart_per_burst_witness:
  "snd (watch_ticks has_file_changed_by_hash [([], 100000000), ([], 400000000), ([], 900000000)]
     \<lparr>w_files = [], w_pending = True, w_changed_at = 0\<rparr>) = [False, True, False]"
  using one_restart_per_burst [of "\<lparr>w_files = [], w_pending = True, w_changed_at = 0\<rparr>" "[([], 100000000)]" "[]" 400000000
      "[([], 900000000)]" has_file_changed_by_hash]
  by (simp add: has_file_changed_by_hash_def go_restart_debounce_def)

text \<open>
  A build that rewrites its output with the same content restarts nothing: the watcher of the
  client assets, whatever it is shown as long as the sums stay the same, sends nothing.
\<close>

lemma same_content_no_restart:
  assumes "distinct (map fst first)"
  shows "watch_client_assets first (map (Pair first) nows) = replicate (length nows) False"
proof -
  have "\<not> has_file_changed_by_hash first first"
    using assms by (auto simp: has_file_changed_by_hash_def list_ex_iff hash_get_def)
  then show ?thesis unfolding watch_client_assets_def by (subst watch_idle) auto
qed

end
