(* ===== verification/Server.thy ===== *)
theory Server
  imports App Compress
begin

text \<open>
  The server an application runs (\<open>app.go\<close>): routes registered on the router, the static
  handler, the builder of pages, and the configuration of the HTTP server with the middleware
  chain around the router. Which of the registered patterns serves a request is
  \<open>http.ServeMux\<close>'s choice, an argument here.
\<close>

section \<open>Routes\<close>

type_synonym routes = "(string \<times> handler) list"

text \<open>
  \<open>ServeMux.Handle\<close> panics on an empty pattern and on one that conflicts with a registered one;
  \<open>conflict\<close> is that relation of net/http.
\<close>

definition mux_handle :: "(string \<Rightarrow> string \<Rightarrow> bool) \<Rightarrow> string \<Rightarrow> handler \<Rightarrow> routes \<Rightarrow> routes outcome" where
  "mux_handle conflict pattern h rs =
     (if pattern = [] then Panicked ''http: invalid pattern''
      else if list_ex (\<lambda>(q, _). conflict pattern q) rs then Panicked (''http: conflicting pattern '' @ pattern)
      else Done (rs @ [(pattern, h)]))"

definition app_handle ::
    "(string \<Rightarrow> string \<Rightarrow> bool) \<Rightarrow> error_handler \<Rightarrow> string \<Rightarrow> handler \<Rightarrow> routes \<Rightarrow> routes outcome" where
  "app_handle conflict err_handler pattern h rs = mux_handle conflict pattern (adapt h err_handler) rs"

definition app_handle_func ::
    "(string \<Rightarrow> string \<Rightarrow> bool) \<Rightarrow> error_handler \<Rightarrow> string \<Rightarrow> handler \<Rightarrow> routes \<Rightarrow> routes outcome" where
  "app_handle_func conflict err_handler pattern h rs = mux_handle conflict pattern (adapt h err_handler) rs"

definition app_handle_std :: "(string \<Rightarrow> string \<Rightarrow> bool) \<Rightarrow> string \<Rightarrow> handler \<Rightarrow> routes \<Rightarrow> routes outcome" where
  "app_handle_std conflict pattern h rs = mux_handle conflict pattern h rs"

definition app_handle_func_std :: "(string \<Rightarrow> string \<Rightarrow> bool) \<Rightarrow> string \<Rightarrow> handler \<Rightarrow> routes \<Rightarrow> routes outcome" where
  "app_handle_func_std conflict pattern h rs = mux_handle conflict pattern h rs"

text \<open>\<open>stats\<close> is what \<open>Renderer.Stats\<close> answers while a request is served.\<close>

definition register_health ::
    "(string \<Rightarrow> string \<Rightarrow> bool) \<Rightarrow> codecs \<Rightarrow> (request \<Rightarrow> worker_stat list) \<Rightarrow> routes \<Rightarrow> routes outcome" where
  "register_health conflict Z stats rs =
     (case mux_handle conflict ''/healthz'' (\<lambda>r w. (healthz Z (stats r) w, HNil)) rs of
        Panicked m \<Rightarrow> Panicked m
      | Done rs1 \<Rightarrow> mux_handle conflict ''/readyz'' (\<lambda>r w. (readyz Z (stats r) w, HNil)) rs1)"

section \<open>Static assets\<close>

text \<open>\<open>http.NotFound\<close> and \<open>http.StripPrefix\<close>, for requests without an escaped path.\<close>

definition not_found :: "codecs \<Rightarrow> handler" where
  "not_found Z r w = (http_error Z w ''404 page not found'' 404, HNil)"

definition strip_prefix :: "codecs \<Rightarrow> string \<Rightarrow> handler \<Rightarrow> handler" where
  "strip_prefix Z pfx h r w =
     (if pfx = [] then h r w
      else let p = trim_prefix (rq_path r) pfx in
        if length p < length (rq_path r) then h (r\<lparr>rq_path := p\<rparr>) w else not_found Z r w)"

text \<open>The file system given, or the client directory on disk.\<close>

datatype asset_fs = GivenFS string | DirFS string

definition client_dir :: string where
  "client_dir = ''client''"

definition asset_root :: "project_config \<Rightarrow> string option \<Rightarrow> asset_fs" where
  "asset_root cfg given =
     (case given of Some f \<Rightarrow> GivenFS f | None \<Rightarrow> DirFS (path_join [out_dir cfg, client_dir]))"

text \<open>\<open>file_server\<close> is \<open>http.FileServer\<close>.\<close>

definition register_static ::
  "(string \<Rightarrow> string \<Rightarrow> bool) \<Rightarrow> codecs \<Rightarrow> (asset_fs \<Rightarrow> handler) \<Rightarrow> app \<Rightarrow> string option \<Rightarrow> routes \<Rightarrow> routes outcome" where
  "register_static conflict Z file_server a given rs =
     (let pfx = static_prefix (app_cfg a);
          base = strip_prefix Z pfx (file_server (asset_root (app_cfg a) given))
      in mux_handle conflict pfx (static_handler Z (disable_compression (app_opts a)) pfx base) rs)"

section \<open>Building pages\<close>

record page_builder =
  pb_template :: string
  pb_slots :: "slot_request list"

definition new_page :: page_builder where
  "new_page = \<lparr>pb_template = [], pb_slots = []\<rparr>"

definition new_page_with_template :: "string \<Rightarrow> page_builder" where
  "new_page_with_template tmpl = \<lparr>pb_template = tmpl, pb_slots = []\<rparr>"

definition page_slot :: "string \<Rightarrow> string \<Rightarrow> props \<Rightarrow> page_builder \<Rightarrow> page_builder" where
  "page_slot key component ps b =
     b\<lparr>pb_slots := pb_slots b @ [\<lparr>slot_key = key, slot_component = component, slot_props = ps\<rparr>]\<rparr>"

text \<open>\<open>PageBuilder.Render\<close>: the slots go through the renderer of the application.\<close>

definition page_builder_render ::
  "(rune \<Rightarrow> bool) \<Rightarrow> codecs \<Rightarrow> goerr option \<Rightarrow> (wref \<Rightarrow> int option \<Rightarrow> string \<Rightarrow> props \<Rightarrow> render_response go) \<Rightarrow>
   (string \<Rightarrow> 't go) \<Rightarrow> ('t \<Rightarrow> (string \<rightharpoonup> string) \<Rightarrow> string go) \<Rightarrow> app \<Rightarrow> page_builder \<Rightarrow> reader go \<Rightarrow> nat list \<Rightarrow>
   pool \<Rightarrow> rw \<Rightarrow> (rw \<times> hresult) \<times> pool" where
  "page_builder_render ip Z spawned work parse exec a b opened order p w =
     page_render ip Z (render_component ip spawned work a) parse exec (pb_template b) opened (pb_slots b) order p w"

section \<open>The HTTP server\<close>

record http_server =
  sv_addr :: string
  sv_handler :: handler
  sv_read_timeout :: int
  sv_write_timeout :: int
  sv_idle_timeout :: int
  sv_tls :: "string option"

text \<open>The router: \<open>pick\<close> chooses among the registered patterns.\<close>

definition mux_serve :: "codecs \<Rightarrow> (string list \<Rightarrow> request \<Rightarrow> string option) \<Rightarrow> routes \<Rightarrow> handler" where
  "mux_serve Z pick rs r w =
     (case pick (map fst rs) r of
        None \<Rightarrow> not_found Z r w
      | Some p \<Rightarrow> (case map_of rs p of None \<Rightarrow> not_found Z r w | Some h \<Rightarrow> h r w))"

definition make_server :: "codecs \<Rightarrow> (string list \<Rightarrow> request \<Rightarrow> string option) \<Rightarrow> app \<Rightarrow> routes \<Rightarrow> http_server" where
  "make_server Z pick a rs =
     (let o1 = app_opts a in
      \<lparr>sv_addr = '':'' @ show_int (port (app_cfg a)),
       sv_handler = app_root (app_middleware o1) (mux_serve Z pick rs),
       sv_read_timeout = read_timeout o1, sv_write_timeout = app_write_timeout o1,
       sv_idle_timeout = idle_timeout o1, sv_tls = tls_certificate o1\<rparr>)"

text \<open>What an application does with its routes between \<open>NewApp\<close> and \<open>Run\<close>.\<close>

datatype registration =
    Handle string handler
  | HandleFunc string handler
  | HandleStd string handler
  | HandleFuncStd string handler
  | HealthEndpoints

fun register ::
  "(string \<Rightarrow> string \<Rightarrow> bool) \<Rightarrow> codecs \<Rightarrow> error_handler \<Rightarrow> (request \<Rightarrow> worker_stat list) \<Rightarrow> registration \<Rightarrow>
   routes \<Rightarrow> routes outcome" where
  "register conflict Z eh stats (Handle p h) rs = app_handle conflict eh p h rs"
| "register conflict Z eh stats (HandleFunc p h) rs = app_handle_func conflict eh p h rs"
| "register conflict Z eh stats (HandleStd p h) rs = app_handle_std conflict p h rs"
| "register conflict Z eh stats (HandleFuncStd p h) rs = app_handle_func_std conflict p h rs"
| "register conflict Z eh stats HealthEndpoints rs = register_health conflict Z stats rs"

fun register_all ::
  "(string \<Rightarrow> string \<Rightarrow> bool) \<Rightarrow> codecs \<Rightarrow> error_handler \<Rightarrow> (request \<Rightarrow> worker_stat list) \<Rightarrow> registration list \<Rightarrow>
   routes \<Rightarrow> routes outcome" where
  "register_all conflict Z eh stats [] rs = Done rs"
| "register_all conflict Z eh stats (x # xs) rs =
     (case register conflict Z eh stats x rs of
        Panicked m \<Rightarrow> Panicked m | Done rs1 \<Rightarrow> register_all conflict Z eh stats xs rs1)"

text \<open>The application: the static handler first, then its registrations, then \<open>Run\<close>.\<close>

definition serve_app ::
  "(string \<Rightarrow> string \<Rightarrow> bool) \<Rightarrow> (string list \<Rightarrow> request \<Rightarrow> string option) \<Rightarrow> codecs \<Rightarrow> (asset_fs \<Rightarrow> handler) \<Rightarrow>
   (request \<Rightarrow> worker_stat list) \<Rightarrow> string option \<Rightarrow> registration list \<Rightarrow> app \<Rightarrow> http_server outcome" where
  "serve_app conflict pick Z file_server stats given xs a =
     (case register_static conflict Z file_server a given [] of
        Panicked m \<Rightarrow> Panicked m
      | Done rs \<Rightarrow>
          (case register_all conflict Z (app_error_handler (app_opts a)) stats xs rs of
             Panicked m \<Rightarrow> Panicked m
           | Done rs1 \<Rightarrow> Done (make_server Z pick a rs1)))"

end
