(* ===== verification/Server_Claims.thy ===== *)
theory Server_Claims
  imports Server Middleware_Claims Sessions Ratelimit Renderer_Claims App_Claims
begin

text \<open>
  What the assembled server promises: each registered pattern leads to its own handler, behind
  the middlewares in their order, and no response is taken back once it is committed, whatever
  the handlers, the middlewares and the static assets are.
\<close>

section \<open>Routes\<close>

definition reg_pattern :: "registration \<Rightarrow> string list" where
  "reg_pattern x =
     (case x of Handle p _ \<Rightarrow> [p] | HandleFunc p _ \<Rightarrow> [p] | HandleStd p _ \<Rightarrow> [p] | HandleFuncStd p _ \<Rightarrow> [p]
      | HealthEndpoints \<Rightarrow> [''/healthz'', ''/readyz''])"

text \<open>The handler a registration serves its pattern with.\<close>

fun reg_handler :: "error_handler \<Rightarrow> registration \<Rightarrow> (string \<times> handler) option" where
  "reg_handler eh (Handle p h) = Some (p, adapt h eh)"
| "reg_handler eh (HandleFunc p h) = Some (p, adapt h eh)"
| "reg_handler eh (HandleStd p h) = Some (p, h)"
| "reg_handler eh (HandleFuncStd p h) = Some (p, h)"
| "reg_handler eh HealthEndpoints = None"

lemma mux_handle_done:
  "mux_handle conflict p h rs = Done rs' \<longleftrightarrow>
     p \<noteq> [] \<and> (\<forall>q \<in> fst ` set rs. \<not> conflict p q) \<and> rs' = rs @ [(p, h)]"
  by (auto simp: mux_handle_def list_ex_iff) (metis fst_conv)

lemmas register_simps =
  app_handle_def app_handle_func_def app_handle_std_def app_handle_func_std_def register_health_def

lemma register_appends:
  assumes "register conflict Z eh stats x rs = Done rs'"
  shows "\<exists>new. rs' = rs @ new \<and> map fst new = reg_pattern x \<and>
     (\<forall>ph. reg_handler eh x = Some ph \<longrightarrow> new = [ph])"
  using assms
  by (cases x) (auto simp: register_simps mux_handle_done reg_pattern_def split: outcome.splits)

lemma register_all_appends:
  "register_all conflict Z eh stats xs rs = Done rs' \<Longrightarrow>
     \<exists>new. rs' = rs @ new \<and> map fst new = concat (map reg_pattern xs) \<and>
       (\<forall>x \<in> set xs. \<forall>ph. reg_handler eh x = Some ph \<longrightarrow> ph \<in> set new)"
proof (induction xs arbitrary: rs)
  case (Cons x xs)
  then obtain rs1 where x: "register conflict Z eh stats x rs = Done rs1"
    and xs: "register_all conflict Z eh stats xs rs1 = Done rs'" by (auto split: outcome.splits)
  from register_appends [OF x] Cons.IH [OF xs] show ?case by fastforce
qed simp

text \<open>When a pattern conflicts with itself, as in net/http, the patterns of a router differ.\<close>

lemma register_distinct:
  assumes "register conflict Z eh stats x rs = Done rs'" "distinct (map fst rs)" "\<And>p. conflict p p"
  shows "distinct (map fst rs')"
proof -
  have one: "distinct (map fst rs')" if "mux_handle conflict p h rs = Done rs'" "distinct (map fst rs)" for p h rs rs'
    using that assms(3) by (auto simp: mux_handle_done)
  show ?thesis using assms(1,2)
    by (cases x) (auto simp: register_simps split: outcome.splits intro: one)
qed

lemma register_all_distinct:
  assumes "\<And>p. conflict p p"
  shows "register_all conflict Z eh stats xs rs = Done rs' \<Longrightarrow> distinct (map fst rs) \<Longrightarrow> distinct (map fst rs')"
proof (induction xs arbitrary: rs)
  case (Cons x xs)
  then obtain rs1 where "register conflict Z eh stats x rs = Done rs1"
    "register_all conflict Z eh stats xs rs1 = Done rs'" by (auto split: outcome.splits)
  with register_distinct [of conflict Z eh stats x rs rs1] Cons assms show ?case by blast
qed simp

text \<open>What \<open>serve_app\<close> builds: the static route, then those registered, behind the chain.\<close>

lemma serve_app_done:
  assumes "serve_app conflict pick Z file_server stats given xs a = Done sv"
  obtains rs rs1 where
    "register_static conflict Z file_server a given [] = Done rs"
    "register_all conflict Z (app_error_handler (app_opts a)) stats xs rs = Done rs1"
    "sv = make_server Z pick a rs1"
  using assms by (auto simp: serve_app_def split: outcome.splits)

text \<open>
  C13: every route reaches the handler it was registered with. When the application starts (no
  registration panicked), a request for which the router selects the pattern of a registration
  is served by exactly that handler, wrapped in the error handler of the application for
  \<open>Handle\<close> and \<open>HandleFunc\<close> and bare for the standard ones, behind all middlewares with the
  first declared outermost; no later registration and not the static handler takes it over.
\<close>

theorem routes_reach_their_handler:
  assumes "serve_app conflict pick Z file_server stats given xs a = Done sv" "\<And>p. conflict p p"
    "x \<in> set xs" "reg_handler (app_error_handler (app_opts a)) x = Some (p, h)"
  shows "\<exists>router. sv_handler sv = foldr (\<lambda>mw h. mw h) (app_middleware (app_opts a)) router \<and>
     (\<forall>r w. pick (static_prefix (app_cfg a) # concat (map reg_pattern xs)) r = Some p \<longrightarrow> router r w = h r w)"
proof -
  obtain rs rs1 where st: "register_static conflict Z file_server a given [] = Done rs"
    and all: "register_all conflict Z (app_error_handler (app_opts a)) stats xs rs = Done rs1"
    and sv: "sv = make_server Z pick a rs1" by (rule serve_app_done [OF assms(1)])
  from st have rs: "map fst rs = [static_prefix (app_cfg a)]"
    by (auto simp: register_static_def Let_def mux_handle_done)
  obtain new where new: "rs1 = rs @ new" "map fst new = concat (map reg_pattern xs)" "(p, h) \<in> set new"
    using register_all_appends [OF all] assms(3,4) by blast
  have "distinct (map fst rs1)" by (rule register_all_distinct [OF assms(2) all]) (simp add: rs)
  moreover have "(p, h) \<in> set rs1" using new by simp
  ultimately have "map_of rs1 p = Some h" by simp
  moreover have "map fst rs1 = static_prefix (app_cfg a) # concat (map reg_pattern xs)" using rs new by simp
  ultimately have "mux_serve Z pick rs1 r w = h r w"
    if "pick (static_prefix (app_cfg a) # concat (map reg_pattern xs)) r = Some p" for r w
    using that by (simp add: mux_serve_def)
  moreover have "sv_handler sv = foldr (\<lambda>mw h. mw h) (app_middleware (app_opts a)) (mux_serve Z pick rs1)"
    by (simp add: sv make_server_def Let_def app_root_order)
  ultimately show ?thesis by blast
qed

section \<open>The server commits once\<close>

text \<open>The middlewares with a state of their own keep the contract too.\<close>

lemma rw_le_session_save [simp]: "rw_le w (fst (session_save st name vs w))"
  by (simp add: session_save_def split: sum.splits)

lemma keeps_unauthenticated: "keeps (ca_error a) \<Longrightarrow> keeps h \<Longrightarrow> keeps (unauthenticated a h)"
  by (auto simp: unauthenticated_def keepsD intro!: keepsI split: option.splits)

lemma cookie_auth_keeps:
  assumes "keeps (ca_error a)" "keeps h"
  shows "keeps (cookie_auth_mw st now a h)"
proof (rule keepsI)
  fix r w
  have no: "rw_le w (fst (unauthenticated a h r v))" if "rw_le w v" for v
    by (rule keeps_after [OF keeps_unauthenticated [OF assms] that])
  have yes: "rw_le w (fst (h r' v))" if "rw_le w v" for r' v by (rule keeps_after [OF assms(2) that])
  have exp: "rw_le w (expire_cookie a w)" by (simp add: expire_cookie_def)
  obtain w' e where s: "session_save st (ca_name a) ((fst (store_get st r (ca_name a)))(''last_access'' \<mapsto> AvTime now)) w = (w', e)"
    by fastforce
  with rw_le_session_save [of w st] have "rw_le w w'" by (metis fst_conv)
  with s no yes exp show "rw_le w (fst (cookie_auth_mw st now a h r w))"
    by (cases "store_get st r (ca_name a)")
       (auto simp: cookie_auth_mw_def Let_def split: option.splits auth_value.splits)
qed

lemma rw_le_clear_cookie: "rw_le w (fst (clear_cookie st r w))"
proof -
  have "rw_le w (fst (session_save st n vs (upd_hdrs f w)))" for n vs f
    by (rule rw_le_trans [OF rw_le_upd rw_le_session_save])
  then show ?thesis unfolding clear_cookie_def
    by (auto split: option.splits prod.splits) (metis fst_conv)+
qed

interpretation flash_safe: commit_safe "flash_mw st"
proof (unfold_locales, rule keepsI)
  fix h r w
  assume k: "keeps h"
  obtain got w1 where g: "get_flash_message st r ''flash_message'' w = (got, w1)" by fastforce
  then have "rw_le w w1" using rw_le_clear_cookie [of w st r]
    by (auto simp: get_flash_message_def split: option.splits)
  with g show "rw_le w (fst (flash_mw st h r w))"
    by (auto simp: flash_mw_def Let_def keepsD [OF k] keeps_after [OF k] split: sum.splits)
qed

lemma keeps_too_many: "rw_le w (fst (too_many_requests Z r w))"
  by (simp add: too_many_requests_def Let_def case_prod_beta rw_le_trans [OF rw_le_header rw_le_write])

text \<open>\<open>seen\<close> gives the buckets and the clock a request finds.\<close>

definition limiting :: "codecs \<Rightarrow> limit_config \<Rightarrow> (request \<Rightarrow> manager \<times> int) \<Rightarrow> middleware" where
  "limiting Z cfg seen h r w = fst (limit_mw Z cfg h r w (seen r))"

lemma limiting_keeps:
  assumes "\<And>g. l_error cfg = Some g \<Longrightarrow> keeps g" "keeps h"
  shows "keeps (limiting Z cfg seen h)"
  using assms
  by (auto simp: limiting_def limit_mw_def Let_def keepsD keeps_too_many split: option.splits prod.splits intro!: keepsI)

text \<open>Every middleware of the repository.\<close>

inductive served_mw :: "codecs \<Rightarrow> middleware \<Rightarrow> bool" for Z where
  "revelt_mw Z mw \<Longrightarrow> served_mw Z mw"
| "served_mw Z (flash_mw st)"
| "keeps (ca_error a) \<Longrightarrow> served_mw Z (cookie_auth_mw cst now a)"
| "(\<And>g. l_error cfg = Some g \<Longrightarrow> keeps g) \<Longrightarrow> served_mw Z (limiting Z cfg seen)"

lemma served_mw_keeps: "served_mw Z mw \<Longrightarrow> keeps h \<Longrightarrow> keeps (mw h)"
  by (induction rule: served_mw.induct)
     (auto intro: revelt_mw_keeps flash_safe.mw_keeps cookie_auth_keeps limiting_keeps)

text \<open>The static handler around a file server, and the handlers of the router.\<close>

lemma rw_le_static_headers [simp]: "rw_le w (static_headers path w)"
  by (simp add: static_headers_def)

lemma rw_le_static_flush:
  assumes "rw_le v w"
  shows "rw_le v (fst (static_flush Z w s))"
proof -
  let ?w1 = "upd_hdrs (hdel ''Content-Length'') (upd_hdrs (hset ''Content-Encoding'' ''gzip'') w)"
  have 1: "rw_le v ?w1" by (rule rw_le_trans [OF assms rw_le_trans [OF rw_le_upd rw_le_upd]])
  have 2: "rw_le v (if c then write_header k ?w1 else ?w1)" for c k
    using rw_le_trans [OF 1 rw_le_header] 1 by simp
  have 3: "rw_le v (fst (rw_write Z p (if c then write_header k ?w1 else ?w1)))" for c k p
    by (rule rw_le_trans [OF 2 rw_le_write])
  have 4: "rw_le v (fst (rw_write Z q (fst (rw_write Z p (if c then write_header k ?w1 else ?w1)))))" for c k p q
    by (rule rw_le_trans [OF 3 rw_le_write])
  show ?thesis unfolding static_flush_def Let_def case_prod_beta
    using 2 3 4 by (simp split del: if_split) (simp split: if_split)
qed

interpretation static_safe: commit_safe "static_handler Z raw pfx"
proof (unfold_locales, rule keepsI)
  fix h w and r :: request
  assume k: "keeps h"
  let ?w1 = "static_headers (trim_prefix (rq_path r) pfx) w"
  obtain w' res where h: "h r (BufW ?w1 bstate0) = (w', res)" by fastforce
  from keeps_inner(5) [OF k h] obtain v t where v: "w' = BufW v t" "rw_le ?w1 v" by blast
  then have "rw_le w v" by (blast intro: rw_le_trans [OF rw_le_static_headers])
  with h v show "rw_le w (fst (static_handler Z raw pfx h r w))"
    by (cases res) (auto simp: static_handler_def Let_def keeps_after [OF k] rw_le_static_flush)
qed

interpretation strip_safe: commit_safe "strip_prefix Z pfx"
  by unfold_locales (auto simp: strip_prefix_def Let_def not_found_def keepsD intro!: keepsI)

lemma rw_le_json_response [simp]: "rw_le w (write_json_response Z w code enc)"
proof -
  have "rw_le w (fst (rw_write Z p (write_header code (upd_hdrs f w))))" for p f
    by (rule rw_le_trans [OF rw_le_upd_header rw_le_write])
  then show ?thesis by (auto simp: write_json_response_def json_encode_def split: sum.splits)
qed

definition error_keeps :: "error_handler \<Rightarrow> bool" where
  "error_keeps eh \<longleftrightarrow> (\<forall>r w e. rw_le w (eh r w e))"

lemma adapt_keeps: "error_keeps eh \<Longrightarrow> keeps h \<Longrightarrow> keeps (adapt h eh)"
proof (rule keepsI)
  fix r w
  assume eh: "error_keeps eh" and k: "keeps h"
  obtain w' res where h: "h r w = (w', res)" by fastforce
  with keepsD [OF k, of w r] have "rw_le w w'" by simp
  with h eh show "rw_le w (fst (adapt h eh r w))"
    by (cases res) (auto simp: adapt_def error_keeps_def intro: rw_le_trans)
qed

lemma default_error_keeps: "error_keeps (\<lambda>r w e. default_error_handler Z w e)"
  by (simp add: error_keeps_def default_error_handler_def)

lemma health_keeps: "keeps (\<lambda>r w. (healthz Z (stats r) w, HNil))" "keeps (\<lambda>r w. (readyz Z (stats r) w, HNil))"
  by (auto simp: healthz_def readyz_def Let_def intro!: keepsI)

definition routes_keep :: "routes \<Rightarrow> bool" where
  "routes_keep rs \<longleftrightarrow> (\<forall>h \<in> snd ` set rs. keeps h)"

fun reg_keeps :: "registration \<Rightarrow> bool" where
  "reg_keeps (Handle p h) = keeps h"
| "reg_keeps (HandleFunc p h) = keeps h"
| "reg_keeps (HandleStd p h) = keeps h"
| "reg_keeps (HandleFuncStd p h) = keeps h"
| "reg_keeps HealthEndpoints = True"

lemma mux_serve_keeps: "routes_keep rs \<Longrightarrow> keeps (mux_serve Z pick rs)"
  by (auto simp: mux_serve_def not_found_def routes_keep_def keepsD split: option.splits dest!: map_of_SomeD
    intro!: keepsI) (metis keepsD snd_conv rev_image_eqI)

lemma mux_handle_keeps:
  "mux_handle conflict p h rs = Done rs' \<Longrightarrow> keeps h \<Longrightarrow> routes_keep rs \<Longrightarrow> routes_keep rs'"
  by (auto simp: mux_handle_done routes_keep_def)

lemma register_all_keeps:
  assumes "error_keeps eh"
  shows "register_all conflict Z eh stats xs rs = Done rs' \<Longrightarrow> \<forall>x \<in> set xs. reg_keeps x \<Longrightarrow>
    routes_keep rs \<Longrightarrow> routes_keep rs'"
proof (induction xs arbitrary: rs)
  case (Cons x xs)
  then obtain rs1 where x: "register conflict Z eh stats x rs = Done rs1"
    and xs: "register_all conflict Z eh stats xs rs1 = Done rs'" by (auto split: outcome.splits)
  have "routes_keep rs1"
  proof (cases "x = HealthEndpoints")
    case True
    with x obtain rs2 where "mux_handle conflict ''/healthz'' (\<lambda>r w. (healthz Z (stats r) w, HNil)) rs = Done rs2"
      "mux_handle conflict ''/readyz'' (\<lambda>r w. (readyz Z (stats r) w, HNil)) rs2 = Done rs1"
      by (auto simp: register_simps split: outcome.splits)
    with Cons.prems(3) health_keeps show ?thesis by (meson mux_handle_keeps)
  next
    case False
    with x Cons.prems(2,3) show ?thesis
      by (cases x) (auto simp: register_simps intro: mux_handle_keeps adapt_keeps [OF assms])
  qed
  with Cons.IH [OF xs] Cons.prems(2) show ?case by simp
qed simp

lemma server_keeps:
  assumes "serve_app conflict pick Z file_server stats given xs a = Done sv"
    "\<forall>mw \<in> set (app_middleware (app_opts a)). served_mw Z mw" "error_keeps (app_error_handler (app_opts a))"
    "\<forall>x \<in> set xs. reg_keeps x" "\<And>root. keeps (file_server root)"
  shows "keeps (sv_handler sv)"
proof -
  obtain rs rs1 where st: "register_static conflict Z file_server a given [] = Done rs"
    and all: "register_all conflict Z (app_error_handler (app_opts a)) stats xs rs = Done rs1"
    and sv: "sv = make_server Z pick a rs1" by (rule serve_app_done [OF assms(1)])
  have "routes_keep rs"
    by (rule mux_handle_keeps [OF st [unfolded register_static_def Let_def]
        static_safe.mw_keeps [OF strip_safe.mw_keeps [OF assms(5)]]]) (simp add: routes_keep_def)
  then have "keeps (mux_serve Z pick rs1)"
    by (intro mux_serve_keeps register_all_keeps [OF assms(3) all assms(4)])
  then have "keeps (foldr (\<lambda>mw h. mw h) mws (mux_serve Z pick rs1))"
    if "\<forall>mw \<in> set mws. served_mw Z mw" for mws
    using that by (induction mws) (auto intro: served_mw_keeps)
  with assms(2) show ?thesis by (simp add: sv make_server_def Let_def app_root_order)
qed


text \<open>An application with a page behind gzip and a session, and one client.\<close>

definition demo_site :: "codecs \<Rightarrow> middleware list \<Rightarrow> app" where
  "demo_site Z mws =
     \<lparr>app_renderer = \<lparr>rend_pool = demo_pool_down, rend_cfg = default_config 2, rend_project = None\<rparr>,
      app_cfg = demo_project, app_opts = (app_defaults Z)\<lparr>app_middleware := mws\<rparr>\<rparr>"

definition demo_routes :: "registration list" where
  "demo_routes = [HealthEndpoints, Handle ''/a'' (\<lambda>r. run_prog demo_codecs (demo_page r))]"

definition demo_pick :: "string list \<Rightarrow> request \<Rightarrow> string option" where
  "demo_pick ps r = find (\<lambda>p. has_prefix (rq_path r) p) ps"

definition demo_serve :: "middleware list \<Rightarrow> http_server outcome" where
  "demo_serve mws = serve_app (=) demo_pick demo_codecs (\<lambda>_. not_found demo_codecs) (\<lambda>_. []) None demo_routes
     (demo_site demo_codecs mws)"

lemma demo_serve_done: "\<exists>sv. demo_serve mws = Done sv"
  by (simp add: demo_serve_def serve_app_def register_static_def Let_def mux_handle_def demo_site_def
      demo_project_def demo_routes_def register_simps)

theorem routes_reach_their_handler_witness:
  "\<exists>sv. demo_serve [] = Done sv \<and>
     sv_handler sv demo_request (Conn demo_conn) = run_prog demo_codecs (demo_page demo_request) (Conn demo_conn)"
proof -
  obtain sv where sv: "demo_serve [] = Done sv" using demo_serve_done by blast
  let ?h = "\<lambda>r. run_prog demo_codecs (demo_page r)" and ?a = "demo_site demo_codecs []"
  have "\<exists>router. sv_handler sv = foldr (\<lambda>mw h. mw h) (app_middleware (app_opts ?a)) router \<and>
     (\<forall>r w. demo_pick (static_prefix (app_cfg ?a) # concat (map reg_pattern demo_routes)) r = Some ''/a'' \<longrightarrow>
        router r w = adapt ?h (app_error_handler (app_opts ?a)) r w)"
    by (rule routes_reach_their_handler [OF sv [unfolded demo_serve_def], of "Handle ''/a'' ?h"]) (simp_all add: demo_routes_def)
  moreover have "demo_pick (static_prefix (app_cfg ?a) # concat (map reg_pattern demo_routes)) demo_request = Some ''/a''"
    by (simp add: demo_pick_def demo_site_def demo_project_def demo_routes_def reg_pattern_def demo_request_def has_prefix_def)
  moreover have "app_middleware (app_opts ?a) = []" by (simp add: demo_site_def app_defaults_def)
  moreover have "snd (?h demo_request (Conn demo_conn)) = HNil" by (simp add: demo_page_def case_prod_beta)
  ultimately have "sv_handler sv demo_request (Conn demo_conn) = ?h demo_request (Conn demo_conn)"
    by (auto simp: adapt_def split: prod.splits hresult.splits)
  with sv show ?thesis by blast
qed


section \<open>Pages that need no Node process\<close>

text \<open>What the page shows for a client-only slot.\<close>

definition client_html :: "project_config \<Rightarrow> slot_request \<Rightarrow> string" where
  "client_html c sl =
     placeholder (the (component_modes c (slot_component sl))) (slot_component sl) (escape_html (projr (props_json (slot_props sl))))"

definition client_slot :: "project_config \<Rightarrow> slot_request \<Rightarrow> bool" where
  "client_slot c sl \<longleftrightarrow> slot_component sl \<noteq> [] \<and> is_ok (props_json (slot_props sl)) \<and>
     (case component_modes c (slot_component sl) of None \<Rightarrow> False | Some mode \<Rightarrow> is_client_only mode)"

lemma run_slots_stays:
  assumes "\<And>i. i \<in> set order \<Longrightarrow> snd (rend s (slot_component (sls ! i)) (slot_props (sls ! i))) = s"
  shows "snd (run_slots rend sls order s results) = s"
  using assms by (induction order arbitrary: results) (auto simp: case_prod_beta)

lemma client_slot_rendered:
  assumes "rend_project (app_renderer a) = Some c" "client_slot c sl"
  shows "render_component ip spawned work a p (slot_component sl) (slot_props sl) = (Inr (client_html c sl), p)"
  using assms
  by (auto simp: render_component_def render_def client_slot_def client_html_def is_ok_def split: option.splits sum.splits)

text \<open>
  C12: client-only pages survive the loss of every Node process. A page whose slots are all
  client-only components of the project (with properties that can be marshalled) is the template
  filled with their placeholders, whatever the state of the pool, whether replacements can be
  started, whatever the workers would answer, and in whatever order the slots are rendered; and
  the pool is left exactly as it was.
\<close>

theorem client_only_page:
  assumes "rend_project (app_renderer a) = Some c" "\<forall>sl \<in> set (pb_slots b). client_slot c sl"
    "distinct order" "set order = {..<length (pb_slots b)}" "resolve_template (pb_template b) opened = Inr tmpl"
  shows "page_builder_render ip Z spawned work parse exec a b opened order p w =
     (page_respond Z parse exec tmpl (map_of (rev (map (\<lambda>sl. (slot_key sl, client_html c sl)) (pb_slots b)))) w, p)"
proof -
  let ?sls = "pb_slots b" and ?rend = "render_component ip spawned work a"
  have each: "?rend q (slot_component (?sls ! i)) (slot_props (?sls ! i)) = (Inr (client_html c (?sls ! i)), q)"
    if "i < length ?sls" for i q
    using assms(2) that by (intro client_slot_rendered [OF assms(1)]) simp
  from page_render_spec [OF assms(3-5), of ?rend ip Z parse exec p w] obtain ans where
    ans: "\<forall>i < length ?sls. \<exists>u. ans i = fst (?rend u (slot_component (?sls ! i)) (slot_props (?sls ! i)))"
    "fst (page_render ip Z ?rend parse exec (pb_template b) opened ?sls order p w) = page_spec ip Z parse exec tmpl ?sls ans w"
    by blast
  then have a: "ans i = Inr (client_html c (?sls ! i))" if "i < length ?sls" for i using each that by fastforce
  then have "find (\<lambda>i. \<not> is_ok (ans i)) [0..<length ?sls] = None" by (auto simp: find_None_iff is_ok_def)
  moreover have "map (\<lambda>i. (slot_key (?sls ! i), projr (ans i))) [0..<length ?sls] =
      map (\<lambda>sl. (slot_key sl, client_html c sl)) ?sls"
    using a by (intro nth_equalityI) simp_all
  ultimately have "page_spec ip Z parse exec tmpl ?sls ans w =
      page_respond Z parse exec tmpl (map_of (rev (map (\<lambda>sl. (slot_key sl, client_html c sl)) ?sls))) w"
    by (simp add: page_spec_def)
  moreover have "snd (run_slots ?rend ?sls order p results) = p" for results
    using each assms(4) by (intro run_slots_stays) auto
  ultimately show ?thesis using ans(2) assms(5)
    by (simp add: page_builder_render_def page_render_def case_prod_beta prod_eq_iff)
qed

text \<open>A page with one chart, while no worker is alive and none can be started.\<close>

theorem client_only_page_witness:
  "page_builder_render (\<lambda>_. True) demo_codecs (Some (GErr ''no node'')) (\<lambda>_ _ _ _. Inl (GErr ''dead''))
     Inr (\<lambda>t m. Inr (t @ the (m ''A'')))
     ((demo_site demo_codecs [])\<lparr>app_renderer := \<lparr>rend_pool = demo_pool_down, rend_cfg = default_config 2,
        rend_project = Some demo_project\<rparr>\<rparr>)
     (page_slot ''A'' ''Chart'' None (new_page_with_template ''x'')) (Inl (GErr ''absent'')) [0] (demo_pool_down\<lparr>live := (\<lambda>_. False)\<rparr>)
     (Conn demo_conn) =
   (page_respond demo_codecs Inr (\<lambda>t m. Inr (t @ the (m ''A''))) ''x''
     [''A'' \<mapsto> client_html demo_project \<lparr>slot_key = ''A'', slot_component = ''Chart'', slot_props = None\<rparr>] (Conn demo_conn),
    demo_pool_down\<lparr>live := (\<lambda>_. False)\<rparr>)"
proof -
  let ?b = "page_slot ''A'' ''Chart'' None (new_page_with_template ''x'')"
  let ?a = "(demo_site demo_codecs [])\<lparr>app_renderer := \<lparr>rend_pool = demo_pool_down, rend_cfg = default_config 2,
        rend_project = Some demo_project\<rparr>\<rparr>"
  have b: "pb_slots ?b = [\<lparr>slot_key = ''A'', slot_component = ''Chart'', slot_props = None\<rparr>]" "pb_template ?b = ''x''"
    by (simp_all add: page_slot_def new_page_with_template_def)
  have "rend_project (app_renderer ?a) = Some demo_project" by simp
  moreover have "\<forall>sl \<in> set (pb_slots ?b). client_slot demo_project sl"
    by (simp add: b client_slot_def demo_project_def is_client_only_def props_json_def is_ok_def)
  moreover have "set [0] = {..<length (pb_slots ?b)}" by (auto simp: b)
  moreover have "resolve_template (pb_template ?b) (Inl (GErr ''absent'')) = Inr ''x''" by (simp add: b resolve_template_def)
  ultimately have "page_builder_render (\<lambda>_. True) demo_codecs (Some (GErr ''no node'')) (\<lambda>_ _ _ _. Inl (GErr ''dead''))
     Inr (\<lambda>t m. Inr (t @ the (m ''A''))) ?a ?b (Inl (GErr ''absent'')) [0] (demo_pool_down\<lparr>live := (\<lambda>_. False)\<rparr>) (Conn demo_conn) =
   (page_respond demo_codecs Inr (\<lambda>t m. Inr (t @ the (m ''A''))) ''x''
     (map_of (rev (map (\<lambda>sl. (slot_key sl, client_html demo_project sl)) (pb_slots ?b)))) (Conn demo_conn),
    demo_pool_down\<lparr>live := (\<lambda>_. False)\<rparr>)"
    by (intro client_only_page) simp_all
  then show ?thesis by (simp add: b)
qed

end
