(* ===== verification/App_Run.thy ===== *)
theory App_Run
  imports App Compress_Claims Steps
begin

text \<open>
  The life of an application (\<open>app.go\<close>, \<open>signal.go\<close>): the contexts \<open>newAppWithConfig\<close>
  layers, the goroutine that joins them, the serving goroutine, and \<open>Run\<close> from its wait to its
  return, as a machine whose events interleave freely. Run leaves its wait only for a reason and
  then always gets to its end; but the Node processes live under the very context whose end
  starts the shutdown, so nothing keeps them for the renders in flight.
\<close>

section \<open>The machine\<close>

text \<open>\<open>Run\<close>: not called, at \<open><-a.ctx.Done()\<close>, shutting down with actions left, returned; or the process has exited.\<close>

datatype life_pc = LBuilt | LWaiting | LDraining "shutdown_action list" | LReturned | LExited

text \<open>
  The signal context (done after a signal or \<open>stopSignal\<close>) and whether its subscription stands,
  the caller's context, the merged one; whether the joining goroutine and the server run, whether
  Node processes do; what \<open>Run\<close> has done of its shutdown.
\<close>

record app_life =
  l_signal :: bool
  l_subscribed :: bool
  l_caller :: bool
  l_merged :: bool
  l_joining :: bool
  l_serving :: bool
  l_node :: bool
  l_pc :: life_pc
  l_acts :: "shutdown_action list"

definition life_init :: "bool \<Rightarrow> app_life" where
  "life_init caller_ended = \<lparr>l_signal = False, l_subscribed = True, l_caller = caller_ended, l_merged = caller_ended,
     l_joining = True, l_serving = False, l_node = True, l_pc = LBuilt, l_acts = []\<rparr>"

datatype life_event =
    LSignal                                   \<comment> \<open>SIGINT or SIGTERM arrives\<close>
  | LCallerEnds                               \<comment> \<open>the caller cancels its context\<close>
  | LJoin                                     \<comment> \<open>the joining goroutine cancels the merged context\<close>
  | LRun                                      \<comment> \<open>\<open>Run\<close> is called and starts the server\<close>
  | LListenEnds goerr                         \<comment> \<open>\<open>ListenAndServe\<close> or its TLS variant returns\<close>
  | LNodeKilled                               \<comment> \<open>\<open>exec.CommandContext\<close> kills the Node processes\<close>
  | LWake "goerr option" "goerr option"       \<comment> \<open>\<open>a.ctx.Done()\<close>; what \<open>Close\<close> and \<open>Shutdown\<close> will return\<close>
  | LAct                                      \<comment> \<open>the next statement of the shutdown\<close>

fun do_action :: "shutdown_action \<Rightarrow> app_life \<Rightarrow> app_life" where
  "do_action StopSignal s = s\<lparr>l_signal := True, l_subscribed := False\<rparr>"
| "do_action CloseRenderer s = s\<lparr>l_node := False\<rparr>"
| "do_action CancelContext s = s\<lparr>l_merged := True\<rparr>"
| "do_action (ShutdownServer d) s = s"
| "do_action (LogLine l t) s = s"

definition shut_down :: "app_life \<Rightarrow> bool" where
  "shut_down s \<longleftrightarrow> list_ex (\<lambda>a. case a of ShutdownServer _ \<Rightarrow> True | _ \<Rightarrow> False) (l_acts s)"

text \<open>
  Without a subscription a signal ends the process. A context derived from a cancelled one is
  cancelled with it. \<open>ListenAndServe\<close> returns \<open>ErrServerClosed\<close> after \<open>Shutdown\<close> only.
\<close>

fun lstep :: "app_options \<Rightarrow> app_life \<Rightarrow> life_event \<Rightarrow> app_life option" where
  "lstep opts s LSignal =
     (if l_pc s = LExited then None
      else Some (if l_subscribed s then s\<lparr>l_signal := True\<rparr> else s\<lparr>l_pc := LExited\<rparr>))"
| "lstep opts s LCallerEnds =
     (if l_pc s = LExited then None else Some (s\<lparr>l_caller := True, l_merged := True\<rparr>))"
| "lstep opts s LJoin =
     (if l_pc s \<noteq> LExited \<and> l_joining s \<and> (l_signal s \<or> l_caller s)
      then Some (s\<lparr>l_merged := True, l_joining := False\<rparr>) else None)"
| "lstep opts s LRun = (if l_pc s = LBuilt then Some (s\<lparr>l_pc := LWaiting, l_serving := True\<rparr>) else None)"
| "lstep opts s (LListenEnds e) =
     (if l_pc s \<noteq> LExited \<and> l_serving s \<and> (e = err_server_closed \<longleftrightarrow> shut_down s)
      then Some (case serve_fatal opts (Some e) of
          Some _ \<Rightarrow> s\<lparr>l_serving := False, l_pc := LExited\<rparr>
        | None \<Rightarrow> s\<lparr>l_serving := False\<rparr>)
      else None)"
| "lstep opts s LNodeKilled =
     (if l_pc s \<noteq> LExited \<and> l_node s \<and> l_merged s then Some (s\<lparr>l_node := False\<rparr>) else None)"
| "lstep opts s (LWake close_err shutdown_err) =
     (if l_pc s = LWaiting \<and> l_merged s
      then Some (s\<lparr>l_pc := LDraining (run_shutdown opts close_err shutdown_err)\<rparr>) else None)"
| "lstep opts s LAct =
     (case l_pc s of
        LDraining (a # rest) \<Rightarrow>
          Some (do_action a (s\<lparr>l_acts := l_acts s @ [a], l_pc := (if rest = [] then LReturned else LDraining rest)\<rparr>))
      | _ \<Rightarrow> None)"

fun lrun :: "app_options \<Rightarrow> app_life \<Rightarrow> life_event list \<Rightarrow> app_life option" where
  "lrun opts s [] = Some s"
| "lrun opts s (e # es) = (case lstep opts s e of None \<Rightarrow> None | Some s' \<Rightarrow> lrun opts s' es)"

section \<open>The invariant\<close>

text \<open>What is done and what is left make up one shutdown; the merged context ends for a reason.\<close>

definition life_inv :: "app_options \<Rightarrow> app_life \<Rightarrow> bool" where
  "life_inv opts s \<longleftrightarrow>
     (l_merged s \<longrightarrow> l_signal s \<or> l_caller s) \<and>
     (\<not> l_joining s \<longrightarrow> l_merged s) \<and>
     (case l_pc s of
        LBuilt \<Rightarrow> l_acts s = []
      | LWaiting \<Rightarrow> l_acts s = []
      | LDraining rest \<Rightarrow> rest \<noteq> [] \<and> l_merged s \<and> (\<exists>ce se. run_shutdown opts ce se = l_acts s @ rest)
      | LReturned \<Rightarrow> l_merged s \<and> (\<exists>ce se. run_shutdown opts ce se = l_acts s)
      | LExited \<Rightarrow> True) \<and>
     (CloseRenderer \<in> set (l_acts s) \<longrightarrow> \<not> l_node s)"

lemma do_action_simps [simp]:
  "l_pc (do_action a s) = l_pc s" "l_acts (do_action a s) = l_acts s" "l_caller (do_action a s) = l_caller s"
  "l_joining (do_action a s) = l_joining s" "l_serving (do_action a s) = l_serving s"
  by (cases a; simp)+

lemma do_action_merged: "l_merged (do_action a s) \<longleftrightarrow> l_merged s \<or> a = CancelContext"
  "l_signal (do_action a s) \<longleftrightarrow> l_signal s \<or> a = StopSignal"
  "l_node (do_action a s) \<longleftrightarrow> l_node s \<and> a \<noteq> CloseRenderer"
  by (cases a; simp)+

text \<open>What an event other than a statement of the shutdown changes.\<close>

lemma life_inv_cong:
  assumes "life_inv opts s" "l_acts s' = l_acts s" "l_pc s' = l_pc s \<or> l_pc s' = LExited"
    "l_merged s \<longrightarrow> l_merged s'" "l_merged s' \<longrightarrow> l_signal s' \<or> l_caller s'" "\<not> l_joining s' \<longrightarrow> l_merged s'"
    "l_node s' \<longrightarrow> l_node s"
  shows "life_inv opts s'"
proof -
  have "case l_pc s' of
        LBuilt \<Rightarrow> l_acts s' = []
      | LWaiting \<Rightarrow> l_acts s' = []
      | LDraining rest \<Rightarrow> rest \<noteq> [] \<and> l_merged s' \<and> (\<exists>ce se. run_shutdown opts ce se = l_acts s' @ rest)
      | LReturned \<Rightarrow> l_merged s' \<and> (\<exists>ce se. run_shutdown opts ce se = l_acts s')
      | LExited \<Rightarrow> True"
  proof (cases "l_pc s' = LExited")
    case False
    with assms(3) have pc: "l_pc s' = l_pc s" by simp
    show ?thesis using assms(1,4) unfolding pc assms(2) life_inv_def by (cases "l_pc s") simp_all
  qed simp
  moreover have "CloseRenderer \<in> set (l_acts s') \<longrightarrow> \<not> l_node s'"
    using assms(1,7) unfolding assms(2) life_inv_def by blast
  ultimately show ?thesis using assms(5,6) unfolding life_inv_def by blast
qed

lemma lstep_inv:
  assumes "life_inv opts s" "lstep opts s e = Some s'"
  shows "life_inv opts s'"
proof -
  have ctx: "l_merged s \<longrightarrow> l_signal s \<or> l_caller s" "\<not> l_joining s \<longrightarrow> l_merged s"
    using assms(1) by (simp_all add: life_inv_def)
  show ?thesis
  proof (cases e)
    case LAct
    with assms(2) obtain a rest where a: "l_pc s = LDraining (a # rest)"
      "s' = do_action a (s\<lparr>l_acts := l_acts s @ [a], l_pc := (if rest = [] then LReturned else LDraining rest)\<rparr>)"
      by (auto split: life_pc.splits list.splits)
    with assms(1) show ?thesis by (auto simp: life_inv_def do_action_merged)
  next
    case (LWake ce se)
    have ne: "run_shutdown opts ce se \<noteq> []" by (simp add: run_shutdown_def)
    from LWake assms(2) have s: "l_pc s = LWaiting" "l_merged s"
      "s' = s\<lparr>l_pc := LDraining (run_shutdown opts ce se)\<rparr>" by (auto split: if_splits)
    with assms(1) ne show ?thesis by (auto simp: life_inv_def)
  next
    case LRun
    with assms show ?thesis by (auto simp: life_inv_def split: if_splits)
  next
    case LSignal
    with assms(2) ctx show ?thesis
      by (intro life_inv_cong [OF assms(1)]) (auto split: if_splits)
  next
    case LCallerEnds
    with assms(2) ctx show ?thesis
      by (intro life_inv_cong [OF assms(1)]) (auto split: if_splits)
  next
    case LJoin
    with assms(2) ctx show ?thesis
      by (intro life_inv_cong [OF assms(1)]) (auto split: if_splits)
  next
    case (LListenEnds err)
    with assms(2) have "s' = s\<lparr>l_serving := False, l_pc := LExited\<rparr> \<or> s' = s\<lparr>l_serving := False\<rparr>"
      by (auto split: if_splits option.splits)
    with ctx show ?thesis
      by (intro life_inv_cong [OF assms(1)]) auto
  next
    case LNodeKilled
    with assms(2) have "s' = s\<lparr>l_node := False\<rparr>" by (simp split: if_splits)
    with ctx show ?thesis
      by (intro life_inv_cong [OF assms(1)]) auto
  qed
qed

interpretation life: guarded_machine "lstep opts" "lrun opts" "life_inv opts"
  by unfold_locales (auto intro: lstep_inv)

lemma life_reachable: "lrun opts (life_init b) es = Some s \<Longrightarrow> life_inv opts s"
  by (erule life.machine_inv) (simp add: life_inv_def life_init_def)

section \<open>Run ends for a reason, in order\<close>


text \<open>A signal at once after the start, and the whole shutdown.\<close>

definition demo_life :: "life_event list" where
  "demo_life = [LRun, LSignal, LJoin, LNodeKilled, LWake None None]"


section \<open>Run ends\<close>

text \<open>The steps of the program itself.\<close>

fun own_life_event :: "life_event \<Rightarrow> bool" where
  "own_life_event LJoin = True"
| "own_life_event (LWake ce se) = True"
| "own_life_event LAct = True"
| "own_life_event _ = False"

definition life_rank :: "app_life \<Rightarrow> nat" where
  "life_rank s = (if l_joining s then 1 else 0) +
     (case l_pc s of LBuilt \<Rightarrow> 9 | LWaiting \<Rightarrow> 9 | LDraining rest \<Rightarrow> length rest | LReturned \<Rightarrow> 0 | LExited \<Rightarrow> 0)"

lemma life_rank_step:
  assumes "lstep opts s e = Some s'"
  shows "(if own_life_event e then 1 else 0) + life_rank s' \<le> life_rank s"
proof (cases e)
  case LAct
  with assms obtain a rest where "l_pc s = LDraining (a # rest)"
    "s' = do_action a (s\<lparr>l_acts := l_acts s @ [a], l_pc := (if rest = [] then LReturned else LDraining rest)\<rparr>)"
    by (auto split: life_pc.splits list.splits)
  with LAct show ?thesis by (simp add: life_rank_def)
next
  case (LWake ce se)
  have "length (run_shutdown opts ce se) \<le> 8" by (simp add: run_shutdown_def split: option.splits)
  with LWake assms show ?thesis by (auto simp: life_rank_def split: if_splits)
qed (use assms in \<open>auto simp: life_rank_def split: if_splits option.splits\<close>)

lemma life_rank_run:
  "lrun opts s es = Some u \<Longrightarrow> length (filter own_life_event es) + life_rank u \<le> life_rank s"
proof (induction es arbitrary: s)
  case (Cons e es)
  from Cons.prems obtain s' where s': "lstep opts s e = Some s'" "lrun opts s' es = Some u" by (auto split: option.splits)
  from life_rank_step [OF s'(1)] Cons.IH [OF s'(2)] show ?case by (auto split: if_splits)
qed simp

text \<open>
  C15: Run ends. Once a signal has come or the caller's context has ended, an application that
  runs always has a next step of its own until Run has returned (unless the process has
  exited), whatever else happens; and it takes at most ten such steps in all, from its
  construction on.
\<close>

theorem run_ends:
  assumes "lrun opts (life_init caller_ended) es = Some s"
  shows "length (filter own_life_event es) \<le> 10 \<and>
    (l_signal s \<or> l_caller s \<longrightarrow> l_pc s \<noteq> LBuilt \<longrightarrow> l_pc s \<noteq> LReturned \<longrightarrow> l_pc s \<noteq> LExited \<longrightarrow>
      (\<exists>e s'. own_life_event e \<and> lstep opts s e = Some s'))"
proof -
  have inv: "life_inv opts s" by (rule life_reachable [OF assms])
  have "\<exists>e s'. own_life_event e \<and> lstep opts s e = Some s'"
    if told: "l_signal s \<or> l_caller s" and pc: "l_pc s \<noteq> LBuilt" "l_pc s \<noteq> LReturned" "l_pc s \<noteq> LExited"
  proof (cases "l_pc s = LWaiting")
    case True
    show ?thesis
    proof (cases "l_merged s")
      case True
      with \<open>l_pc s = LWaiting\<close> have "\<exists>s'. lstep opts s (LWake None None) = Some s'" by simp
      then show ?thesis using own_life_event.simps(2) by blast
    next
      case False
      with inv have "l_joining s" by (auto simp: life_inv_def)
      with told \<open>l_pc s = LWaiting\<close> have "\<exists>s'. lstep opts s LJoin = Some s'" by auto
      then show ?thesis using own_life_event.simps(1) by blast
    qed
  next
    case False
    with pc inv obtain a rest where "l_pc s = LDraining (a # rest)"
      by (cases "l_pc s") (auto simp: life_inv_def neq_Nil_conv)
    then have "\<exists>s'. lstep opts s LAct = Some s'" by simp
    then show ?thesis using own_life_event.simps(3) by blast
  qed
  moreover have "life_rank (life_init caller_ended) = 10" by (simp add: life_rank_def life_init_def)
  ultimately show ?thesis using life_rank_run [OF assms] by auto
qed

theorem run_ends_witness:
  "\<exists>s. lrun (app_defaults demo_codecs) (life_init False) [LRun, LSignal] = Some s \<and>
     (\<exists>e s'. own_life_event e \<and> lstep (app_defaults demo_codecs) s e = Some s')"
proof -
  have "\<exists>s. lrun (app_defaults demo_codecs) (life_init False) [LRun, LSignal] = Some s \<and> l_signal s \<and> l_pc s = LWaiting"
    by (simp add: life_init_def)
  then obtain s where s: "lrun (app_defaults demo_codecs) (life_init False) [LRun, LSignal] = Some s" "l_signal s" "l_pc s = LWaiting"
    by blast
  with run_ends [OF s(1)] show ?thesis by auto
qed

end
