(* ===== verification/Ratelimit_Race.thy ===== *)
theory Ratelimit_Race
  imports Ratelimit_Claims
begin

text \<open>
  \<open>Manager.Allow\<close> is not one step: it looks the bucket up under a read lock, creates it under
  the write lock if it is missing (after a second look), and takes a token under the lock of the
  bucket alone. Here these critical sections interleave over a heap of buckets, with the
  cleanups between them. The decisions are those of the manager that works in one step, as long
  as a cleanup evicts no bucket a request is about to use; else a client can spend twice.
\<close>

section \<open>Critical sections\<close>

text \<open>Where a call of \<open>Allow\<close> is: not begun or done, the bucket missing, the bucket in hand.\<close>

datatype lim_pc = LpIdle | LpMissed string | LpHas string nat

record lim_heap =
  lh_rate :: rat
  lh_capacity :: rat
  lh_expiration :: int
  lh_next :: nat
  lh_objs :: "nat \<Rightarrow> bucket"
  lh_map :: "string \<rightharpoonup> nat"
  lh_reqs :: "nat \<Rightarrow> lim_pc"

definition lim_init :: "rat \<Rightarrow> rat \<Rightarrow> int \<Rightarrow> lim_heap" where
  "lim_init rate capacity expiration =
     \<lparr>lh_rate = rate, lh_capacity = capacity, lh_expiration = expiration, lh_next = 0,
      lh_objs = (\<lambda>_. new_bucket capacity 0), lh_map = (\<lambda>_. None), lh_reqs = (\<lambda>_. LpIdle)\<rparr>"

text \<open>The critical sections of call \<open>t\<close>, each at a time.\<close>

datatype lim_event =
    ALookup nat string int
  | ACreate nat int
  | ATake nat int
  | AClean int

text \<open>The step with, for a token asked for, the key, the time and whether there was one.\<close>

fun lim_step :: "lim_heap \<Rightarrow> lim_event \<Rightarrow> (lim_heap \<times> (string \<times> int \<times> bool) option) option" where
  "lim_step s (ALookup t key now) =
     (if lh_reqs s t = LpIdle
      then Some (s\<lparr>lh_reqs := (lh_reqs s)(t :=
          (case lh_map s key of None \<Rightarrow> LpMissed key | Some b \<Rightarrow> LpHas key b))\<rparr>, None)
      else None)"
| "lim_step s (ACreate t now) =
     (case lh_reqs s t of
        LpMissed key \<Rightarrow>
          Some ((case lh_map s key of
              Some b \<Rightarrow> s\<lparr>lh_reqs := (lh_reqs s)(t := LpHas key b)\<rparr>
            | None \<Rightarrow> s\<lparr>lh_next := Suc (lh_next s),
                lh_objs := (lh_objs s)(lh_next s := new_bucket (lh_capacity s) now),
                lh_map := (lh_map s)(key \<mapsto> lh_next s),
                lh_reqs := (lh_reqs s)(t := LpHas key (lh_next s))\<rparr>), None)
      | _ \<Rightarrow> None)"
| "lim_step s (ATake t now) =
     (case lh_reqs s t of
        LpHas key b \<Rightarrow>
          (let (ok, b') = bucket_allow (lh_rate s) (lh_capacity s) now (lh_objs s b)
           in Some (s\<lparr>lh_objs := (lh_objs s)(b := b'), lh_reqs := (lh_reqs s)(t := LpIdle)\<rparr>, Some (key, now, ok)))
      | _ \<Rightarrow> None)"
| "lim_step s (AClean now) =
     Some (s\<lparr>lh_map := (\<lambda>key. case lh_map s key of
         None \<Rightarrow> None
       | Some b \<Rightarrow> if now - last_refill (lh_objs s b) > lh_expiration s then None else Some b)\<rparr>, None)"

fun lim_run :: "lim_heap \<Rightarrow> lim_event list \<Rightarrow> (lim_heap \<times> (string \<times> int \<times> bool) list) option" where
  "lim_run s [] = Some (s, [])"
| "lim_run s (e # es) =
     (case lim_step s e of
        None \<Rightarrow> None
      | Some (s', out) \<Rightarrow>
          (case lim_run s' es of
             None \<Rightarrow> None
           | Some (u, outs) \<Rightarrow> Some (u, (case out of None \<Rightarrow> outs | Some x \<Rightarrow> x # outs))))"

fun lim_time :: "lim_event \<Rightarrow> int" where
  "lim_time (ALookup t key now) = now"
| "lim_time (ACreate t now) = now"
| "lim_time (ATake t now) = now"
| "lim_time (AClean now) = now"

section \<open>The manager in one step\<close>

text \<open>The calls as they take effect, with the cleanups between them.\<close>

fun lim_trace :: "lim_heap \<Rightarrow> lim_event list \<Rightarrow> mevent list" where
  "lim_trace s [] = []"
| "lim_trace s (e # es) =
     (case lim_step s e of
        None \<Rightarrow> []
      | Some (s', out) \<Rightarrow>
          (case (e, out) of
             (AClean now, _) \<Rightarrow> [MCleanup now]
           | (_, Some (key, now, ok)) \<Rightarrow> [MAllow key now]
           | _ \<Rightarrow> []) @ lim_trace s' es)"

text \<open>No cleanup evicts a bucket that a call has in hand.\<close>

definition evicts_nothing_held :: "lim_heap \<Rightarrow> int \<Rightarrow> bool" where
  "evicts_nothing_held s now \<longleftrightarrow>
     (\<forall>t key b. lh_reqs s t = LpHas key b \<longrightarrow> now - last_refill (lh_objs s b) \<le> lh_expiration s)"

fun undisturbed :: "lim_heap \<Rightarrow> lim_event list \<Rightarrow> bool" where
  "undisturbed s [] = True"
| "undisturbed s (e # es) =
     ((case e of AClean now \<Rightarrow> evicts_nothing_held s now | _ \<Rightarrow> True) \<and>
      (case lim_step s e of None \<Rightarrow> True | Some (s', _) \<Rightarrow> undisturbed s' es))"

definition heap_ok :: "lim_heap \<Rightarrow> bool" where
  "heap_ok s \<longleftrightarrow>
     (\<forall>t key b. lh_reqs s t = LpHas key b \<longrightarrow> lh_map s key = Some b) \<and>
     (\<forall>key b. lh_map s key = Some b \<longrightarrow> b < lh_next s) \<and>
     (\<forall>key key' b. lh_map s key = Some b \<and> lh_map s key' = Some b \<longrightarrow> key = key')"

text \<open>A bucket just created is still missing in the manager that creates it when it takes the token.\<close>

definition just_created :: "int \<Rightarrow> lim_heap \<Rightarrow> string \<Rightarrow> bool" where
  "just_created now s key \<longleftrightarrow> (\<exists>b t. lh_map s key = Some b \<and> lh_reqs s t = LpHas key b \<and>
     tokens (lh_objs s b) = lh_capacity s \<and> last_refill (lh_objs s b) \<le> now)"

definition lim_sim :: "int \<Rightarrow> lim_heap \<Rightarrow> manager \<Rightarrow> bool" where
  "lim_sim now s m \<longleftrightarrow> 0 < m_rate m \<and> lh_rate s = m_rate m \<and> lh_capacity s = m_capacity m \<and> lh_expiration s = m_expiration m \<and>
     (\<forall>key. buckets m key = map_option (lh_objs s) (lh_map s key) \<or> (buckets m key = None \<and> just_created now s key))"

lemma full_bucket:
  assumes "tokens b = c" "last_refill b \<le> now" "0 < rate"
  shows "bucket_allow rate c now b = bucket_allow rate c now (new_bucket c now)"
proof -
  have "0 \<le> seconds (now - last_refill b) * rate"
    using assms by (intro mult_nonneg_nonneg seconds_nonneg) auto
  with assms(1) show ?thesis by (auto simp: bucket_allow_def new_bucket_def Let_def)
qed

lemma lim_sim_later: "lim_sim now s m \<Longrightarrow> now \<le> now' \<Longrightarrow> lim_sim now' s m"
  unfolding lim_sim_def just_created_def by (meson order_trans)

lemma heap_okD:
  assumes "heap_ok s"
  shows "lh_reqs s t = LpHas key b \<Longrightarrow> lh_map s key = Some b" "lh_map s key = Some b \<Longrightarrow> b < lh_next s"
    "lh_map s key = Some b \<Longrightarrow> lh_map s key' = Some b \<Longrightarrow> key = key'"
  using assms by (auto simp: heap_ok_def)

lemma lim_step_ok:
  assumes "heap_ok s" "lim_step s e = Some (s', out)" "case e of AClean now \<Rightarrow> evicts_nothing_held s now | _ \<Rightarrow> True"
  shows "heap_ok s'"
proof (cases e)
  case (ALookup t key now)
  with assms show ?thesis by (auto simp: heap_ok_def split: if_splits option.splits)
next
  case (ACreate t now)
  with assms(2) obtain key where key: "lh_reqs s t = LpMissed key" by (auto split: lim_pc.splits)
  show ?thesis
  proof (cases "lh_map s key")
    case None
    have "lh_map s k \<noteq> Some (lh_next s)" for k using heap_okD(2) [OF assms(1), of k "lh_next s"] by auto
    with None key ACreate assms(1,2) show ?thesis
      by (auto simp: heap_ok_def less_Suc_eq split: if_splits)
  next
    case (Some b)
    with key ACreate assms(1,2) show ?thesis by (auto simp: heap_ok_def split: if_splits)
  qed
next
  case (ATake t now)
  with assms(1,2) show ?thesis by (auto simp: heap_ok_def split: lim_pc.splits prod.splits if_splits)
next
  case (AClean now)
  with assms show ?thesis
    by (fastforce simp: heap_ok_def evicts_nothing_held_def split: option.splits if_splits)
qed

lemma sim_lookup:
  assumes "lim_sim now s m" "lim_step s (ALookup t key now) = Some (s', out)"
  shows "lim_sim now s' m \<and> out = None"
proof -
  from assms(2) have s': "lh_reqs s t = LpIdle" "out = None"
    "s' = s\<lparr>lh_reqs := (lh_reqs s)(t := (case lh_map s key of None \<Rightarrow> LpMissed key | Some b \<Rightarrow> LpHas key b))\<rparr>"
    by (auto split: if_splits)
  have "just_created now s' k" if "just_created now s k" for k
  proof -
    from that obtain b u where "lh_map s k = Some b" "lh_reqs s u = LpHas k b" "tokens (lh_objs s b) = lh_capacity s"
      "last_refill (lh_objs s b) \<le> now" unfolding just_created_def by blast
    with s' show ?thesis unfolding just_created_def by (intro exI [of _ b] exI [of _ u]) auto
  qed
  with assms(1) s' show ?thesis by (auto simp: lim_sim_def)
qed

lemma sim_create:
  assumes "heap_ok s" "lim_sim now s m" "lim_step s (ACreate t now) = Some (s', out)"
  shows "lim_sim now s' m \<and> out = None"
proof -
  from assms(3) obtain key where key: "lh_reqs s t = LpMissed key" by (auto split: lim_pc.splits)
  show ?thesis
  proof (cases "lh_map s key")
    case (Some b)
    with key assms(3) have s': "s' = s\<lparr>lh_reqs := (lh_reqs s)(t := LpHas key b)\<rparr>" "out = None" by auto
    have "just_created now s' k" if "just_created now s k" for k
    proof -
      from that obtain c u where "lh_map s k = Some c" "lh_reqs s u = LpHas k c" "tokens (lh_objs s c) = lh_capacity s"
        "last_refill (lh_objs s c) \<le> now" unfolding just_created_def by blast
      with s' key show ?thesis unfolding just_created_def by (intro exI [of _ c] exI [of _ u]) auto
    qed
    with assms(2) s' show ?thesis by (auto simp: lim_sim_def)
  next
    case None
    let ?b = "lh_next s"
    from None key assms(3) have s': "out = None" "s' = s\<lparr>lh_next := Suc ?b,
        lh_objs := (lh_objs s)(?b := new_bucket (lh_capacity s) now),
        lh_map := (lh_map s)(key \<mapsto> ?b), lh_reqs := (lh_reqs s)(t := LpHas key ?b)\<rparr>" by auto
    have fresh: "c \<noteq> ?b" if "lh_map s k = Some c" for k c using heap_okD(2) [OF assms(1) that] by simp
    have "just_created now s' k" if "just_created now s k" for k
    proof -
      from that obtain c u where c: "lh_map s k = Some c" "lh_reqs s u = LpHas k c" "tokens (lh_objs s c) = lh_capacity s"
        "last_refill (lh_objs s c) \<le> now" unfolding just_created_def by blast
      with None have "k \<noteq> key" by auto
      with c s' key fresh [OF c(1)] show ?thesis unfolding just_created_def by (intro exI [of _ c] exI [of _ u]) auto
    qed
    moreover have "just_created now s' key"
      unfolding just_created_def s'(2) by (intro exI [of _ ?b] exI [of _ t]) (simp add: new_bucket_def)
    moreover have "buckets m key = None" using assms(2) None unfolding lim_sim_def by (metis option.map(1))
    moreover have "map_option (lh_objs s') (lh_map s' k) = map_option (lh_objs s) (lh_map s k)" if "k \<noteq> key" for k
      using that s' fresh by (cases "lh_map s k") auto
    ultimately show ?thesis using assms(2) s' by (auto simp: lim_sim_def)
  qed
qed

lemma sim_take:
  assumes "heap_ok s" "lim_sim now s m" "lim_step s (ATake t now) = Some (s', out)"
  obtains key where "out = Some (key, now, fst (manager_allow key now m))" "lim_sim now s' (mstep m (MAllow key now))"
proof -
  from assms(3) obtain key b where b: "lh_reqs s t = LpHas key b" by (auto split: lim_pc.splits)
  obtain ok b' where r: "bucket_allow (lh_rate s) (lh_capacity s) now (lh_objs s b) = (ok, b')" by fastforce
  from b r assms(3) have s': "out = Some (key, now, ok)"
    "s' = s\<lparr>lh_objs := (lh_objs s)(b := b'), lh_reqs := (lh_reqs s)(t := LpIdle)\<rparr>" by auto
  have map: "lh_map s key = Some b" by (rule heap_okD(1) [OF assms(1) b])
  have p: "lh_rate s = m_rate m" "lh_capacity s = m_capacity m" "0 < m_rate m" using assms(2) by (simp_all add: lim_sim_def)
  have "manager_allow key now m = (ok, m\<lparr>buckets := (buckets m)(key \<mapsto> b')\<rparr>)"
  proof (cases "buckets m key")
    case None
    with assms(2) map have "tokens (lh_objs s b) = m_capacity m" "last_refill (lh_objs s b) \<le> now"
      by (auto simp: lim_sim_def just_created_def split: option.splits dest!: spec [of _ key])
    with None r p full_bucket [of "lh_objs s b" "m_capacity m" now "m_rate m"] show ?thesis
      by (simp add: manager_allow_def)
  next
    case (Some c)
    with assms(2) map have "c = lh_objs s b" by (auto simp: lim_sim_def dest!: spec [of _ key])
    with Some r p show ?thesis by (simp add: manager_allow_def)
  qed
  moreover have "just_created now s' k" if "just_created now s k" "k \<noteq> key" for k
  proof -
    from that obtain c u where c: "lh_map s k = Some c" "lh_reqs s u = LpHas k c" "tokens (lh_objs s c) = lh_capacity s"
      "last_refill (lh_objs s c) \<le> now" unfolding just_created_def by blast
    from c(1) map that(2) have "c \<noteq> b" using heap_okD(3) [OF assms(1)] by blast
    with c b that(2) show ?thesis unfolding just_created_def s'(2) by (intro exI [of _ c] exI [of _ u]) auto
  qed
  moreover have "map_option (lh_objs s') (lh_map s' k) = map_option (lh_objs s) (lh_map s k)" if "k \<noteq> key" for k
    using that s' map heap_okD(3) [OF assms(1)] by (cases "lh_map s k") auto
  ultimately have "lim_sim now s' (mstep m (MAllow key now))"
    using assms(2) s' map by (auto simp: lim_sim_def mstep.simps(1))
  moreover have "ok = fst (manager_allow key now m)" using \<open>manager_allow key now m = _\<close> by simp
  ultimately show ?thesis using that s'(1) by blast
qed

lemma sim_clean:
  assumes "lim_sim now s m" "evicts_nothing_held s now" "lim_step s (AClean now) = Some (s', out)"
  shows "lim_sim now s' (manager_cleanup now m) \<and> out = None"
proof -
  from assms(3) have s': "out = None" "s' = s\<lparr>lh_map := (\<lambda>key. case lh_map s key of
      None \<Rightarrow> None
    | Some b \<Rightarrow> if now - last_refill (lh_objs s b) > lh_expiration s then None else Some b)\<rparr>" by auto
  have p: "lh_expiration s = m_expiration m" using assms(1) by (simp add: lim_sim_def)
  have "buckets (manager_cleanup now m) k = map_option (lh_objs s') (lh_map s' k) \<or>
      (buckets (manager_cleanup now m) k = None \<and> just_created now s' k)" for k
  proof (cases "buckets m k = map_option (lh_objs s) (lh_map s k)")
    case True
    then show ?thesis using s' p by (cases "lh_map s k") (auto simp: manager_cleanup_def)
  next
    case False
    with assms(1) have n: "buckets m k = None" "just_created now s k" by (auto simp: lim_sim_def)
    then obtain c u where c: "lh_map s k = Some c" "lh_reqs s u = LpHas k c" "tokens (lh_objs s c) = lh_capacity s"
      "last_refill (lh_objs s c) \<le> now" unfolding just_created_def by blast
    with assms(2) have "now - last_refill (lh_objs s c) \<le> lh_expiration s" by (auto simp: evicts_nothing_held_def)
    with c have "just_created now s' k" unfolding just_created_def s'(2) by (intro exI [of _ c] exI [of _ u]) auto
    with n show ?thesis by (simp add: manager_cleanup_def)
  qed
  with assms(1) s' show ?thesis by (simp add: lim_sim_def manager_cleanup_def)
qed

lemma lim_run_sim:
  assumes "lim_run s es = Some (u, outs)" "undisturbed s es" "heap_ok s" "lim_sim now s m" "sorted (now # map lim_time es)"
  shows "map (\<lambda>(key, t, ok). ok) outs = decisions m (lim_trace s es)"
  using assms
proof (induction es arbitrary: s now m outs)
  case (Cons e es)
  from Cons.prems(1) obtain s' out outs' where step: "lim_step s e = Some (s', out)"
    and rest: "lim_run s' es = Some (u, outs')" "outs = (case out of None \<Rightarrow> outs' | Some x \<Rightarrow> x # outs')"
    by (auto split: option.splits)
  have und: "undisturbed s' es" "case e of AClean now \<Rightarrow> evicts_nothing_held s now | _ \<Rightarrow> True"
    using Cons.prems(2) step by auto
  have sorted: "sorted (lim_time e # map lim_time es)" using Cons.prems(5) by simp
  have sim: "lim_sim (lim_time e) s m" using lim_sim_later [OF Cons.prems(4)] Cons.prems(5) by simp
  note IH = Cons.IH [OF rest(1) und(1) lim_step_ok [OF Cons.prems(3) step und(2)] _ sorted]
  show ?case
  proof (cases e)
    case (ALookup t key n)
    with sim_lookup [of n s m t key s' out] sim step IH rest(2) show ?thesis by auto
  next
    case (ACreate t n)
    with sim_create [OF Cons.prems(3), of n m t s' out] sim step IH rest(2) show ?thesis
      by (auto simp del: lim_step.simps)
  next
    case (ATake t n)
    with sim_take [OF Cons.prems(3), of n m t s' out] sim step obtain key where
      "out = Some (key, n, fst (manager_allow key n m))" "lim_sim n s' (mstep m (MAllow key n))" by auto
    with ATake step IH rest(2) show ?thesis by (auto simp: mstep.simps(1) simp del: lim_step.simps)
  next
    case (AClean n)
    with sim_clean [of n s m s' out] sim step und(2) IH rest(2) show ?thesis
      by (auto simp del: lim_step.simps)
  qed
qed simp

text \<open>
  C11: calls of the rate limiter take effect as if each were one step. However the lookups,
  creations, token takings and cleanups of any number of calls interleave (two calls that both
  miss a key create one bucket, a bucket may be used long after it was created), the answers, in
  the order the tokens are taken, are those of the sequential manager at those times; provided
  that no cleanup evicts a bucket that a call has in hand.
\<close>

theorem allow_linearizable:
  assumes "lim_run (lim_init rate capacity expiration) es = Some (s, outs)" "0 < rate" "sorted (map lim_time es)"
    "undisturbed (lim_init rate capacity expiration) es"
  shows "map (\<lambda>(key, t, ok). ok) outs =
     decisions (new_manager rate capacity expiration) (lim_trace (lim_init rate capacity expiration) es)"
proof (cases es)
  case Nil
  with assms(1) show ?thesis by auto
next
  case (Cons e es')
  have "heap_ok (lim_init rate capacity expiration)" by (simp add: heap_ok_def lim_init_def)
  moreover have "lim_sim (lim_time e) (lim_init rate capacity expiration) (new_manager rate capacity expiration)"
    using assms(2) by (simp add: lim_sim_def lim_init_def new_manager_def)
  moreover have "sorted (lim_time e # map lim_time es)" using assms(3) Cons by auto
  ultimately show ?thesis by (rule lim_run_sim [OF assms(1,4)])
qed

text \<open>Two first calls of one client race for its bucket, with one token in it.\<close>

theorem allow_linearizable_witness:
  "\<exists>s. lim_run (lim_init 1 1 3000000000) [ALookup 0 ''a'' 0, ALookup 1 ''a'' 0, ACreate 0 1, ACreate 1 2, ATake 1 3, ATake 0 4] =
       Some (s, [(''a'', 3, True), (''a'', 4, False)]) \<and>
     [True, False] = decisions (new_manager 1 1 3000000000) [MAllow ''a'' 3, MAllow ''a'' 4]"
proof -
  let ?es = "[ALookup 0 ''a'' 0, ALookup 1 ''a'' 0, ACreate 0 1, ACreate 1 2, ATake 1 3, ATake 0 4]"
  have run: "\<exists>s. lim_run (lim_init 1 1 3000000000) ?es = Some (s, [(''a'', 3, True), (''a'', 4, False)])"
    by (simp add: lim_init_def bucket_allow_def new_bucket_def seconds_def Let_def)
  have und: "undisturbed (lim_init 1 1 3000000000) ?es"
    by (simp add: lim_init_def split: prod.splits)
  have trace: "lim_trace (lim_init 1 1 3000000000) ?es = [MAllow ''a'' 3, MAllow ''a'' 4]"
    by (simp add: lim_init_def split: prod.splits)
  from run obtain s where s: "lim_run (lim_init 1 1 3000000000) ?es = Some (s, [(''a'', 3, True), (''a'', 4, False)])" by blast
  from allow_linearizable [OF s _ _ und] s show ?thesis unfolding trace by auto
qed

text \<open>
  Without the proviso: a client whose bucket has been idle passes its lookup, the cleanup evicts
  the bucket, and a second call of the same client gets a new one. Both pass at the same
  moment, although the capacity is one.
\<close>

lemma eviction_overspends:
  "\<exists>s. lim_run (lim_init 1 1 1000000000)
     [ALookup 0 ''a'' 0, ACreate 0 0, ATake 0 0, ALookup 1 ''a'' 2000000000, AClean 2000000000,
      ALookup 2 ''a'' 2000000000, ACreate 2 2000000000, ATake 1 2000000000, ATake 2 2000000000] =
     Some (s, [(''a'', 0, True), (''a'', 2000000000, True), (''a'', 2000000000, True)])"
  by (simp add: lim_init_def bucket_allow_def new_bucket_def seconds_def Let_def)

end
