(* ===== verification/Fleet.thy ===== *)
theory Fleet
  imports Pool_Claims Worker_Claims
begin

text \<open>
  \<open>pool.render\<close> as a whole (\<open>pool.go\<close>, \<open>worker.go\<close>): the ring of workers together with the
  worker behind every reference. A call draws a slot and acquires a worker with the events of
  the pool, and then runs \<open>worker.render\<close> on exactly that worker, while the readers of all
  workers, the Node processes and the other calls step in between. The two machines share one
  bit: \<open>close(w.done)\<close> in \<open>readLoop\<close> is what \<open>worker.alive\<close> observes from the pool.
\<close>

section \<open>State and steps\<close>

text \<open>
  \<open>fl_workers\<close> is what a \<open>*worker\<close> points to; a reference that no \<open>newWorker\<close> has returned
  yet stands for the state the next one starts in.
\<close>

record 'p fleet =
  fl_pool :: pool
  fl_workers :: "wref \<Rightarrow> 'p worker"

definition fleet0 :: "pool \<Rightarrow> 'p fleet" where
  "fleet0 p = \<lparr>fl_pool = p, fl_workers = (\<lambda>_. worker0)\<rparr>"

datatype 'p fevent =
    FPool pevent
  | FWorker wref "'p wevent"

text \<open>\<open>return w.render(ctx, req)\<close>: a call enters the worker it acquired, and no other.\<close>

fun enters :: "pool \<Rightarrow> wref \<Rightarrow> 'p wevent \<Rightarrow> bool" where
  "enters p r (EStart t _ _) = (case requests p t of PGot _ w \<Rightarrow> w = r | _ \<Rightarrow> False)"
| "enters p r _ = True"

text \<open>What the pool observes of an event of worker \<open>r\<close>: the close of \<open>done\<close>, and nothing else.\<close>

fun pool_view :: "wref \<Rightarrow> 'p wevent \<Rightarrow> pevent list" where
  "pool_view r EClose = [PDie r]"
| "pool_view r _ = []"

fun is_spontaneous :: "pevent \<Rightarrow> bool" where
  "is_spontaneous (PDie _) = True"
| "is_spontaneous _ = False"

fun fstep ::
  "('p render_request \<Rightarrow> string go) \<Rightarrow> (string \<Rightarrow> render_response go) \<Rightarrow>
   'p fleet \<Rightarrow> 'p fevent \<Rightarrow> 'p fleet option" where
  "fstep enc dec s (FPool e) =
     (if is_spontaneous e then None
      else map_option (\<lambda>p. s\<lparr>fl_pool := p\<rparr>) (pstep (fl_pool s) e))"
| "fstep enc dec s (FWorker r e) =
     (if r < next_ref (fl_pool s) \<and> enters (fl_pool s) r e then
        (case wstep enc dec (fl_workers s r) e of
           None \<Rightarrow> None
         | Some w \<Rightarrow>
             map_option (\<lambda>p. \<lparr>fl_pool = p, fl_workers = (fl_workers s)(r := w)\<rparr>)
               (prun (fl_pool s) (pool_view r e)))
      else None)"

fun frun ::
  "('p render_request \<Rightarrow> string go) \<Rightarrow> (string \<Rightarrow> render_response go) \<Rightarrow>
   'p fleet \<Rightarrow> 'p fevent list \<Rightarrow> 'p fleet option" where
  "frun enc dec s [] = Some s"
| "frun enc dec s (e # es) =
     (case fstep enc dec s e of None \<Rightarrow> None | Some s' \<Rightarrow> frun enc dec s' es)"

text \<open>What \<open>pool.render\<close> returns to call \<open>t\<close>, once it has a result.\<close>

definition fleet_result :: "'p fleet \<Rightarrow> nat \<Rightarrow> render_response go option" where
  "fleet_result s t = (case requests (fl_pool s) t of
      PFailed e \<Rightarrow> Some (Inl e)
    | PGot _ r \<Rightarrow> result_of (callers (fl_workers s r) t)
    | _ \<Rightarrow> None)"

section \<open>The components inside a run\<close>

fun pool_events :: "'p fevent list \<Rightarrow> pevent list" where
  "pool_events [] = []"
| "pool_events (FPool e # es) = e # pool_events es"
| "pool_events (FWorker r e # es) = pool_view r e @ pool_events es"

fun worker_events :: "wref \<Rightarrow> 'p fevent list \<Rightarrow> 'p wevent list" where
  "worker_events r [] = []"
| "worker_events r (FPool e # es) = worker_events r es"
| "worker_events r (FWorker q e # es) = (if q = r then e # worker_events r es else worker_events r es)"

lemma fstep_poolE:
  assumes "fstep enc dec s (FPool e) = Some s'"
  obtains p where "pstep (fl_pool s) e = Some p" "s' = s\<lparr>fl_pool := p\<rparr>" "\<not> is_spontaneous e"
  using assms by (auto split: if_splits)

lemma fstep_workerE:
  assumes "fstep enc dec s (FWorker r e) = Some s'"
  obtains w p where "r < next_ref (fl_pool s)" "enters (fl_pool s) r e"
    "wstep enc dec (fl_workers s r) e = Some w" "prun (fl_pool s) (pool_view r e) = Some p"
    "s' = \<lparr>fl_pool = p, fl_workers = (fl_workers s)(r := w)\<rparr>"
  using assms by (auto split: if_splits option.splits)

lemma frun_append:
  "frun enc dec s (es @ fs) =
     (case frun enc dec s es of None \<Rightarrow> None | Some u \<Rightarrow> frun enc dec u fs)"
  by (induction es arbitrary: s) (auto split: option.splits)

text \<open>A run of the fleet is a run of the pool, and a run of every worker.\<close>

lemma frun_pool:
  "frun enc dec s es = Some u \<Longrightarrow> prun (fl_pool s) (pool_events es) = Some (fl_pool u)"
proof (induction es arbitrary: s)
  case (Cons e es)
  from Cons.prems obtain v where v: "fstep enc dec s e = Some v" "frun enc dec v es = Some u"
    by (auto split: option.splits)
  from Cons.IH [OF v(2)] v(1) show ?case
  proof (cases e)
    case (FPool pe)
    with v(1) Cons.IH [OF v(2)] show ?thesis by (auto elim!: fstep_poolE simp del: fstep.simps)
  next
    case (FWorker r we)
    with v(1) Cons.IH [OF v(2)] show ?thesis
      by (auto elim!: fstep_workerE simp: pool.run_append simp del: fstep.simps)
  qed
qed simp

lemma frun_worker:
  "frun enc dec s es = Some u \<Longrightarrow>
     wrun enc dec (fl_workers s r) (worker_events r es) = Some (fl_workers u r)"
proof (induction es arbitrary: s)
  case (Cons e es)
  from Cons.prems obtain v where v: "fstep enc dec s e = Some v" "frun enc dec v es = Some u"
    by (auto split: option.splits)
  show ?case
  proof (cases e)
    case (FPool pe)
    with v(1) Cons.IH [OF v(2)] show ?thesis by (auto elim!: fstep_poolE simp del: fstep.simps)
  next
    case (FWorker q we)
    with v(1) Cons.IH [OF v(2)] show ?thesis by (auto elim!: fstep_workerE simp del: fstep.simps)
  qed
qed simp

lemma worker_events_length: "length (worker_events r es) \<le> length es"
  by (induction r es rule: worker_events.induct) auto

lemma worker_events_mem: "e \<in> set (worker_events r es) \<Longrightarrow> FWorker r e \<in> set es"
  by (induction r es rule: worker_events.induct) (auto split: if_splits)

lemma worker_events_append [simp]:
  "worker_events r (es @ fs) = worker_events r es @ worker_events r fs"
  by (induction r es rule: worker_events.induct) auto

lemma starts_length: "starts es \<le> length es"
  by (simp add: starts_def)

section \<open>The invariant that joins them\<close>

text \<open>
  \<open>live\<close> of the pool is \<open>alive\<close> of the worker; references not handed out yet are fresh; and
  a call is inside a worker only if it is the one it acquired.
\<close>

definition joined :: "'p fleet \<Rightarrow> bool" where
  "joined s \<longleftrightarrow>
     (\<forall>r < next_ref (fl_pool s). live (fl_pool s) r = alive (fl_workers s r)) \<and>
     (\<forall>r \<ge> next_ref (fl_pool s). fl_workers s r = worker0) \<and>
     (\<forall>r t. callers (fl_workers s r) t \<noteq> CIdle \<longrightarrow> (\<exists>i. requests (fl_pool s) t = PGot i r)) \<and>
     (\<forall>r. inv_done (fl_workers s r))"

definition fleet_inv :: "'p fleet \<Rightarrow> bool" where
  "fleet_inv s \<longleftrightarrow> pool_inv (fl_pool s) \<and> joined s"

lemma joinedD:
  assumes "joined s"
  shows "r < next_ref (fl_pool s) \<Longrightarrow> live (fl_pool s) r = alive (fl_workers s r)"
    and "next_ref (fl_pool s) \<le> r \<Longrightarrow> fl_workers s r = worker0"
    and "callers (fl_workers s r) t \<noteq> CIdle \<Longrightarrow> \<exists>i. requests (fl_pool s) t = PGot i r"
    and "inv_done (fl_workers s r)"
  using assms unfolding joined_def by auto

lemma alive_worker0 [simp]: "alive worker0"
  by (simp add: alive_def worker0_def)

lemma pstep_keeps_got: "pstep p e = Some p' \<Longrightarrow> requests p t = PGot i r \<Longrightarrow> requests p' t = PGot i r"
  by (cases e) (auto split: pstep_splits)

lemma pstep_live:
  assumes "pstep p e = Some p'" "\<not> is_spontaneous e"
  shows "next_ref p \<le> next_ref p'"
    and "live p' = live p \<and> next_ref p' = next_ref p \<or>
      live p' = (live p)(next_ref p := True) \<and> next_ref p' = next_ref p + 1"
  using assms by (cases e; auto split: pstep_splits)+

lemma wstep_alive:
  "wstep enc dec w e = Some w' \<Longrightarrow> alive w' = (if e = EClose then False else alive w)"
  by (cases e) (auto simp: alive_def Let_def split: wstep_splits)

lemma wstep_enters:
  "wstep enc dec w e = Some w' \<Longrightarrow> callers w' t \<noteq> CIdle \<Longrightarrow> callers w t = CIdle \<Longrightarrow>
     \<exists>c ps. e = EStart t c ps"
  by (cases e) (auto simp: Let_def split: wstep_splits if_splits)

lemma joined_pool:
  assumes "pstep (fl_pool s) e = Some p" "\<not> is_spontaneous e" "joined s"
  shows "joined (s\<lparr>fl_pool := p\<rparr>)"
proof -
  note j = joinedD [OF assms(3)]
  have "live p r = alive (fl_workers s r)" if "r < next_ref p" for r
    using pstep_live(2) [OF assms(1,2)] that j(1) [of r] j(2) [of r] by (auto simp: less_Suc_eq)
  moreover have "fl_workers s r = worker0" if "next_ref p \<le> r" for r
    using pstep_live(1) [OF assms(1,2)] that j(2) [of r] by simp
  moreover have "\<exists>i. requests p t = PGot i r" if "callers (fl_workers s r) t \<noteq> CIdle" for r t
    using j(3) [OF that] pstep_keeps_got [OF assms(1)] by blast
  ultimately show ?thesis using j(4) by (simp add: joined_def)
qed

lemma close_seen:
  assumes "joined s" "wstep enc dec (fl_workers s r) EClose = Some w" "r < next_ref (fl_pool s)"
  shows "live (fl_pool s) r"
  using assms joinedD(1,4) [OF assms(1), of r] by (auto simp: alive_def inv_done_def split: if_splits)

lemma pool_view_run:
  assumes "prun p (pool_view r e) = Some p'"
  shows "next_ref p' = next_ref p" "requests p' = requests p"
    "live p' q = (if q = r \<and> e = EClose then False else live p q)"
  using assms by (cases e; auto split: if_splits)+

lemma joined_worker:
  assumes "wstep enc dec (fl_workers s r) e = Some w" "enters (fl_pool s) r e"
    "r < next_ref (fl_pool s)" "prun (fl_pool s) (pool_view r e) = Some p" "joined s"
  shows "joined \<lparr>fl_pool = p, fl_workers = (fl_workers s)(r := w)\<rparr>"
proof -
  note j = joinedD [OF assms(5)] and v = pool_view_run [OF assms(4)]
  have got: "\<exists>i. requests p t = PGot i r" if "callers w t \<noteq> CIdle" for t
  proof (cases "callers (fl_workers s r) t = CIdle")
    case True
    from wstep_enters [OF assms(1) that this] assms(2) show ?thesis
      by (auto simp: v(2) split: prequest.splits)
  next
    case False
    with j(3) v(2) show ?thesis by simp
  qed
  with j v assms(3) wstep_alive [OF assms(1)] step_done [OF assms(1) j(4)] show ?thesis
    by (auto simp: joined_def)
qed

lemma fstep_inv:
  assumes "fleet_inv s" "fstep enc dec s e = Some s'"
  shows "fleet_inv s'"
proof (cases e)
  case (FPool pe)
  with assms show ?thesis
    by (auto simp: fleet_inv_def simp del: fstep.simps elim!: fstep_poolE
        intro: pool_step_inv joined_pool)
next
  case (FWorker r we)
  from assms(2) [unfolded FWorker] show ?thesis
    by (rule fstep_workerE)
      (use assms(1) in \<open>auto simp: fleet_inv_def intro: pool.machine_inv joined_worker\<close>)
qed

interpretation fleet: guarded_machine "fstep enc dec" "frun enc dec" fleet_inv
  by unfold_locales (auto intro: fstep_inv split: option.splits)

lemma fleet0_inv:
  assumes "new_pool spawn cl n = (Inr p0, closed)" "n < 2 ^ 63"
  shows "fleet_inv (fleet0 p0)"
  using new_pool_ok [OF assms] assms
  by (auto simp: fleet_inv_def fleet0_def joined_def inv_done_def worker0_def alive_def new_pool_def
      split: if_splits prod.splits sum.splits)

text \<open>Nothing the pool does can block a worker: an event a worker allows is one of the fleet.\<close>

lemma fleet_lift_step:
  assumes "joined s" "wstep enc dec (fl_workers s r) e = Some w" "r < next_ref (fl_pool s)"
    "enters (fl_pool s) r e"
  obtains p where "fstep enc dec s (FWorker r e) = Some \<lparr>fl_pool = p, fl_workers = (fl_workers s)(r := w)\<rparr>"
    "prun (fl_pool s) (pool_view r e) = Some p"
proof -
  have "\<exists>p. prun (fl_pool s) (pool_view r e) = Some p"
  proof (cases "e = EClose")
    case True
    with close_seen [OF assms(1) assms(2) [unfolded True] assms(3)] show ?thesis by simp
  next
    case False
    then show ?thesis by (cases e) auto
  qed
  with assms that show ?thesis by auto
qed

text \<open>The ring, the requests and the references of two pools, up to the liveness of one worker.\<close>

definition same_but_live :: "wref \<Rightarrow> pool \<Rightarrow> pool \<Rightarrow> bool" where
  "same_but_live r p q \<longleftrightarrow> (\<exists>b. q = p\<lparr>live := (live p)(r := b)\<rparr>)"

lemma same_but_live_refl: "same_but_live r p p"
  unfolding same_but_live_def by (rule exI [of _ "live p r"]) simp

lemma same_but_live_trans: "same_but_live r p q \<Longrightarrow> same_but_live r q u \<Longrightarrow> same_but_live r p u"
  by (auto simp: same_but_live_def)

lemma pool_view_same: "prun p (pool_view r e) = Some q \<Longrightarrow> same_but_live r p q"
  by (cases e) (auto simp: same_but_live_refl split: if_splits, auto simp: same_but_live_def)

lemma same_but_live_enters: "same_but_live r p q \<Longrightarrow> enters q x e = enters p x e"
  by (cases e) (auto simp: same_but_live_def)

lemma same_but_live_simps:
  assumes "same_but_live r p q"
  shows "slots q = slots p" "next_ref q = next_ref p" "requests q = requests p" "cursor q = cursor p"
    "psize q = psize p" "retired q = retired p"
  using assms by (auto simp: same_but_live_def)

lemma fleet_lift_run:
  assumes "fleet_inv s" "wrun enc dec (fl_workers s r) es = Some w" "r < next_ref (fl_pool s)"
    "\<forall>e \<in> set es. enters (fl_pool s) r e"
  shows "\<exists>p. frun enc dec s (map (FWorker r) es) = Some \<lparr>fl_pool = p, fl_workers = (fl_workers s)(r := w)\<rparr>
    \<and> same_but_live r (fl_pool s) p"
  using assms
proof (induction es arbitrary: s)
  case Nil
  then have "w = fl_workers s r" by simp
  then show ?case by (intro exI [of _ "fl_pool s"]) (simp add: same_but_live_refl)
next
  case (Cons e es)
  from Cons.prems(2) obtain v where v: "wstep enc dec (fl_workers s r) e = Some v"
    "wrun enc dec v es = Some w" by (auto split: option.splits)
  from Cons.prems have "joined s" "enters (fl_pool s) r e" by (auto simp: fleet_inv_def)
  from fleet_lift_step [OF this(1) v(1) Cons.prems(3) this(2)] obtain p where
    p: "fstep enc dec s (FWorker r e) = Some \<lparr>fl_pool = p, fl_workers = (fl_workers s)(r := v)\<rparr>"
      "prun (fl_pool s) (pool_view r e) = Some p" .
  let ?u = "\<lparr>fl_pool = p, fl_workers = (fl_workers s)(r := v)\<rparr>"
  note same = pool_view_same [OF p(2)]
  have "\<exists>q. frun enc dec ?u (map (FWorker r) es) =
      Some \<lparr>fl_pool = q, fl_workers = (fl_workers ?u)(r := w)\<rparr> \<and> same_but_live r (fl_pool ?u) q"
    by (rule Cons.IH [OF fstep_inv [OF Cons.prems(1) p(1)]])
      (use v(2) Cons.prems(3,4) same in \<open>auto simp: same_but_live_simps same_but_live_enters\<close>)
  then obtain q where q: "frun enc dec ?u (map (FWorker r) es) =
      Some \<lparr>fl_pool = q, fl_workers = (fl_workers s)(r := w)\<rparr>" "same_but_live r p q"
    by auto
  from q(1) p(1) same_but_live_trans [OF same q(2)] show ?case
    by (intro exI [of _ q]) (simp only: list.map frun.simps option.case simp_thms)
qed

end
