(* ===== verification/Fleet_Claims.thy ===== *)
theory Fleet_Claims
  imports Fleet
begin

text \<open>
  What the pool and its workers promise together: the reply of a call comes from the very
  process the call acquired and answers the request that call wrote there; and after a process
  has died, the next request of its slot is served by a fresh process while no caller of the
  old one is left behind.
\<close>

section \<open>A caller and the line it wrote\<close>

text \<open>
  What caller \<open>t\<close> asked, at every stage of \<open>worker.render\<close>: the request it carries is that
  of its \<open>EStart\<close>, and once it is written it is a line of the stdin of Node.
\<close>

definition wrote ::
  "('p render_request \<Rightarrow> string go) \<Rightarrow> 'p wevent list \<Rightarrow> 'p worker \<Rightarrow> nat \<Rightarrow> request_id \<Rightarrow> bool" where
  "wrote enc es w t i \<longleftrightarrow> (\<exists>c ps l. EStart t c ps \<in> set es \<and>
     enc \<lparr>req_id = i, req_component = c, req_props = ps\<rparr> = Inr l \<and> l @ [newline] \<in> set (sent w))"

fun claims ::
  "('p render_request \<Rightarrow> string go) \<Rightarrow> 'p wevent list \<Rightarrow> 'p worker \<Rightarrow> nat \<Rightarrow> 'p caller \<Rightarrow> bool" where
  "claims enc es w t (CAssigned q) = (EStart t (req_component q) (req_props q) \<in> set es)"
| "claims enc es w t (CRegistered q) = (EStart t (req_component q) (req_props q) \<in> set es)"
| "claims enc es w t (CWaiting i) = wrote enc es w t i"
| "claims enc es w t (CLeaving i (Inr _)) = wrote enc es w t i"
| "claims enc es w t (CReturned i (Inr _)) = wrote enc es w t i"
| "claims enc es w t _ = True"

definition asked ::
  "('p render_request \<Rightarrow> string go) \<Rightarrow> 'p wevent list \<Rightarrow> 'p worker \<Rightarrow> bool" where
  "asked enc es w \<longleftrightarrow> (\<forall>t. claims enc es w t (callers w t))"

lemma wrote_mono:
  "wrote enc es w t i \<Longrightarrow> set es \<subseteq> set fs \<Longrightarrow> set (sent w) \<subseteq> set (sent w') \<Longrightarrow> wrote enc fs w' t i"
  unfolding wrote_def by blast

lemma claims_mono:
  assumes "claims enc es w t c" "set es \<subseteq> set fs" "set (sent w) \<subseteq> set (sent w')"
  shows "claims enc fs w' t c"
  using assms wrote_mono [OF _ assms(2,3)] by (cases "(enc, es, w, t, c)" rule: claims.cases) auto

lemma step_sent: "wstep enc dec w e = Some w' \<Longrightarrow> set (sent w) \<subseteq> set (sent w')"
  by (cases e) (auto simp: Let_def split: wstep_splits)

lemma written_request:
  assumes "write_request enc q io = Inr l"
  obtains b where "enc q = Inr b" "l = b @ [newline]"
  using assms by (auto simp: write_request_def split: sum.splits option.splits)

lemma step_write_claims:
  assumes "wstep enc dec w (EWrite t io) = Some w'" "claims enc es w t (callers w t)"
  shows "claims enc (es @ [e]) w' t (callers w' t)"
proof -
  from assms(1) obtain q where q: "callers w t = CRegistered q" by (auto split: caller.splits)
  show ?thesis
  proof (cases "write_request enc q io")
    case (Inr l)
    then obtain b where b: "enc q = Inr b" "l = b @ [newline]" by (rule written_request)
    have "\<lparr>req_id = req_id q, req_component = req_component q, req_props = req_props q\<rparr> = q"
      by (cases q) simp
    from arg_cong [OF this, of enc] b(1)
    have "enc \<lparr>req_id = req_id q, req_component = req_component q, req_props = req_props q\<rparr> = Inr b"
      by (rule trans)
    moreover have "EStart t (req_component q) (req_props q) \<in> set (es @ [e])" "b @ [newline] \<in> set (sent w')"
      using assms q b Inr by auto
    ultimately have "wrote enc (es @ [e]) w' t (req_id q)" unfolding wrote_def by blast
    with assms(1) q Inr show ?thesis by auto
  qed (use assms(1) q in auto)
qed

text \<open>A step moves at most the caller it names, and what that caller claims follows from its last stage.\<close>

lemma step_moves:
  assumes "wstep enc dec w e = Some w'" "callers w' t \<noteq> callers w t"
  shows "(\<exists>c ps. e = EStart t c ps) \<or> e = ERegister t \<or> (\<exists>io. e = EWrite t io) \<or> e = ERecv t \<or>
    e = ESeeDone t \<or> (\<exists>x. e = ECancel t x) \<or> e = ELeave t"
  using assms by (cases e) (auto simp: Let_def split: wstep_splits if_splits)

lemma step_claims:
  assumes step: "wstep enc dec w e = Some w'" and old: "claims enc es w t (callers w t)"
  shows "claims enc (es @ [e]) w' t (callers w' t)"
proof (cases "callers w' t = callers w t")
  case True
  then show ?thesis using claims_mono [OF old _ step_sent [OF step], of "es @ [e]"] by auto
next
  case False
  have mono: "claims enc es w t c \<Longrightarrow> claims enc (es @ [e]) w' t c" for c
    by (erule claims_mono) (use step_sent [OF step] in auto)
  from step_moves [OF step False] show ?thesis
  proof (elim disjE exE)
    fix c ps assume "e = EStart t c ps"
    with step show ?thesis by (auto simp: Let_def split: if_splits)
  next
    assume "e = ERegister t"
    with step old show ?thesis by (auto split: caller.splits)
  next
    fix io assume "e = EWrite t io"
    with step old show ?thesis by (auto intro: step_write_claims simp del: wstep.simps)
  next
    assume e: "e = ERecv t"
    from step [unfolded e] obtain i r where "callers w t = CWaiting i" "callers w' t = CLeaving i (Inr r)"
      by (auto split: caller.splits option.splits)
    with old mono [of "CWaiting i"] show ?thesis by simp
  next
    assume "e = ESeeDone t"
    with step show ?thesis by (auto split: caller.splits if_splits)
  next
    fix x assume "e = ECancel t x"
    with step show ?thesis by (auto split: caller.splits)
  next
    assume e: "e = ELeave t"
    from step [unfolded e] obtain i res where "callers w t = CLeaving i res" "callers w' t = CReturned i res"
      by (auto split: caller.splits)
    with old mono [of "CLeaving i res"] show ?thesis by (cases res) simp_all
  qed
qed

lemma step_asked:
  "wstep enc dec w e = Some w' \<Longrightarrow> asked enc es w \<Longrightarrow> asked enc (es @ [e]) w'"
  unfolding asked_def using step_claims by blast

lemma run_asked_from:
  "wrun enc dec w es = Some w' \<Longrightarrow> asked enc hist w \<Longrightarrow> asked enc (hist @ es) w'"
proof (induction es arbitrary: w hist)
  case (Cons e es)
  from Cons.prems(1) obtain v where v: "wstep enc dec w e = Some v" "wrun enc dec v es = Some w'"
    by (auto split: option.splits)
  from Cons.IH [OF v(2) step_asked [OF v(1) Cons.prems(2)]] show ?case by simp
qed simp

lemma run_asked: "wrun enc dec worker0 es = Some w \<Longrightarrow> asked enc es w"
  using run_asked_from [of enc dec worker0 es w "[]"] by (simp add: asked_def worker0_def)

lemma asked_result:
  assumes "asked enc es w" "result_of (callers w t) = Some (Inr r)" "call_id (callers w t) = Some i"
  shows "wrote enc es w t i"
proof -
  from assms(1) have "claims enc es w t (callers w t)" by (simp add: asked_def)
  with assms(2,3) show ?thesis by (cases "callers w t") auto
qed

section \<open>Correlation across the fleet\<close>

text \<open>
  C1: a response that \<open>pool.render\<close> returns to a call comes from the one process that call
  acquired. In every run, the call is in no other worker, its request (the component and the
  properties it was called with, under the ID it drew there) was written as one line to that
  process, and the response was decoded from a complete line that this process wrote and
  carries that ID, or is the error injected after the output of this process has ended.
\<close>

theorem fleet_reply_correlated:
  assumes "new_pool spawn cl n = (Inr p0, closed)" "n < 2 ^ 63"
    and "frun enc dec (fleet0 p0) es = Some s" "length es < 2 ^ 64"
    and "fleet_result s t = Some (Inr resp)"
  shows "\<exists>i r j c ps l. requests (fl_pool s) t = PGot i r \<and>
    (\<forall>q. q \<noteq> r \<longrightarrow> callers (fl_workers s q) t = CIdle) \<and>
    FWorker r (EStart t c ps) \<in> set es \<and>
    enc \<lparr>req_id = j, req_component = c, req_props = ps\<rparr> = Inr l \<and>
    l @ [newline] \<in> set (sent (fl_workers s r)) \<and>
    ((resp_id resp = j \<and> (\<exists>l \<in> set (lines_of (node_output (worker_events r es))). dec l = Inr resp))
     \<or> (out_closed (fl_workers s r) \<noteq> None \<and> (\<exists>cause. resp = drain_response cause)))"
proof -
  have j: "joined s"
    using fleet.machine_inv [OF assms(3) fleet0_inv [OF assms(1,2)]] by (simp add: fleet_inv_def)
  from assms(5) obtain i r where r: "requests (fl_pool s) t = PGot i r"
    "result_of (callers (fl_workers s r) t) = Some (Inr resp)"
    by (auto simp: fleet_result_def split: prequest.splits)
  have run: "wrun enc dec worker0 (worker_events r es) = Some (fl_workers s r)"
    using frun_worker [OF assms(3), of r] by (simp add: fleet0_def)
  have small: "starts (worker_events r es) < 2 ^ 64"
    using starts_length [of "worker_events r es"] worker_events_length [of r es] assms(4) by linarith
  from run_result_source [OF run small r(2)] obtain k where k: "call_id (callers (fl_workers s r) t) = Some k"
    "(resp_id resp = k \<and> (\<exists>l \<in> set (lines_of (node_output (worker_events r es))). dec l = Inr resp))
     \<or> (out_closed (fl_workers s r) \<noteq> None \<and> (\<exists>cause. resp = drain_response cause))"
    by blast
  from asked_result [OF run_asked [OF run] r(2) k(1)] obtain c ps l where
    "EStart t c ps \<in> set (worker_events r es)"
    "enc \<lparr>req_id = k, req_component = c, req_props = ps\<rparr> = Inr l"
    "l @ [newline] \<in> set (sent (fl_workers s r))"
    unfolding wrote_def by blast
  moreover have "callers (fl_workers s q) t = CIdle" if "q \<noteq> r" for q
    using joinedD(3) [OF j, of q t] r(1) that by auto
  ultimately show ?thesis using r(1) k(2) worker_events_mem by blast
qed

text \<open>Two workers; the calls 7 and 8 draw the slots 1 and 0, and each process answers its own.\<close>

definition demo_fleet :: "unit fevent list" where
  "demo_fleet =
     [FPool (PAdd 7), FPool (PAdd 8), FPool (PRead 8), FPool (PRead 7), FPool (PFast 7), FPool (PFast 8),
      FWorker 1 (EStart 7 ''A'' ()), FWorker 0 (EStart 8 ''B'' ()), FWorker 0 (ERegister 8),
      FWorker 1 (ERegister 7), FWorker 1 (EWrite 7 None), FWorker 0 (EWrite 8 None),
      FWorker 0 (ENode (''1b'' @ [newline])), FWorker 1 (ENode (''1a'' @ [newline])),
      FWorker 1 ERead, FWorker 0 ERead, FWorker 0 ELookup, FWorker 1 ELookup, FWorker 1 ESend,
      FWorker 0 ESend, FWorker 1 (ERecv 7), FWorker 0 (ERecv 8)]"

lemma demo_fleet_run:
  "\<exists>s. frun demo_enc demo_dec (fleet0 demo_pool) demo_fleet = Some s \<and>
     fleet_result s 7 = Some (Inr \<lparr>resp_id = 1, resp_html = ''a'', resp_head = [], resp_error = []\<rparr>) \<and>
     requests (fl_pool s) 7 = PGot 1 1"
  by (simp add: demo_fleet_def fleet0_def demo_pool_def next_slot_def worker0_def newline_def
      demo_enc_def demo_dec_def write_request_def set_caller_def Let_def show_nat.simps digit_def fleet_result_def)

theorem fleet_reply_correlated_witness:
  "\<exists>s r l. frun demo_enc demo_dec (fleet0 demo_pool) demo_fleet = Some s \<and>
     requests (fl_pool s) 7 = PGot 1 r \<and> l @ [newline] \<in> set (sent (fl_workers s r))"
proof -
  obtain s where s: "frun demo_enc demo_dec (fleet0 demo_pool) demo_fleet = Some s"
    "fleet_result s 7 = Some (Inr \<lparr>resp_id = 1, resp_html = ''a'', resp_head = [], resp_error = []\<rparr>)"
    "requests (fl_pool s) 7 = PGot 1 1"
    using demo_fleet_run by blast
  have "(2::int) < 2 ^ 63" "length demo_fleet < 2 ^ 64" by (simp_all add: demo_fleet_def)
  from fleet_reply_correlated [OF demo_pool_new this(1) s(1) this(2) s(2)] s(1,3) show ?thesis by auto
qed

section \<open>Recovery from a crash\<close>

definition call_events :: "nat \<Rightarrow> string \<Rightarrow> 'p \<Rightarrow> string \<Rightarrow> 'p wevent list" where
  "call_events t c ps ans =
     [EStart t c ps, ERegister t, EWrite t None, ENode (ans @ [newline]), ERead, ELookup, ESend,
      ERecv t, ELeave t]"

lemma frun_pool_only:
  "\<forall>e \<in> set es. \<not> is_spontaneous e \<Longrightarrow> prun (fl_pool s) es = Some p \<Longrightarrow>
     frun enc dec s (map FPool es) = Some (s\<lparr>fl_pool := p\<rparr>)"
  by (induction es arbitrary: s) (auto split: option.splits)

lemma acquire_dead:
  assumes "requests p t = PIdle" "i = next_slot p" "\<not> live p (slots p ! i)"
  obtains q where "prun p [PAdd t, PRead t, PFast t, PReplace t None] = Some q"
    "slots q = (slots p)[i := next_ref p]" "next_ref q = next_ref p + 1"
    "requests q = (requests p)(t := PGot i (next_ref p))"
  using assms by simp

lemma fresh_call:
  assumes "enc \<lparr>req_id = 1, req_component = c, req_props = ps\<rparr> = Inr l" "newline \<notin> set ans"
    "dec (ans @ [newline]) = Inr r" "resp_id r = 1"
  shows "\<exists>w. wrun enc dec worker0 (call_events t c ps ans) = Some w \<and> callers w t = CReturned 1 (Inr r)"
proof -
  have "callers (worker0 :: 'a worker) t = CIdle" "reader (worker0 :: 'a worker) = RReading"
    "inbuf (worker0 :: 'a worker) = []" "out_closed (worker0 :: 'a worker) = None"
    "next_id (worker0 :: 'a worker) + 1 \<notin> fst ` set (pending (worker0 :: 'a worker))"
    "next_id (worker0 :: 'a worker) + 1 = 1"
    by (simp_all add: worker0_def)
  note w0 = this
  from call_returns_answer [OF w0(1-5), of enc c ps l ans dec r] assms show ?thesis
    unfolding w0(6) call_events_def by blast
qed

lemma reader_event_enters: "is_reader e \<Longrightarrow> enters p r e"
  by (cases e) auto

lemma reader_exited_dead: "inv_done w \<Longrightarrow> reader w = RExited \<Longrightarrow> done_closed w"
  by (simp add: inv_done_def)

text \<open>
  C2: the pool recovers from a crash end to end. Whatever has run before, when the output
  of the worker of the next slot has ended, its reader closes \<open>done\<close> within a bounded number of
  its own steps, and the next request then takes the slow path, puts a fresh process in the
  slot and acquires it; every caller still waiting for the dead process can return with an
  error; and the request is answered with whatever the new process answers to it.
\<close>

theorem fleet_recovers:
  assumes "new_pool spawn cl n = (Inr p0, closed)" "n < 2 ^ 63"
    and "frun enc dec (fleet0 p0) es = Some s"
    and "i = next_slot (fl_pool s)" "r = slots (fl_pool s) ! i" "f = next_ref (fl_pool s)"
    and "out_closed (fl_workers s r) \<noteq> None" "requests (fl_pool s) t = PIdle"
  shows "\<exists>ds q. (\<forall>e \<in> set ds. is_reader e) \<and> length ds \<le> reader_work (fl_workers s r) \<and>
    frun enc dec s (map (FWorker r) ds @ map FPool [PAdd t, PRead t, PFast t, PReplace t None]) = Some q \<and>
    slots (fl_pool q) = (slots (fl_pool s))[i := f] \<and> requests (fl_pool q) t = PGot i f \<and>
    (\<forall>u j. callers (fl_workers s r) u = CWaiting j \<longrightarrow>
       (\<exists>v e. fstep enc dec q (FWorker r (ESeeDone u)) = Some v \<and> fleet_result v u = Some (Inl e))) \<and>
    (\<forall>c ps l ans resp. enc \<lparr>req_id = 1, req_component = c, req_props = ps\<rparr> = Inr l \<longrightarrow>
       newline \<notin> set ans \<longrightarrow> dec (ans @ [newline]) = Inr resp \<longrightarrow> resp_id resp = 1 \<longrightarrow>
       (\<exists>v. frun enc dec q (map (FWorker f) (call_events t c ps ans)) = Some v \<and>
            fleet_result v t = Some (Inr resp)))"
proof -
  let ?p = "fl_pool s" and ?w = "fl_workers s r"
  have inv: "fleet_inv s" by (rule fleet.machine_inv [OF assms(3) fleet0_inv [OF assms(1,2)]])
  then have pinv: "pool_inv ?p" and j: "joined s" by (simp_all add: fleet_inv_def)
  have "i < length (slots ?p)" using next_slot_bound [OF pinv] assms(4) by simp
  then have r: "r < next_ref ?p" using pinv assms(5) by (auto simp: pool_inv_def)
  obtain ds w where ds: "\<forall>e \<in> set ds. is_reader e" "wrun enc dec ?w ds = Some w" "reader w = RExited"
    "callers w = callers ?w"
    using reader_finishes [OF assms(7)] by blast
  have short: "length ds \<le> reader_work ?w"
    using run_reader_bound [OF ds(2) assms(7)] ds(1) by (simp add: filter_id_conv [THEN iffD2])
  have "\<forall>e \<in> set ds. enters ?p r e" using ds(1) reader_event_enters by blast
  from fleet_lift_run [OF inv ds(2) r this] obtain p1 where
    s1: "frun enc dec s (map (FWorker r) ds) = Some \<lparr>fl_pool = p1, fl_workers = (fl_workers s)(r := w)\<rparr>"
    and p1: "same_but_live r ?p p1" by blast
  let ?s1 = "\<lparr>fl_pool = p1, fl_workers = (fl_workers s)(r := w)\<rparr>"
  note same = same_but_live_simps [OF p1]
  have j1: "joined ?s1" using fleet.machine_inv [OF s1 inv] by (simp add: fleet_inv_def)
  have dead: "done_closed w" using joinedD(4) [OF j1, of r] ds(3) by (simp add: reader_exited_dead)
  then have "\<not> live p1 (slots p1 ! i)"
    using joinedD(1) [OF j1, of r] r same assms(5) by (simp add: alive_def)
  moreover have "requests p1 t = PIdle" "i = next_slot p1" using same assms(4,8) by (simp_all add: next_slot_def)
  ultimately obtain p2 where p2: "prun p1 [PAdd t, PRead t, PFast t, PReplace t None] = Some p2"
    "slots p2 = (slots ?p)[i := f]" "next_ref p2 = f + 1" "requests p2 = (requests ?p)(t := PGot i f)"
    using acquire_dead same assms(6) by metis
  let ?q = "?s1\<lparr>fl_pool := p2\<rparr>"
  have "frun enc dec ?s1 (map FPool [PAdd t, PRead t, PFast t, PReplace t None]) = Some ?q"
    by (rule frun_pool_only) (use p2(1) in simp_all)
  with s1 have q: "frun enc dec s (map (FWorker r) ds @ map FPool [PAdd t, PRead t, PFast t, PReplace t None]) = Some ?q"
    by (simp only: frun_append option.case)
  have waiting: "\<exists>v e. fstep enc dec ?q (FWorker r (ESeeDone u)) = Some v \<and> fleet_result v u = Some (Inl e)"
    if u: "callers ?w u = CWaiting k" for u k
  proof -
    from joinedD(3) [OF j, of r u] u obtain h where "requests ?p u = PGot h r" by auto
    with u ds(4) dead r p2(3,4) assms(6,8) show ?thesis by (auto simp: fleet_result_def)
  qed
  have served: "\<exists>v. frun enc dec ?q (map (FWorker f) (call_events t c ps ans)) = Some v \<and>
      fleet_result v t = Some (Inr resp)"
    if a: "enc \<lparr>req_id = 1, req_component = c, req_props = ps\<rparr> = Inr l" "newline \<notin> set ans"
      "dec (ans @ [newline]) = Inr resp" "resp_id resp = 1" for c ps l ans resp
  proof -
    have fresh: "fl_workers ?q f = worker0" using joinedD(2) [OF j, of f] r assms(6) by simp
    from fresh_call [of enc c ps l ans dec resp t, OF a] obtain w' where w': "wrun enc dec (fl_workers ?q f) (call_events t c ps ans) = Some w'"
      "callers w' t = CReturned 1 (Inr resp)" unfolding fresh by blast
    have "f < next_ref (fl_pool ?q)" "\<forall>e \<in> set (call_events t c ps ans). enters (fl_pool ?q) f e"
      using p2(3,4) by (simp_all add: call_events_def)
    from fleet_lift_run [OF fleet.machine_inv [OF q inv] w'(1) this] obtain p3 where
      "frun enc dec ?q (map (FWorker f) (call_events t c ps ans)) =
         Some \<lparr>fl_pool = p3, fl_workers = (fl_workers ?q)(f := w')\<rparr>" "same_but_live f p2 p3" by auto
    with w'(2) p2(4) show ?thesis by (auto simp: fleet_result_def same_but_live_simps)
  qed
  have "slots (fl_pool ?q) = (slots ?p)[i := f]" "requests (fl_pool ?q) t = PGot i f"
    using p2(2,4) by simp_all
  with ds(1) short q waiting served show ?thesis by blast
qed

text \<open>Worker 1 has ended while call 7 waits for it; call 9 finds it dead and is served by worker 2.\<close>

definition demo_fleet_crash :: "unit fevent list" where
  "demo_fleet_crash =
     [FPool (PAdd 7), FPool (PRead 7), FPool (PFast 7), FWorker 1 (EStart 7 ''A'' ()),
      FWorker 1 (ERegister 7), FWorker 1 (EWrite 7 None), FWorker 1 (ENodeEnd None), FPool (PAdd 8)]"

theorem fleet_recovers_witness:
  "\<exists>s ds q v w e. frun demo_enc demo_dec (fleet0 demo_pool) demo_fleet_crash = Some s \<and>
     frun demo_enc demo_dec s (map (FWorker 1) ds @ map FPool [PAdd 9, PRead 9, PFast 9, PReplace 9 None]) = Some q \<and>
     slots (fl_pool q) = [0, 2] \<and>
     fstep demo_enc demo_dec q (FWorker 1 (ESeeDone 7)) = Some v \<and> fleet_result v 7 = Some (Inl e) \<and>
     frun demo_enc demo_dec q (map (FWorker 2) (call_events 9 ''A'' () ''1a'')) = Some w \<and>
     fleet_result w 9 = Some (Inr \<lparr>resp_id = 1, resp_html = ''a'', resp_head = [], resp_error = []\<rparr>)"
proof -
  let ?r = "\<lparr>resp_id = 1, resp_html = ''a'', resp_head = [], resp_error = []\<rparr>"
  obtain s where s: "frun demo_enc demo_dec (fleet0 demo_pool) demo_fleet_crash = Some s"
    "next_slot (fl_pool s) = 1" "slots (fl_pool s) ! 1 = 1" "next_ref (fl_pool s) = 2"
    "slots (fl_pool s) = [0, 1]"
    "out_closed (fl_workers s 1) \<noteq> None" "requests (fl_pool s) 9 = PIdle"
    "callers (fl_workers s 1) 7 = CWaiting 1"
    by (simp add: demo_fleet_crash_def fleet0_def demo_pool_def next_slot_def worker0_def
        demo_enc_def write_request_def set_caller_def Let_def)
  have "(2::int) < 2 ^ 63" by simp
  from fleet_recovers [OF demo_pool_new this s(1) s(2-4) [symmetric] s(6,7)] obtain ds q where
    q: "frun demo_enc demo_dec s (map (FWorker 1) ds @ map FPool [PAdd 9, PRead 9, PFast 9, PReplace 9 None]) = Some q"
      "slots (fl_pool q) = (slots (fl_pool s))[1 := 2]"
      "\<And>u j. callers (fl_workers s 1) u = CWaiting j \<Longrightarrow>
         \<exists>v e. fstep demo_enc demo_dec q (FWorker 1 (ESeeDone u)) = Some v \<and> fleet_result v u = Some (Inl e)"
      "\<And>c ps l ans resp. demo_enc \<lparr>req_id = 1, req_component = c, req_props = ps\<rparr> = Inr l \<Longrightarrow>
         newline \<notin> set ans \<Longrightarrow> demo_dec (ans @ [newline]) = Inr resp \<Longrightarrow> resp_id resp = 1 \<Longrightarrow>
         \<exists>v. frun demo_enc demo_dec q (map (FWorker 2) (call_events 9 c ps ans)) = Some v \<and>
             fleet_result v 9 = Some (Inr resp)"
    by blast
  have "\<exists>w. frun demo_enc demo_dec q (map (FWorker 2) (call_events 9 ''A'' () ''1a'')) = Some w \<and>
      fleet_result w 9 = Some (Inr ?r)"
    by (rule q(4)) (auto simp: demo_enc_def demo_dec_def newline_def)
  moreover have "slots (fl_pool q) = [0, 2]" using q(2) s(5) by simp
  ultimately show ?thesis using s(1) q(1) q(3) [OF s(8)] by blast
qed

end
