(* ===== verification/Fleet_Render.thy ===== *)
theory Fleet_Render
  imports Fleet_Claims Renderer_Claims Http_Helpers_Claims
begin

text \<open>
  \<open>Renderer.Render\<close> over the pool and its processes: the machine of Fleet, run for one request
  after the other, is a \<open>render_service\<close> of the renderer, and the pages it serves are those
  of a plain function. Slots, request IDs, lines, the pending map and the replacement of
  processes that died between two requests cannot be told from the pages.
\<close>

section \<open>Serving a request on the machine\<close>

text \<open>
  A schedule in which request \<open>t\<close> runs alone: it acquires a worker (\<open>spawned\<close> is what a
  replacement returns), writes its request, and Node answers the line it reads with one of its
  own (\<open>node\<close>). The state also counts the calls, which numbers them.
\<close>

definition acquire_events :: "goerr option \<Rightarrow> pool \<Rightarrow> nat \<Rightarrow> pevent list" where
  "acquire_events spawned p t =
     [PAdd t, PRead t, PFast t] @ (if live p (slots p ! next_slot p) then [] else [PReplace t spawned])"

definition render_events ::
  "('p render_request \<Rightarrow> string go) \<Rightarrow> (string \<Rightarrow> string) \<Rightarrow> 'p worker \<Rightarrow> nat \<Rightarrow> string \<Rightarrow> 'p \<Rightarrow> 'p wevent list" where
  "render_events enc node w t c ps =
     (case enc \<lparr>req_id = next_id w + 1, req_component = c, req_props = ps\<rparr> of
        Inl _ \<Rightarrow> [EStart t c ps, ERegister t, EWrite t None, ELeave t]
      | Inr l \<Rightarrow> [EStart t c ps, ERegister t, EWrite t None, ENode (node (l @ [newline])), ERead, ELookup,
                  ESend, ERecv t, ELeave t])"

definition fleet_call ::
  "('p render_request \<Rightarrow> string go) \<Rightarrow> (string \<Rightarrow> render_response go) \<Rightarrow> (string \<Rightarrow> string) \<Rightarrow>
   goerr option \<Rightarrow> 'p fleet \<Rightarrow> nat \<Rightarrow> string \<Rightarrow> 'p \<Rightarrow> 'p fleet option" where
  "fleet_call enc dec node spawned s t c ps =
     (case frun enc dec s (map FPool (acquire_events spawned (fl_pool s) t)) of
        None \<Rightarrow> None
      | Some s1 \<Rightarrow>
          (case requests (fl_pool s1) t of
             PGot _ r \<Rightarrow> frun enc dec s1 (map (FWorker r) (render_events enc node (fl_workers s1 r) t c ps))
           | _ \<Rightarrow> Some s1))"

text \<open>A call that got stuck would be the error below; it never is (\<open>fleet_call_ready\<close>).\<close>

definition fleet_service ::
  "(props render_request \<Rightarrow> string go) \<Rightarrow> (string \<Rightarrow> render_response go) \<Rightarrow> (string \<Rightarrow> string) \<Rightarrow>
   goerr option \<Rightarrow> (props fleet \<times> nat) render_service" where
  "fleet_service enc dec node spawned st timeout c ps =
     (case fleet_call enc dec node spawned (fst st) (snd st) c ps of
        None \<Rightarrow> (Inl (GErr ''stuck''), st)
      | Some s \<Rightarrow> (case fleet_result s (snd st) of Some res \<Rightarrow> res | None \<Rightarrow> Inl (GErr ''stuck''), (s, snd st + 1)))"

section \<open>One call\<close>

text \<open>A worker between two calls, and a fleet all of whose live workers are.\<close>

definition resting :: "'p worker \<Rightarrow> bool" where
  "resting w \<longleftrightarrow> reader w = RReading \<and> inbuf w = [] \<and> out_closed w = None \<and> pending w = []"

definition ready :: "'p fleet \<Rightarrow> nat \<Rightarrow> bool" where
  "ready s t \<longleftrightarrow> fleet_inv s \<and> (\<forall>r. live (fl_pool s) r \<longrightarrow> resting (fl_workers s r)) \<and>
     (\<forall>u \<ge> t. requests (fl_pool s) u = PIdle)"

lemma resting_worker0 [simp]: "resting worker0"
  by (simp add: resting_def worker0_def)

text \<open>What Node does with a request: one line back, which decodes to its answer under the same ID.\<close>

definition node_answers ::
  "('p render_request \<Rightarrow> string go) \<Rightarrow> (string \<Rightarrow> render_response go) \<Rightarrow> (string \<Rightarrow> string) \<Rightarrow>
   (string \<Rightarrow> 'p \<Rightarrow> render_response) \<Rightarrow> bool" where
  "node_answers enc dec node answer \<longleftrightarrow>
     (\<forall>i c ps l. enc \<lparr>req_id = i, req_component = c, req_props = ps\<rparr> = Inr l \<longrightarrow>
        (\<exists>a. node (l @ [newline]) = a @ [newline] \<and> newline \<notin> set a \<and>
           dec (a @ [newline]) = Inr ((answer c ps)\<lparr>resp_id := i\<rparr>)))"

definition call_value ::
  "('p render_request \<Rightarrow> string go) \<Rightarrow> (string \<Rightarrow> 'p \<Rightarrow> render_response) \<Rightarrow> request_id \<Rightarrow> string \<Rightarrow> 'p \<Rightarrow>
   render_response go" where
  "call_value enc answer i c ps =
     (case enc \<lparr>req_id = i, req_component = c, req_props = ps\<rparr> of
        Inl e \<Rightarrow> Inl (GWrap ''revelt worker: marshalling request'' e)
      | Inr _ \<Rightarrow> Inr ((answer c ps)\<lparr>resp_id := i\<rparr>))"

lemma worker_serves:
  assumes "resting w" "callers w t = CIdle" "node_answers enc dec node answer"
  shows "\<exists>w'. wrun enc dec w (render_events enc node w t c ps) = Some w' \<and> resting w' \<and>
    result_of (callers w' t) = Some (call_value enc answer (next_id w + 1) c ps)"
proof (cases "enc \<lparr>req_id = next_id w + 1, req_component = c, req_props = ps\<rparr>")
  case (Inl e)
  with assms(1,2) show ?thesis
    by (simp add: render_events_def call_value_def resting_def Let_def write_request_def AList.delete_eq)
next
  case (Inr l)
  with assms(3) obtain a where a: "node (l @ [newline]) = a @ [newline]" "newline \<notin> set a"
    "dec (a @ [newline]) = Inr ((answer c ps)\<lparr>resp_id := next_id w + 1\<rparr>)"
    unfolding node_answers_def by blast
  with Inr assms(1,2) show ?thesis
    by (simp add: render_events_def call_value_def resting_def Let_def write_request_def read_line_body
        AList.delete_eq)
qed

lemma acquire_ready:
  assumes "pool_inv p" "requests p t = PIdle"
  obtains q i r where "prun p (acquire_events None p t) = Some q"
    "requests q = (requests p)(t := PGot i r)" "live q r" "r < next_ref q"
    "next_ref p \<le> next_ref q" "\<forall>x. live q x \<longrightarrow> live p x \<or> x = next_ref p"
proof (cases "live p (slots p ! next_slot p)")
  case True
  then have "slots p ! next_slot p < next_ref p" using assms(1) by (auto simp: pool_inv_def)
  with True assms(2) that [where i = "next_slot p" and r = "slots p ! next_slot p"] show ?thesis
    by (simp add: acquire_events_def)
next
  case False
  with assms(2) that [where i = "next_slot p" and r = "next_ref p"] show ?thesis
    by (simp add: acquire_events_def)
qed

lemma acquire_not_spontaneous: "e \<in> set (acquire_events spawned p t) \<Longrightarrow> \<not> is_spontaneous e"
  by (auto simp: acquire_events_def split: if_splits)

lemma render_events_enter:
  "requests p t = PGot i r \<Longrightarrow> e \<in> set (render_events enc node w t c ps) \<Longrightarrow> enters p r e"
  by (auto simp: render_events_def split: sum.splits)

lemma fleet_call_ready:
  assumes "ready s t" "node_answers enc dec node answer"
  shows "\<exists>u i. fleet_call enc dec node None s t c ps = Some u \<and> ready u (t + 1) \<and>
    fleet_result u t = Some (call_value enc answer i c ps)"
proof -
  let ?p = "fl_pool s"
  have inv: "fleet_inv s" and rest: "\<And>r. live ?p r \<Longrightarrow> resting (fl_workers s r)"
    and idle: "\<And>u. t \<le> u \<Longrightarrow> requests ?p u = PIdle"
    using assms(1) by (auto simp: ready_def)
  then have j: "joined s" and pinv: "pool_inv ?p" by (simp_all add: fleet_inv_def)
  from acquire_ready [OF pinv idle [OF order_refl]] obtain q i r where
    q: "prun ?p (acquire_events None ?p t) = Some q" "requests q = (requests ?p)(t := PGot i r)"
      "live q r" "r < next_ref q" "next_ref ?p \<le> next_ref q"
      "\<forall>x. live q x \<longrightarrow> live ?p x \<or> x = next_ref ?p" .
  let ?s = "s\<lparr>fl_pool := q\<rparr>"
  have s1: "frun enc dec s (map FPool (acquire_events None ?p t)) = Some ?s"
    by (rule frun_pool_only [OF _ q(1)]) (auto dest: acquire_not_spontaneous)
  have inv1: "fleet_inv ?s" by (rule fleet.machine_inv [OF s1 inv])
  have rest1: "resting (fl_workers s x)" if "live q x" for x
    using q(6) that rest [of x] joinedD(2) [OF j, of x] by auto
  have "callers (fl_workers s r) t = CIdle"
    using joinedD(3) [OF j, of r t] idle [of t] by auto
  from worker_serves [OF rest1 [OF q(3)] this assms(2)] obtain w where
    w: "wrun enc dec (fl_workers s r) (render_events enc node (fl_workers s r) t c ps) = Some w" "resting w"
      "result_of (callers w t) = Some (call_value enc answer (next_id (fl_workers s r) + 1) c ps)" by blast
  have "\<forall>e \<in> set (render_events enc node (fl_workers s r) t c ps). enters (fl_pool ?s) r e"
    using q(2) by (auto intro: render_events_enter [of q t i r])
  moreover have "wrun enc dec (fl_workers ?s r) (render_events enc node (fl_workers s r) t c ps) = Some w"
    "r < next_ref (fl_pool ?s)"
    using w(1) q(4) by simp_all
  ultimately obtain p where
    p: "frun enc dec ?s (map (FWorker r) (render_events enc node (fl_workers s r) t c ps)) =
         Some \<lparr>fl_pool = p, fl_workers = (fl_workers s)(r := w)\<rparr>" "same_but_live r q p"
    using fleet_lift_run [OF inv1] by fastforce
  let ?u = "\<lparr>fl_pool = p, fl_workers = (fl_workers s)(r := w)\<rparr>"
  have "fleet_call enc dec node None s t c ps = Some ?u"
    using s1 p(1) q(2) by (simp add: fleet_call_def)
  moreover have "fleet_result ?u t = Some (call_value enc answer (next_id (fl_workers s r) + 1) c ps)"
    using w(3) q(2) p(2) by (simp add: fleet_result_def same_but_live_simps)
  moreover have "live q x" if "live p x" "x \<noteq> r" for x
    using p(2) that by (auto simp: same_but_live_def)
  then have "ready ?u (t + 1)"
    using fleet.machine_inv [OF p(1) inv1] w(2) rest1 idle q(2) p(2)
    by (auto simp: ready_def same_but_live_simps)
  ultimately show ?thesis by blast
qed

section \<open>Pages\<close>

text \<open>Whatever happens, the machine behind the renderer keeps its invariant.\<close>

lemma fleet_call_inv:
  assumes "fleet_inv s" "fleet_call enc dec node spawned s t c ps = Some u"
  shows "fleet_inv u"
  using assms
  by (auto simp: fleet_call_def split: option.splits prequest.splits intro: fleet.machine_inv)

interpretation fleet_backend: render_backend "fleet_service enc dec node spawned" "\<lambda>st. fleet_inv (fst st)"
  by unfold_locales (auto simp: fleet_service_def split: option.splits dest: fleet_call_inv)

text \<open>The service the fleet is to be: a function of the request, with the error of a request that cannot be written as JSON.\<close>

definition plain_service :: "(string \<Rightarrow> props \<Rightarrow> render_response) \<Rightarrow> unit render_service" where
  "plain_service answer st timeout c ps =
     (case marshal_props ps of
        Inl e \<Rightarrow> Inl (GWrap ''revelt worker: marshalling request'' e)
      | Inr _ \<Rightarrow> Inr (answer c ps), ())"

lemma call_value_plain:
  "call_value marshal_request answer i c ps =
     map_go (\<lambda>r. r\<lparr>resp_id := i\<rparr>) (fst (plain_service answer () timeout c ps))"
  by (simp add: call_value_def plain_service_def marshal_request_def split: sum.split)

lemma fleet_service_ready:
  assumes "ready s t" "node_answers marshal_request dec node answer"
  obtains u i where "fleet_service marshal_request dec node None (s, t) timeout c ps =
      (map_go (\<lambda>r. r\<lparr>resp_id := i\<rparr>) (fst (plain_service answer () timeout c ps)), (u, t + 1))"
    "ready u (t + 1)"
  using fleet_call_ready [OF assms, of c ps]
  by (auto simp: fleet_service_def call_value_plain [where timeout = timeout])

lemma ssr_over_fleet:
  assumes "ready s t" "node_answers marshal_request dec node answer"
  obtains u where "ssr_render ip (fleet_service marshal_request dec node None) cfg (s, t) c ps =
      (fst (ssr_render ip (plain_service answer) cfg () c ps), (u, t + 1))" "ready u (t + 1)"
proof -
  let ?to = "if 0 < render_timeout cfg then Some (render_timeout cfg) else None"
  obtain u i where u: "fleet_service marshal_request dec node None (s, t) ?to c ps =
      (map_go (\<lambda>r. r\<lparr>resp_id := i\<rparr>) (fst (plain_service answer () ?to c ps)), (u, t + 1))" "ready u (t + 1)"
    using fleet_service_ready [OF assms] by blast
  with that [of u] show ?thesis
    by (cases "marshal_props ps") (auto simp: ssr_render_def plain_service_def)
qed

lemma render_over_fleet:
  assumes "ready s t" "node_answers marshal_request dec node answer"
  shows "\<exists>u v. render ip (fleet_service marshal_request dec node None) cfg pc (s, t) c ps =
      (fst (render ip (plain_service answer) cfg pc () c ps), (u, v)) \<and> ready u v"
proof -
  obtain u where "ssr_render ip (fleet_service marshal_request dec node None) cfg (s, t) c ps =
      (fst (ssr_render ip (plain_service answer) cfg () c ps), (u, t + 1))" "ready u (t + 1)"
    using ssr_over_fleet [OF assms] by blast
  with assms(1) show ?thesis
    by (auto simp: render_def split: option.split sum.split)
qed

lemma render_all_fst:
  "fst (render_all ip svc cfg pc s ((c, ps) # rs)) =
     fst (render ip svc cfg pc s c ps) # fst (render_all ip svc cfg pc (snd (render ip svc cfg pc s c ps)) rs)"
  by (simp add: Let_def split: prod.splits)

lemma render_all_over_fleet:
  assumes "ready s t" "node_answers marshal_request dec node answer"
  shows "fst (render_all ip (fleet_service marshal_request dec node None) cfg pc (s, t) rs) =
    fst (render_all ip (plain_service answer) cfg pc () rs)"
  using assms(1)
proof (induction rs arbitrary: s t)
  case (Cons r rs)
  obtain c ps where r: "r = (c, ps)" by (cases r)
  from render_over_fleet [OF Cons.prems assms(2), of ip cfg pc c ps] obtain u v where
    u: "render ip (fleet_service marshal_request dec node None) cfg pc (s, t) c ps =
      (fst (render ip (plain_service answer) cfg pc () c ps), (u, v))" "ready u v" by blast
  from Cons.IH [OF u(2)] u(1) r show ?case by (simp add: render_all_fst del: render_all.simps)
qed simp


text \<open>
  A Node process that echoes the line, and a decoder that reads the ID from it: the digits after
  the first six characters.
\<close>

definition demo_answer :: "string \<Rightarrow> props \<Rightarrow> render_response" where
  "demo_answer c ps = \<lparr>resp_id = 0, resp_html = ''page'', resp_head = [], resp_error = []\<rparr>"

definition demo_read :: "string \<Rightarrow> render_response go" where
  "demo_read l = Inr \<lparr>resp_id = word_of_nat (number (takeWhile is_digit (drop 6 l))), resp_html = ''page'',
     resp_head = [], resp_error = []\<rparr>"

lemma takeWhile_digits: "takeWhile is_digit (show_nat n @ CHR '','' # s) = show_nat n"
proof -
  have "\<not> is_digit CHR '',''" by (simp add: is_digit_def)
  moreover have "\<forall>c \<in> set (show_nat n). is_digit c"
    using show_nat_parts(1) [of n] by (simp add: list_all_iff)
  ultimately show ?thesis by (subst takeWhile_append2) auto
qed

lemma demo_node: "node_answers marshal_request demo_read (\<lambda>l. l) demo_answer"
  unfolding node_answers_def
proof (intro allI impI)
  fix i c ps l assume l: "marshal_request \<lparr>req_id = i, req_component = c, req_props = ps\<rparr> = Inr l"
  then obtain rest where "l = ''{'' @ json_string ''id'' @ '':'' @ show_nat (unat i) @ CHR '','' # rest"
    by (auto simp: marshal_request_def map_go_Inr)
  moreover have "length (''{'' @ json_string ''id'' @ '':'') = 6"
    by (simp add: json_string_def json_chars.simps json_rune_def json_ascii_def)
  ultimately have "drop 6 (l @ [newline]) = show_nat (unat i) @ CHR '','' # rest @ [newline]" by simp
  then have "demo_read (l @ [newline]) = Inr ((demo_answer c ps)\<lparr>resp_id := i\<rparr>)"
    by (simp add: demo_read_def demo_answer_def takeWhile_digits number_show)
  with safe_text_one_line [OF marshal_request_safe [OF l]]
  show "\<exists>a. l @ [newline] = a @ [newline] \<and> newline \<notin> set a \<and>
      demo_read (a @ [newline]) = Inr ((demo_answer c ps)\<lparr>resp_id := i\<rparr>)" by blast
qed

text \<open>Worker 1 has died before the requests: the first of them replaces it.\<close>

definition demo_dead :: "props fevent list" where
  "demo_dead = [FWorker 1 (ENodeEnd None), FWorker 1 ERead, FWorker 1 EDrain, FWorker 1 EClose]"


end
