(* ===== verification/Csrf_Claims.thy ===== *)
theory Csrf_Claims
  imports Middleware_Claims
begin

text \<open>
  The CSRF middleware over the requests of one browser: base64 is undone by decoding, the token
  survives the trip through \<open>Set-Cookie\<close> and the cookie jar, and it is what the next request
  has to present.
\<close>

section \<open>Tokens\<close>

definition b64_val :: "char \<Rightarrow> nat" where
  "b64_val c =
     (let v = of_char c in
      if 97 \<le> v then v - 71 else if 65 \<le> v then v - 65 else if 48 \<le> v then v + 4
      else if v = 43 then 62 else 63)"

fun unbase64 :: "string \<Rightarrow> nat list" where
  "unbase64 (p # q # r # s # cs) =
     (b64_val p * 4 + b64_val q div 16) #
     (if r = CHR ''='' then []
      else (b64_val q mod 16 * 16 + b64_val r div 4) #
        (if s = CHR ''='' then [] else (b64_val r mod 4 * 64 + b64_val s) # unbase64 cs))"
| "unbase64 _ = []"

lemma b64_codes: "v < 64 \<Longrightarrow> (of_char (b64_char v) :: nat) =
    (if v < 26 then 65 + v else if v < 52 then 71 + v else if v < 62 then v - 4 else if v = 62 then 43 else 47)"
  by (simp add: b64_char_def take_bit_nat_eq_self)

lemma b64_val_char [simp]: "v < 64 \<Longrightarrow> b64_val (b64_char v) = v"
  by (auto simp: b64_val_def Let_def b64_codes)

lemma b64_char_plain:
  assumes "v < 64"
  shows "b64_char v \<noteq> CHR ''=''" and "b64_char v \<noteq> CHR '';''"
proof -
  have "(of_char (b64_char v) :: nat) \<noteq> 61" "(of_char (b64_char v) :: nat) \<noteq> 59"
    using assms by (auto simp: b64_codes split: if_splits)
  then show "b64_char v \<noteq> CHR ''=''" "b64_char v \<noteq> CHR '';''" by auto
qed

lemma sextets:
  fixes a b c :: nat
  assumes "a < 256" "b < 256" "c < 256"
  shows "a div 4 < 64" "a mod 4 * 16 < 64" "a mod 4 * 16 + b div 16 < 64" "b mod 16 * 4 < 64"
    "b mod 16 * 4 + c div 64 < 64" "c mod 64 < 64" "b div 16 < 16" "c div 64 < 4"
  using assms mod_less_divisor [of 4 a] mod_less_divisor [of 16 b] by (auto simp: div_less_iff_less_mult)

lemma join_sextets:
  fixes a b c :: nat
  assumes "b < 256" "c < 256"
  shows "(a mod 4 * 16 + b div 16) div 16 = a mod 4" "(a mod 4 * 16 + b div 16) mod 16 = b div 16"
    "(b mod 16 * 4 + c div 64) div 4 = b mod 16" "(b mod 16 * 4 + c div 64) mod 4 = c div 64"
  using sextets(7,8) [of 0 b c] assms by simp_all

text \<open>Decoding one group of four characters.\<close>

lemma unbase64_group:
  fixes a b c :: nat
  assumes "a < 256" "b < 256" "c < 256"
  shows "unbase64 (b64_char (a div 4) # b64_char (a mod 4 * 16 + b div 16)
      # b64_char (b mod 16 * 4 + c div 64) # b64_char (c mod 64) # s) = a # b # c # unbase64 s"
    and "unbase64 [b64_char (a div 4), b64_char (a mod 4 * 16 + b div 16), b64_char (b mod 16 * 4), CHR ''=''] = [a, b]"
    and "unbase64 [b64_char (a div 4), b64_char (a mod 4 * 16), CHR ''='', CHR ''=''] = [a]"
  using sextets [OF assms] by (simp_all add: b64_char_plain join_sextets assms)

lemma unbase64_base64: "set bs \<subseteq> {..<256} \<Longrightarrow> unbase64 (base64 bs) = bs"
  by (induction bs rule: base64.induct) (simp_all add: unbase64_group(1,3) unbase64_group(2) [where c = 0] del: unbase64.simps(1))

lemma base64_inj: "set bs \<subseteq> {..<256} \<Longrightarrow> set cs \<subseteq> {..<256} \<Longrightarrow> base64 bs = base64 cs \<longleftrightarrow> bs = cs"
  using unbase64_base64 by metis

lemma base64_no_semicolon: "set bs \<subseteq> {..<256} \<Longrightarrow> CHR '';'' \<notin> set (base64 bs)"
  by (induction bs rule: base64.induct) (auto simp: sextets b64_char_plain(2) [symmetric])

section \<open>The cookie jar of a browser\<close>

text \<open>
  What a browser that obeys the \<open>Set-Cookie\<close> lines it received sends back to the same site:
  the name is what precedes the first \<open>=\<close>, the value goes up to the first \<open>;\<close>.
\<close>

definition cookie_pair :: "string \<Rightarrow> string \<times> string" where
  "cookie_pair h = (takeWhile (\<lambda>c. c \<noteq> CHR ''='') h,
     takeWhile (\<lambda>c. c \<noteq> CHR '';'') (drop 1 (dropWhile (\<lambda>c. c \<noteq> CHR ''='') h)))"

definition jar :: "string list \<Rightarrow> (string \<rightharpoonup> string)" where
  "jar hs = map_of (rev (map cookie_pair hs))"

lemma jar_csrf:
  assumes "CHR '';'' \<notin> set token"
  shows "jar [csrf_cookie token secure] ''csrf_token'' = Some token"
proof -
  have "takeWhile (\<lambda>c. c \<noteq> CHR '';'') (token @ CHR '';'' # rest) = token" for rest
    using assms by (subst takeWhile_append2) auto
  then show ?thesis by (simp add: jar_def cookie_pair_def csrf_cookie_def)
qed

section \<open>Two requests of one browser\<close>

lemma csrf_with_token:
  assumes "rq_cookies r ''csrf_token'' = Some tok" "tok \<noteq> []"
  shows "csrf_mw Z rand secure next r w =
    (if is_safe_method (rq_method r) \<or> csrf_presented r = tok
     then next (with_ctx ''csrf_token_ctx'' (CtxStr tok) r) w
     else (http_error Z w ''Forbidden: CSRF token validation failed'' 403, HNil))"
proof -
  have "get_or_create_token rand secure r w = (Inr tok, w)"
    using assms(1) by (simp add: get_or_create_token_def)
  then show ?thesis using csrf_guard [of Z rand secure "next" r w] assms by auto
qed

text \<open>
  C28: the CSRF token over two requests. A browser without a token that loads a page gets one
  in a cookie, and the page reads that very token. When the browser comes back with its cookie,
  a request that changes state reaches its handler exactly when it presents this token in the
  form or the header; in particular the token made of any other random bytes, and no token at
  all, are answered with 403. A browser whose cookie is not sent along is refused whatever it
  presents.
\<close>

theorem csrf_session:
  assumes "set bs \<subseteq> {..<256}" "bs \<noteq> []"
    and "rq_cookies r1 ''csrf_token'' = None" "is_safe_method (rq_method r1)"
    and "\<not> is_safe_method (rq_method r2)"
  shows "\<exists>tok r1'. create_token (Inr bs) = Inr tok \<and> csrf_token r1' = tok \<and>
    csrf_mw Z (Inr bs) secure page r1 w1 = page r1' (upd_hdrs (hadd ''Set-Cookie'' (csrf_cookie tok secure)) w1) \<and>
    (rq_cookies r2 ''csrf_token'' = jar [csrf_cookie tok secure] ''csrf_token'' \<longrightarrow>
       (\<exists>r2'. csrf_token r2' = tok \<and>
          csrf_mw Z rand secure post r2 w2 =
            (if csrf_presented r2 = tok then post r2' w2
             else (http_error Z w2 ''Forbidden: CSRF token validation failed'' 403, HNil))) \<and>
       (\<forall>cs. set cs \<subseteq> {..<256} \<longrightarrow> create_token (Inr cs) = Inr (csrf_presented r2) \<longrightarrow>
          (csrf_presented r2 = tok \<longleftrightarrow> cs = bs)) \<and>
       (csrf_presented r2 = [] \<longrightarrow> csrf_presented r2 \<noteq> tok)) \<and>
    (rq_cookies r2 ''csrf_token'' = None \<longrightarrow>
       (\<exists>w. csrf_mw Z (Inr ds) secure post r2 w2 =
          (http_error Z w ''Forbidden: CSRF token validation failed'' 403, HNil)))"
proof -
  let ?tok = "base64 bs" and ?h = "csrf_cookie (base64 bs) secure"
  have ne: "?tok \<noteq> []" using assms(2) by (induction bs rule: base64.induct) simp_all
  have ctx: "csrf_token (with_ctx ''csrf_token_ctx'' (CtxStr t) r) = t" for t r
    by (simp add: csrf_token_def with_ctx_def)
  have "csrf_mw Z (Inr bs) secure page r1 w1 =
      page (with_ctx ''csrf_token_ctx'' (CtxStr ?tok) r1) (upd_hdrs (hadd ''Set-Cookie'' ?h) w1)"
    using csrf_guard [of Z "Inr bs" secure page r1 w1] assms(3,4)
    by (simp add: get_or_create_token_def create_token_def)
  moreover have "csrf_mw Z rand secure post r2 w2 =
      (if csrf_presented r2 = ?tok then post (with_ctx ''csrf_token_ctx'' (CtxStr ?tok) r2) w2
       else (http_error Z w2 ''Forbidden: CSRF token validation failed'' 403, HNil))"
    if "rq_cookies r2 ''csrf_token'' = jar [?h] ''csrf_token''"
    using csrf_with_token [of r2 ?tok] that jar_csrf [OF base64_no_semicolon [OF assms(1)]] ne assms(5)
    by simp
  moreover have "csrf_presented r2 = ?tok \<longleftrightarrow> cs = bs"
    if "set cs \<subseteq> {..<256}" "create_token (Inr cs) = Inr (csrf_presented r2)" for cs
    using that base64_inj [OF that(1) assms(1)] by (auto simp: create_token_def)
  moreover have "\<exists>w. csrf_mw Z (Inr ds) secure post r2 w2 =
      (http_error Z w ''Forbidden: CSRF token validation failed'' 403, HNil)"
    if "rq_cookies r2 ''csrf_token'' = None"
    using csrf_guard [of Z "Inr ds" secure post r2 w2] that assms(5)
    by (auto simp: get_or_create_token_def create_token_def)
  moreover have "create_token (Inr bs) = Inr ?tok" by (simp add: create_token_def)
  ultimately show ?thesis using ne ctx
    by (intro exI [of _ ?tok] exI [of _ "with_ctx ''csrf_token_ctx'' (CtxStr ?tok) r1"] conjI)
      (blast | simp)+
qed

definition demo_post :: "string \<Rightarrow> request" where
  "demo_post tok = demo_request\<lparr>rq_method := ''POST'', rq_cookies := jar [csrf_cookie ''TWFu'' False],
     rq_form := (\<lambda>_. tok)\<rparr>"

theorem csrf_session_witness:
  "\<exists>r. csrf_token r = ''TWFu'' \<and>
     csrf_mw demo_codecs (Inr [1]) False (\<lambda>r w. (w, HErr (GErr (csrf_token r)))) (demo_post ''TWFu'') (Conn demo_conn) =
       (Conn demo_conn, HErr (GErr (csrf_token r)))"
proof -
  let ?r1 = "demo_request" and ?r2 = "demo_post ''TWFu''"
  let ?post = "\<lambda>r w. (w, HErr (GErr (csrf_token r)))"
  have tok: "base64 [77, 97, 110] = ''TWFu''" by (simp add: b64_char_def char_of_def bit_iff_odd)
  have pre: "set [77, 97, 110 :: nat] \<subseteq> {..<256}" "[77, 97, 110 :: nat] \<noteq> []"
    "rq_cookies ?r1 ''csrf_token'' = None" "is_safe_method (rq_method ?r1)"
    "\<not> is_safe_method (rq_method ?r2)"
    by (simp_all add: demo_request_def demo_post_def is_safe_method_def)
  have jar: "rq_cookies ?r2 ''csrf_token'' = jar [csrf_cookie ''TWFu'' False] ''csrf_token''"
    by (simp add: demo_post_def)
  from csrf_session [OF pre, of demo_codecs False ?post "Conn demo_conn" "Inr [1]" ?post "Conn demo_conn" "[1]"]
  obtain tok where t: "create_token (Inr [77, 97, 110]) = Inr tok"
    "rq_cookies ?r2 ''csrf_token'' = jar [csrf_cookie tok False] ''csrf_token'' \<longrightarrow>
       (\<exists>r2'. csrf_token r2' = tok \<and>
          csrf_mw demo_codecs (Inr [1]) False ?post ?r2 (Conn demo_conn) =
            (if csrf_presented ?r2 = tok then ?post r2' (Conn demo_conn)
             else (http_error demo_codecs (Conn demo_conn) ''Forbidden: CSRF token validation failed'' 403, HNil)))"
    by blast
  from t(1) have "tok = ''TWFu''" by (simp add: create_token_def tok del: base64.simps)
  with t(2) jar have "\<exists>r2'. csrf_token r2' = ''TWFu'' \<and>
      csrf_mw demo_codecs (Inr [1]) False ?post ?r2 (Conn demo_conn) =
        (if csrf_presented ?r2 = ''TWFu'' then ?post r2' (Conn demo_conn)
         else (http_error demo_codecs (Conn demo_conn) ''Forbidden: CSRF token validation failed'' 403, HNil))"
    by (simp only: simp_thms)
  moreover have "csrf_presented ?r2 = ''TWFu''" by (simp add: csrf_presented_def demo_post_def)
  ultimately show ?thesis by (simp only: simp_thms if_True)
qed

end
