(* ===== verification/Spec2Isabelle.thy ===== *)
theory Spec2Isabelle
  imports Wire Renderer_Claims Config_Claims Compress_Claims Ratelimit_Claims Middleware_Claims
    Http_Helpers_Claims App_Claims Sessions_Claims Cli_Claims Streaming Etag_Pool_Claims Cli_Init_Claims
    Dev_Run Server_Claims App_Run Ratelimit_Race Fleet_Render Csrf_Claims
begin

text \<open>
  \<^bold>\<open>A verification development for revelt\<close>

  revelt renders web components of a Go server with a pool of Node.js processes. This
  development models the Go code: the worker processes and their pool, the renderer, the
  project configuration, the HTTP middlewares and helpers, the application, and the command
  line tool with its development server.

  \<^bold>\<open>Parts and theories.\<close> Each component has a theory of definitions, translated from the
  code, and one of claims (suffix \<open>_Claims\<close>).

  \<^item> Prelude, Utf8, Steps: Go errors, results and strings; UTF-8 and \<open>strconv.Quote\<close>; the
    contracts of state machines as locales (\<open>machine\<close>, \<open>guarded_machine\<close>,
    \<open>mortal_machine\<close>).
  \<^item> Worker, Worker_Safety, Worker_Claims (\<open>src/worker.go\<close>): one Node process. The state is
    the record \<open>worker\<close>: the next ID, the map of pending calls, the pipes, the reader
    goroutine, the callers. \<open>wstep\<close> is one atomic action of \<open>render\<close>, \<open>writeRequest\<close>,
    \<open>readLoop\<close>, \<open>dispatch\<close> or \<open>drainPending\<close>. Proved: replies reach the call whose ID
    they carry, pending entries belong to calls in progress, a dead process unblocks every
    caller, and the worker refines a machine of plain remote calls.
  \<^item> Json, Json_Text, Wire (\<open>src/protocol/wire.go\<close>): the encoder of \<open>encoding/json\<close> and the
    envelope written to Node; written requests split at newlines into what was sent.
  \<^item> Pool, Pool_Claims (\<open>src/pool.go\<close>): \<open>pstep\<close> is one critical section of \<open>render\<close> or
    \<open>workerAt\<close>, or the death of a process. Round robin is fair, an acquired worker is alive,
    no more processes are started than died, and shutdown closes every live one.
  \<^item> Fleet, Fleet_Claims (\<open>src/pool.go\<close>, \<open>src/worker.go\<close>): the pool with the worker behind
    every reference (\<open>fstep\<close>). A call enters the worker it acquired, and the close of
    \<open>done\<close> is the death the pool sees. A run projects to a run of the pool and of each
    worker, so what is proved of them holds of the whole; a reply comes from the process its
    call acquired, and a crashed process is replaced and serves. Fleet_Render: the machine as the
    service of the renderer (\<open>render_backend\<close>), which serves the pages of a plain function.
  \<^item> Renderer, Renderer_Claims (\<open>src/renderer.go\<close>): options, start, \<open>Render\<close>, \<open>Close\<close>.
    Client-only components never reach Node and their properties survive the HTML escaping; the
    sequential \<open>worker_at\<close> agrees with the interleaved \<open>pstep\<close>.
  \<^item> Config, Config_Claims (\<open>src/config.go\<close>): defaults, the walk of the component directory,
    the scan for \<open>@mode\<close>. The walk is proved against a set of paths and their annotations.
  \<^item> Http (\<open>src/app.go\<close> and the writers of the middlewares): requests, the connection of
    net/http, and a writer \<open>rw\<close> as the connection under its wrappers, one constructor per
    wrapper type, with \<open>Header\<close>, \<open>WriteHeader\<close>, \<open>Write\<close>, \<open>Flush\<close>, \<open>Hijack\<close> and \<open>Unwrap\<close> as
    recursive functions over one definition per wrapper; handlers, \<open>Adapt\<close>, the middleware chain of \<open>Run\<close>. A handler body is a tree \<open>hprog\<close> of calls on its
    writer that may branch on what it reads back.
  \<^item> Streaming (\<open>src/http.go\<close>): \<open>FlushWriter\<close> and \<open>ReadLines\<close>; what has been flushed through
    gzip can be decoded at once, and what the other writers make of a flush.
  \<^item> Compress, Compress_Claims (\<open>middleware/gzip\<close>, \<open>brotli\<close>, \<open>etag\<close>, static assets): a
    writer that simulates the plain one (locale \<open>writer_sim\<close>, extended by \<open>compressing\<close>) is
    interpreted for gzip, Brotli and the ETag buffer; the client gets the response the handler
    wrote, decompressed.
  \<^item> Etag_Pool, Etag_Pool_Claims (\<open>middleware/etag\<close>): the pool of ETag writers over a store of
    buffer arrays, used by interleaved requests (\<open>estep\<close>). Tags are always those of the
    request's own page; its body is too unless another request comes before it is sent.
  \<^item> Ratelimit, Ratelimit_Claims (\<open>middleware/ratelimit\<close>): the token bucket and its manager;
    the bound on the requests let through in a window, and when eviction cannot be observed.
    Ratelimit_Race: the critical sections of \<open>Allow\<close> and \<open>cleanup\<close> interleaved
    (\<open>lim_step\<close>), which simulate the manager in one step.
  \<^item> Middleware, Middleware_Claims (\<open>cors\<close>, \<open>security\<close>, \<open>requestid\<close>, \<open>auth\<close>, \<open>csrf\<close>,
    \<open>recovery\<close>, \<open>logger\<close>): the contract \<open>commit_safe\<close>, that what is sent is never taken back,
    interpreted for every middleware and carried to chains; then the guard each one is for.
    Csrf_Claims: base64 decoded, the cookie jar of a browser, and the token over two requests.
  \<^item> Sessions, Sessions_Claims (\<open>auth/cookie.go\<close>, \<open>flash\<close>): cookie sessions.
  \<^item> Http_Helpers, Http_Helpers_Claims (\<open>src/http.go\<close>): JSON bodies, query parameters,
    uploads, downloads; limits are 64-bit words.
  \<^item> App, App_Claims (\<open>src/app.go\<close>, \<open>src/health\<close>): options, construction, pages with
    concurrent slots, health endpoints, the shutdown.
  \<^item> Server, Server_Claims (\<open>src/app.go\<close>): registration of routes, the static handler, page
    builders and the server \<open>Run\<close> configures. The whole server keeps the contract of the
    middlewares, every route reaches its handler, client-only pages need no Node process.
  \<^item> App_Run (\<open>src/app.go\<close>, \<open>src/signal.go\<close>): contexts, goroutines and \<open>Run\<close> as a guarded
    machine (\<open>lstep\<close>): it shuts down for a reason, in order, and ends.
  \<^item> Dev, Dev_Claims (\<open>cmd/revelt/dev.go\<close>): the restart loop as a guarded machine over the
    events of its goroutines, the watchers. Dev_Run: the Node watcher (\<open>nstep\<close>) and \<open>run\<close>
    (\<open>rstep\<close>), which leaves nothing behind.
  \<^item> Cli, Cli_Claims (\<open>cmd/revelt/main.go\<close>, \<open>template.go\<close>): the subcommands but init.
    Cli_Init, Cli_Init_Claims: the dispatch and \<open>revelt init\<close> as a list of operations on the
    file system; an update right after it changes nothing.

  \<^bold>\<open>How they fit.\<close> The renderer holds a pool and the configuration; its \<open>render\<close> takes the
  pool as a state-passing service, which \<open>pool_render\<close> provides. Pages and the application hold
  a renderer. Middlewares are functions on handlers; they meet in \<open>app_root\<close>. The generator of
  the command line tool and the loader meet in the annotation they write and read.

  \<^bold>\<open>Parameters.\<close> What is not the program's code is an argument: the JSON decoder, the
  compressors (by what each write and the close emit), SHA-1, the JWT library, the session
  library, \<open>html/template\<close>, the MIME tables, \<open>unicode.IsPrint\<close>, random bytes, clocks, the
  answers of the operating system. Laws on them are named hypotheses (\<open>codec_ok\<close>, \<open>jwt_sound\<close>,
  the round trip of a session codec), each with a witness that holds for a concrete instance.

  \<^bold>\<open>Bounds.\<close> Request IDs and the pool cursor are 64-bit words, as are the limits of
  \<open>http.go\<close>; a \<open>float64\<close> of the rate limiter is a rational without rounding. No function runs on
  fuel: loops are structural or have a termination proof, and machines are run on event lists.
  The limit of five in the scan of a component file, of 64 KiB per line, of two restart tokens
  and of one exit message are those of the code.

  \<^bold>\<open>Not modelled.\<close> A write to the stdin of Node that blocks (the
  model lets it return); status codes net/http panics on; the per-request cache of gorilla
  sessions; the choice of \<open>ServeMux\<close> among patterns and the accepting of connections by
  \<open>http.Server\<close> (arguments and events); the output format of slog and of progress messages;
  \<open>Redirect\<close> and \<open>signalNotifyContext\<close>, each one call of
  the standard library. In Etag_Pool the requests are cacheable and answered with 200
  unconditionally; the other answers are in Compress.
\<close>

end
